(* ===== verification/Sbus_Prelude.thy ===== *)
theory Sbus_Prelude
  imports Main "HOL-Library.Word" "HOL-Library.AList"
begin

text \<open>
  What every component of the model shares: the ways a run of the code can go wrong
  (\<open>fault\<close>), programs that pass a state and may fault (\<open>prog\<close>), C's narrowing
  conversions, decimal printing as done by \<open>sprintf\<close>, and the little-endian memory
  layout of 16 and 32 bit integers with the byte-order functions \<open>htons\<close> and \<open>htonl\<close>.

  Bytes are values of type \<open>char\<close>: a C buffer, a C++ \<open>string\<close> and the contents of a
  socket are all of type \<open>string\<close>.
\<close>

section \<open>Faults and state-passing programs\<close>

text \<open>
  \<open>Exit_Failure\<close> is the \<open>exit(-1)\<close> of the macro ASSERT in errdefs.h. The next six are
  the undefined behaviours the code can reach; \<open>Stack_Overflow\<close> is an \<open>alloca\<close> for which the
  stack has no room. \<open>Uncaught\<close> is a C++ exception that leaves
  the code. \<open>No_Fuel\<close> belongs to the model: a loop was cut off by its fuel.
\<close>

datatype fault =
    Exit_Failure
  | Out_Of_Bounds
  | Null_Pointer
  | Use_After_Free
  | Bad_Iterator
  | Int_Overflow
  | Stack_Overflow
  | Uncaught string
  | No_Fuel

type_synonym ('s, 'a) prog = "'s \<Rightarrow> fault + 'a \<times> 's"

named_theorems prog_simps \<open>unfolding of the program combinators\<close>

definition ret :: "'a \<Rightarrow> ('s, 'a) prog" where
  "ret a = (\<lambda>s. Inr (a, s))"

definition bindp :: "('s, 'a) prog \<Rightarrow> ('a \<Rightarrow> ('s, 'b) prog) \<Rightarrow> ('s, 'b) prog" where
  "bindp m f = (\<lambda>s. case m s of Inl e \<Rightarrow> Inl e | Inr (a, s') \<Rightarrow> f a s')"

definition faultp :: "fault \<Rightarrow> ('s, 'a) prog" where
  "faultp e = (\<lambda>s. Inl e)"

definition getp :: "('s \<Rightarrow> 'a) \<Rightarrow> ('s, 'a) prog" where
  "getp f = (\<lambda>s. Inr (f s, s))"

definition modp :: "('s \<Rightarrow> 's) \<Rightarrow> ('s, unit) prog" where
  "modp f = (\<lambda>s. Inr ((), f s))"

text \<open>A call that cannot fault and returns its result with the new state.\<close>

definition callp :: "('s \<Rightarrow> 'a \<times> 's) \<Rightarrow> ('s, 'a) prog" where
  "callp f = (\<lambda>s. Inr (f s))"

text \<open>The macro ASSERT of errdefs.h: \<open>exit(-1)\<close> when the condition is false.\<close>

definition assertp :: "('s \<Rightarrow> bool) \<Rightarrow> ('s, unit) prog" where
  "assertp c = (\<lambda>s. if c s then Inr ((), s) else Inl Exit_Failure)"

text \<open>A program over one component of a larger state.\<close>

definition zoom :: "('t \<Rightarrow> 's) \<Rightarrow> ('s \<Rightarrow> 't \<Rightarrow> 't) \<Rightarrow> ('s, 'a) prog \<Rightarrow> ('t, 'a) prog" where
  "zoom g u m = (\<lambda>t. case m (g t) of Inl e \<Rightarrow> Inl e | Inr (a, s) \<Rightarrow> Inr (a, u s t))"

lemmas prog_defs [prog_simps] =
  ret_def faultp_def getp_def modp_def callp_def assertp_def

lemma bindp_Inl [prog_simps]: "m s = Inl e \<Longrightarrow> bindp m f s = Inl e"
  by (simp add: bindp_def)

lemma bindp_Inr [prog_simps]: "m s = Inr (a, s') \<Longrightarrow> bindp m f s = f a s'"
  by (simp add: bindp_def)

lemma bindp_eq_Inr: "bindp m f s = Inr r \<longleftrightarrow> (\<exists>a s'. m s = Inr (a, s') \<and> f a s' = Inr r)"
  by (auto simp: bindp_def split: sum.splits)

lemma bindp_InrE [elim]:
  assumes "bindp m f s = Inr r"
  obtains a s' where "m s = Inr (a, s')" "f a s' = Inr r"
  using assms by (auto simp: bindp_eq_Inr)

lemma ret_eq_Inr [simp]: "ret a s = Inr (b, s') \<longleftrightarrow> b = a \<and> s' = s"
  by (auto simp: ret_def)

lemma assertp_eq_Inr [simp]: "assertp c s = Inr (u, s') \<longleftrightarrow> c s \<and> s' = s"
  by (auto simp: assertp_def)

lemma bindp_ret [simp]: "bindp (ret a) f = f a"
  by (simp add: bindp_def ret_def)

lemma bindp_assoc: "bindp (bindp m f) g = bindp m (\<lambda>a. bindp (f a) g)"
  by (auto simp: bindp_def fun_eq_iff split: sum.splits)

text \<open>
  \<open>runs m s P\<close>: from \<open>s\<close> the program returns (it does not fault) and its result and
  final state satisfy \<open>P\<close>. \<open>safe m s P\<close>: if it returns, they do.
\<close>

definition runs :: "('s, 'a) prog \<Rightarrow> 's \<Rightarrow> ('a \<Rightarrow> 's \<Rightarrow> bool) \<Rightarrow> bool" where
  "runs m s P = (case m s of Inl e \<Rightarrow> False | Inr (a, s') \<Rightarrow> P a s')"

definition safe :: "('s, 'a) prog \<Rightarrow> 's \<Rightarrow> ('a \<Rightarrow> 's \<Rightarrow> bool) \<Rightarrow> bool" where
  "safe m s P = (case m s of Inl e \<Rightarrow> True | Inr (a, s') \<Rightarrow> P a s')"

named_theorems runs_simps \<open>weakest-precondition rules for \<open>runs\<close>\<close>
named_theorems safe_simps \<open>weakest-precondition rules for \<open>safe\<close>\<close>

lemma runs_bindp [runs_simps]: "runs (bindp m f) s P = runs m s (\<lambda>a s'. runs (f a) s' P)"
  by (auto simp: runs_def bindp_def split: sum.splits)

lemma safe_bindp [safe_simps]: "safe (bindp m f) s P = safe m s (\<lambda>a s'. safe (f a) s' P)"
  by (auto simp: safe_def bindp_def split: sum.splits)

lemma runs_basic [runs_simps]:
  "runs (ret a) s P = P a s"
  "runs (faultp e) s F = False"
  "runs (getp g) s Q = Q (g s) s"
  "runs (modp h) s R = R () (h s)"
  "runs (callp k) s T = (case k s of (a, s') \<Rightarrow> T a s')"
  "runs (assertp c) s R = (c s \<and> R () s)"
  by (auto simp: runs_def prog_defs split: prod.splits)

lemma safe_basic [safe_simps]:
  "safe (ret a) s P = P a s"
  "safe (faultp e) s F = True"
  "safe (getp g) s Q = Q (g s) s"
  "safe (modp h) s R = R () (h s)"
  "safe (callp k) s T = (case k s of (a, s') \<Rightarrow> T a s')"
  "safe (assertp c) s R = (c s \<longrightarrow> R () s)"
  by (auto simp: safe_def prog_defs split: prod.splits)

lemma runs_zoom [runs_simps]: "runs (zoom g u m) t P = runs m (g t) (\<lambda>a s. P a (u s t))"
  by (auto simp: runs_def zoom_def split: sum.splits)

lemma safe_zoom [safe_simps]: "safe (zoom g u m) t P = safe m (g t) (\<lambda>a s. P a (u s t))"
  by (auto simp: safe_def zoom_def split: sum.splits)

lemma runs_if [runs_simps]:
  "runs (if c then m else m') s P = (if c then runs m s P else runs m' s P)"
  by simp

lemma safe_if [safe_simps]:
  "safe (if c then m else m') s P = (if c then safe m s P else safe m' s P)"
  by simp

lemma runs_mono: "runs m s P \<Longrightarrow> (\<And>a s'. P a s' \<Longrightarrow> Q a s') \<Longrightarrow> runs m s Q"
  by (auto simp: runs_def split: sum.splits)

lemma safe_mono: "safe m s P \<Longrightarrow> (\<And>a s'. P a s' \<Longrightarrow> Q a s') \<Longrightarrow> safe m s Q"
  by (auto simp: safe_def split: sum.splits)

lemma runs_safe: "runs m s P \<Longrightarrow> safe m s P"
  by (auto simp: runs_def safe_def split: sum.splits)

lemma runs_Inr: "runs m s P \<longleftrightarrow> (\<exists>a s'. m s = Inr (a, s') \<and> P a s')"
  by (auto simp: runs_def split: sum.splits)

lemma safeD: "safe m s P \<Longrightarrow> m s = Inr (a, s') \<Longrightarrow> P a s'"
  by (simp add: safe_def)

lemma safeI: "(\<And>a s'. m s = Inr (a, s') \<Longrightarrow> P a s') \<Longrightarrow> safe m s P"
  by (auto simp: safe_def split: sum.splits)

text \<open>\<open>fails m s e\<close>: from \<open>s\<close> the program ends in the fault \<open>e\<close>.\<close>

definition fails :: "('s, 'a) prog \<Rightarrow> 's \<Rightarrow> fault \<Rightarrow> bool" where
  "fails m s e \<longleftrightarrow> m s = Inl e"

lemma fails_bindp: "fails (bindp m f) s e \<longleftrightarrow> fails m s e \<or> runs m s (\<lambda>a s'. fails (f a) s' e)"
  by (auto simp: fails_def runs_def bindp_def split: sum.splits)

lemma fails_after: "runs m s (\<lambda>a s'. fails (f a) s' e) \<Longrightarrow> fails (bindp m f) s e"
  by (simp add: fails_bindp)

text \<open>
  \<open>keeps I m\<close>: wherever \<open>I\<close> holds and \<open>m\<close> returns, \<open>I\<close> holds after it. Its rules follow the structure
  of the program, so that an invariant of many operations needs a proof for the primitive ones.
\<close>

definition keeps :: "('s \<Rightarrow> bool) \<Rightarrow> ('s, 'a) prog \<Rightarrow> bool" where
  "keeps I m \<longleftrightarrow> (\<forall>s. I s \<longrightarrow> safe m s (\<lambda>_. I))"

named_theorems keeps_rules \<open>introduction rules for \<open>keeps\<close>\<close>

lemma keepsD: "keeps I m \<Longrightarrow> I s \<Longrightarrow> safe m s (\<lambda>_. I)"
  by (simp add: keeps_def)

lemma keepsI: "(\<And>s. I s \<Longrightarrow> safe m s (\<lambda>_. I)) \<Longrightarrow> keeps I m"
  by (simp add: keeps_def)

lemma keeps_bindp [keeps_rules]: "keeps I m \<Longrightarrow> (\<And>a. keeps I (f a)) \<Longrightarrow> keeps I (bindp m f)"
  unfolding keeps_def safe_bindp by (blast intro: safe_mono)

lemma keeps_basic [keeps_rules]:
  "keeps I (ret a)" "keeps I (faultp e)" "keeps I (getp g)"
  "(\<And>s. I s \<Longrightarrow> I (h s)) \<Longrightarrow> keeps I (modp h)" "keeps I (assertp c)"
  by (simp_all add: keeps_def safe_basic)

lemma keeps_if [keeps_rules]: "keeps I m \<Longrightarrow> keeps I m' \<Longrightarrow> keeps I (if c then m else m')"
  by simp

lemma keeps_let [keeps_rules]: "keeps I (f a) \<Longrightarrow> keeps I (let x = a in f x)"
  by simp

lemma keeps_case [keeps_rules]:
  "keeps I m \<Longrightarrow> (\<And>a. keeps I (f a)) \<Longrightarrow> keeps I (case x of None \<Rightarrow> m | Some a \<Rightarrow> f a)"
  "(\<And>a. keeps I (g a)) \<Longrightarrow> (\<And>b. keeps I (h b)) \<Longrightarrow> keeps I (case y of Inl a \<Rightarrow> g a | Inr b \<Rightarrow> h b)"
  "(\<And>a b. keeps I (k a b)) \<Longrightarrow> keeps I (case z of (a, b) \<Rightarrow> k a b)"
  "keeps I m' \<Longrightarrow> (\<And>c cs. keeps I (l c cs)) \<Longrightarrow> keeps I (case zs of [] \<Rightarrow> m' | c # cs \<Rightarrow> l c cs)"
  by (simp_all split: option.split sum.split prod.split list.split)

lemma keeps_zoom:
  assumes "keeps J m" "\<And>t. I t \<Longrightarrow> J (g t)" "\<And>t s. I t \<Longrightarrow> J s \<Longrightarrow> I (u s t)"
  shows "keeps I (zoom g u m)"
  using assms unfolding keeps_def safe_zoom by (blast intro: safe_mono)

text \<open>A program run \<open>n\<close> times, with the list of its results.\<close>

fun times_prog :: "nat \<Rightarrow> ('s, 'a) prog \<Rightarrow> ('s, 'a list) prog" where
  "times_prog 0 m = ret []"
| "times_prog (Suc n) m = bindp m (\<lambda>a. bindp (times_prog n m) (\<lambda>as. ret (a # as)))"

lemma runs_times:
  assumes "\<And>s. I s \<Longrightarrow> runs m s (\<lambda>a s'. Q a \<and> I s')" "I s"
  shows "runs (times_prog n m) s (\<lambda>as s'. (\<forall>a \<in> set as. Q a) \<and> I s')"
  using assms(2)
proof (induction n arbitrary: s)
  case (Suc n)
  show ?case
    unfolding times_prog.simps runs_bindp
    by (rule runs_mono [OF assms(1) [OF Suc.prems]])
      (auto simp: runs_basic intro: runs_mono [OF Suc.IH])
qed (simp add: runs_basic)

section \<open>Arrays\<close>

text \<open>Reading and writing \<open>a[i]\<close>: outside the allocated cells it is undefined.\<close>

definition arr_get :: "'a list \<Rightarrow> int \<Rightarrow> fault + 'a" where
  "arr_get xs i = (if 0 \<le> i \<and> i < int (length xs) then Inr (xs ! nat i) else Inl Out_Of_Bounds)"

definition arr_set :: "'a list \<Rightarrow> int \<Rightarrow> 'a \<Rightarrow> fault + 'a list" where
  "arr_set xs i x =
     (if 0 \<le> i \<and> i < int (length xs) then Inr (xs[nat i := x]) else Inl Out_Of_Bounds)"

text \<open>\<open>memmove(&a[dst], &a[src], n elements)\<close> inside one array.\<close>

definition arr_move :: "'a list \<Rightarrow> int \<Rightarrow> int \<Rightarrow> int \<Rightarrow> fault + 'a list" where
  "arr_move xs dst src n =
     (if 0 \<le> dst \<and> 0 \<le> src \<and> 0 \<le> n \<and> src + n \<le> int (length xs) \<and> dst + n \<le> int (length xs)
      then Inr (take (nat dst) xs @ take (nat n) (drop (nat src) xs) @ drop (nat (dst + n)) xs)
      else Inl Out_Of_Bounds)"

definition liftp :: "fault + 'a \<Rightarrow> ('s, 'a) prog" where
  "liftp r = (\<lambda>s. case r of Inl e \<Rightarrow> Inl e | Inr a \<Rightarrow> Inr (a, s))"

lemma liftp_simps [simp]:
  "liftp (Inr a) s = Inr (a, s)"
  "liftp (Inl e) s = Inl e"
  by (simp_all add: liftp_def)

lemma runs_liftp [runs_simps]: "runs (liftp r) s P = (case r of Inl e \<Rightarrow> False | Inr a \<Rightarrow> P a s)"
  by (auto simp: runs_def liftp_def split: sum.splits)

lemma safe_liftp [safe_simps]: "safe (liftp r) s P = (case r of Inl e \<Rightarrow> True | Inr a \<Rightarrow> P a s)"
  by (auto simp: safe_def liftp_def split: sum.splits)

section \<open>C's conversions\<close>

text \<open>An \<open>int\<close> (or \<open>long long\<close>) stored into a \<open>short\<close> or an \<open>int\<close> keeps its low bits.\<close>

definition to_short :: "int \<Rightarrow> int" where
  "to_short n = (n + 2 ^ 15) mod 2 ^ 16 - 2 ^ 15"

definition to_int :: "int \<Rightarrow> int" where
  "to_int n = (n + 2 ^ 31) mod 2 ^ 32 - 2 ^ 31"

lemma to_short_range: "- (2 ^ 15) \<le> to_short n" "to_short n < 2 ^ 15"
  by (simp_all add: to_short_def)

lemma to_int_range: "- (2 ^ 31) \<le> to_int n" "to_int n < 2 ^ 31"
  by (simp_all add: to_int_def)

lemma to_short_id: "- (2 ^ 15) \<le> n \<Longrightarrow> n < 2 ^ 15 \<Longrightarrow> to_short n = n"
  by (simp add: to_short_def)

lemma to_int_id: "- (2 ^ 31) \<le> n \<Longrightarrow> n < 2 ^ 31 \<Longrightarrow> to_int n = n"
  by (simp add: to_int_def)

lemma to_short_iff: "to_short n = n \<longleftrightarrow> - (2 ^ 15) \<le> n \<and> n < 2 ^ 15"
  using to_short_range [of n] to_short_id [of n] by auto

lemma to_short_idem [simp]: "to_short (to_short n) = to_short n"
  using to_short_range [of n] by (simp add: to_short_id)

text \<open>The 16 and 32 bits of a signed value, and back.\<close>

definition short_bits :: "int \<Rightarrow> 16 word" where
  "short_bits n = word_of_int n"

definition bits_short :: "16 word \<Rightarrow> int" where
  "bits_short w = to_short (uint w)"

definition int_bits :: "int \<Rightarrow> 32 word" where
  "int_bits n = word_of_int n"

definition bits_int :: "32 word \<Rightarrow> int" where
  "bits_int w = to_int (uint w)"

lemma bits_short_short_bits [simp]: "bits_short (short_bits n) = to_short n"
proof -
  have "uint (word_of_int n :: 16 word) = n mod 2 ^ 16"
    by (simp add: uint_word_of_int)
  then show ?thesis
    by (simp add: bits_short_def short_bits_def to_short_def mod_add_left_eq)
qed

lemma bits_int_int_bits [simp]: "bits_int (int_bits n) = to_int n"
proof -
  have "uint (word_of_int n :: 32 word) = n mod 2 ^ 32"
    by (simp add: uint_word_of_int)
  then show ?thesis
    by (simp add: bits_int_def int_bits_def to_int_def mod_add_left_eq)
qed

end
