(* ===== verification/Sbus_Bytes.thy ===== *)
theory Sbus_Bytes
  imports Sbus_Prelude
begin

text \<open>
  Bytes and text: the little-endian layout of integers in the memory of the host (the model
  is of a little-endian machine, as x86 and most ARM systems are), the byte-order functions
  \<open>htons\<close>, \<open>htonl\<close> and their inverses, and decimal numbers as \<open>sprintf\<close> prints them and
  \<open>strtoul\<close> reads them.
\<close>

section \<open>Integers in memory\<close>

primrec le_bytes :: "nat \<Rightarrow> nat \<Rightarrow> string" where
  "le_bytes 0 n = []"
| "le_bytes (Suc k) n = char_of n # le_bytes k (n div 256)"

primrec le_val :: "string \<Rightarrow> nat" where
  "le_val [] = 0"
| "le_val (c # cs) = of_char c + 256 * le_val cs"

lemma length_le_bytes [simp]: "length (le_bytes k n) = k"
  by (induction k arbitrary: n) auto

lemma le_val_less: "le_val cs < 256 ^ length cs"
proof (induction cs)
  case (Cons c cs)
  have "of_char c + 256 * le_val cs < 256 + 256 * le_val cs"
    by simp
  also have "\<dots> = 256 * Suc (le_val cs)"
    by simp
  also have "\<dots> \<le> 256 * 256 ^ length cs"
    using Cons by (intro mult_le_mono2) simp
  finally show ?case
    by simp
qed simp

lemma le_val_le_bytes [simp]: "le_val (le_bytes k n) = n mod 256 ^ k"
proof (induction k arbitrary: n)
  case (Suc k)
  have "n mod (256 * 256 ^ k) = 256 * (n div 256 mod 256 ^ k) + n mod 256"
    by (rule mod_mult2_eq)
  then show ?case
    using Suc by simp
qed simp

lemma le_bytes_le_val: "length cs = k \<Longrightarrow> le_bytes k (le_val cs) = cs"
proof (induction cs arbitrary: k)
  case (Cons c cs)
  then show ?case
    by (cases k) (auto simp: char_of_eq_iff take_bit_eq_mod)
qed simp

section \<open>Byte order\<close>

definition htons :: "16 word \<Rightarrow> 16 word" where
  "htons w = of_nat (le_val (rev (le_bytes 2 (unat w))))"

definition htonl :: "32 word \<Rightarrow> 32 word" where
  "htonl w = of_nat (le_val (rev (le_bytes 4 (unat w))))"

definition ntohs :: "16 word \<Rightarrow> 16 word" where
  "ntohs w = htons w"

definition ntohl :: "32 word \<Rightarrow> 32 word" where
  "ntohl w = htonl w"

definition mem16 :: "16 word \<Rightarrow> string" where
  "mem16 w = le_bytes 2 (unat w)"

definition mem32 :: "32 word \<Rightarrow> string" where
  "mem32 w = le_bytes 4 (unat w)"

definition val16 :: "string \<Rightarrow> 16 word" where
  "val16 cs = of_nat (le_val cs)"

definition val32 :: "string \<Rightarrow> 32 word" where
  "val32 cs = of_nat (le_val cs)"

lemma length_mem [simp]: "length (mem16 w) = 2" "length (mem32 v) = 4"
  by (simp_all add: mem16_def mem32_def)

lemma unat_mod_256 [simp]:
  "unat (w :: 16 word) mod 65536 = unat w"
  "unat (v :: 32 word) mod 4294967296 = unat v"
proof -
  have "unat w < 2 ^ LENGTH(16)" "unat v < 2 ^ LENGTH(32)"
    by (rule unsigned_less)+
  then show "unat w mod 65536 = unat w" "unat v mod 4294967296 = unat v"
    by simp_all
qed

lemma val_mem [simp]: "val16 (mem16 w) = w" "val32 (mem32 v) = v"
  by (simp_all add: val16_def mem16_def val32_def mem32_def del: le_bytes.simps)

lemma mem_val: "length cs = 2 \<Longrightarrow> mem16 (val16 cs) = cs" "length cs = 4 \<Longrightarrow> mem32 (val32 cs) = cs"
  using le_val_less [of cs]
  by (simp_all add: val16_def mem16_def val32_def mem32_def unat_of_nat le_bytes_le_val)

text \<open>Byte order swaps the bytes in memory, so what it stores is the big-endian encoding.\<close>

lemma mem_hton: "mem16 (htons w) = rev (mem16 w)" "mem32 (htonl v) = rev (mem32 v)"
  using mem_val(1) [of "rev (mem16 w)"] mem_val(2) [of "rev (mem32 v)"]
  by (simp_all add: htons_def htonl_def val16_def val32_def mem16_def mem32_def
      del: le_bytes.simps)

lemma htons_val: "htons w = val16 (rev (mem16 w))" "htonl v = val32 (rev (mem32 v))"
  by (simp_all add: htons_def htonl_def val16_def val32_def mem16_def mem32_def)

lemma ntoh_hton [simp]: "ntohs (htons w) = w" "ntohl (htonl v) = v"
proof -
  have "htons (htons w) = val16 (rev (rev (mem16 w)))"
    by (simp only: htons_val(1) [of "htons w"] mem_hton(1))
  then show "ntohs (htons w) = w"
    by (simp add: ntohs_def)
  have "htonl (htonl v) = val32 (rev (rev (mem32 v)))"
    by (simp only: htons_val(2) [of "htonl v"] mem_hton(2))
  then show "ntohl (htonl v) = v"
    by (simp add: ntohl_def)
qed

lemma hton_ntoh [simp]: "htons (ntohs w) = w" "htonl (ntohl v) = v"
  using ntoh_hton(1) [of w] ntoh_hton(2) [of v] by (simp_all add: ntohs_def ntohl_def)

lemma htonl_eq_iff [simp]: "htonl v = htonl v' \<longleftrightarrow> v = v'" "htons w = htons w' \<longleftrightarrow> w = w'"
  by (auto dest: arg_cong [where f = ntohl] arg_cong [where f = ntohs])

lemma le_bytes_0: "le_bytes k 0 = replicate k (char_of (0 :: nat))"
  by (induction k) simp_all

lemma le_val_zeros [simp]: "le_val (replicate k (char_of (0 :: nat))) = 0"
  by (induction k) simp_all

lemma ntoh_0 [simp]: "htons 0 = 0" "htonl 0 = 0" "ntohs 0 = 0" "ntohl 0 = 0"
  by (simp_all add: htons_def htonl_def ntohs_def ntohl_def le_bytes_0 del: le_bytes.simps)

lemma htonl_eq_0 [simp]: "htonl v = 0 \<longleftrightarrow> v = 0"
  using htonl_eq_iff(1) [of v 0] by (simp del: htonl_eq_iff)

section \<open>Decimal numbers\<close>

definition digit_char :: "nat \<Rightarrow> char" where
  "digit_char d = char_of (48 + d)"

definition is_digit :: "char \<Rightarrow> bool" where
  "is_digit c \<longleftrightarrow> 48 \<le> (of_char c :: nat) \<and> (of_char c :: nat) \<le> 57"

definition digit_val :: "char \<Rightarrow> nat" where
  "digit_val c = of_char c - 48"

text \<open>The conversion \<open>%u\<close> (and \<open>%d\<close> of a value that is not negative).\<close>

fun show_dec :: "nat \<Rightarrow> string" where
  "show_dec n = (if n < 10 then [digit_char n] else show_dec (n div 10) @ [digit_char (n mod 10)])"

declare show_dec.simps [simp del]

text \<open>The conversion \<open>%d\<close>.\<close>

definition show_int :: "int \<Rightarrow> string" where
  "show_int n = (if n < 0 then CHR ''-'' # show_dec (nat (- n)) else show_dec (nat n))"

text \<open>Digits read from the front of a text, with the value they add to.\<close>

fun read_digits :: "nat \<Rightarrow> string \<Rightarrow> nat \<times> string" where
  "read_digits v [] = (v, [])"
| "read_digits v (c # cs) =
     (if is_digit c then read_digits (10 * v + digit_val c) cs else (v, c # cs))"

lemma digit_char_digit [simp]: "d < 10 \<Longrightarrow> is_digit (digit_char d)" "d < 10 \<Longrightarrow> digit_val (digit_char d) = d"
  by (simp_all add: is_digit_def digit_char_def digit_val_def)

lemma show_dec_Nil [simp]: "show_dec n \<noteq> []"
  by (subst show_dec.simps) simp

lemma show_dec_digits: "c \<in> set (show_dec n) \<Longrightarrow> is_digit c"
proof (induction n rule: show_dec.induct)
  case (1 n)
  then show ?case
    by (cases "n < 10") (auto simp: show_dec.simps [of n])
qed

lemma read_digits_append:
  "(\<And>c. c \<in> set ds \<Longrightarrow> is_digit c) \<Longrightarrow>
   read_digits v (ds @ r) = read_digits (fst (read_digits v ds)) r"
  by (induction ds arbitrary: v) auto

lemma read_digits_show_dec:
  "fst (read_digits v (show_dec n)) = 10 ^ length (show_dec n) * v + n"
proof (induction n arbitrary: v rule: show_dec.induct)
  case (1 n)
  show ?case
  proof (cases "n < 10")
    case True
    then show ?thesis
      by (simp add: show_dec.simps [of n])
  next
    case False
    have "fst (read_digits v (show_dec (n div 10))) = 10 ^ length (show_dec (n div 10)) * v + n div 10"
      using "1.IH" False by simp
    then show ?thesis
      using False by (simp add: show_dec.simps [of n] read_digits_append show_dec_digits algebra_simps)
  qed
qed

lemma read_show_dec: "read_digits 0 (show_dec n) = (n, [])"
  and read_show_dec_rest: "r \<noteq> [] \<Longrightarrow> \<not> is_digit (hd r) \<Longrightarrow> read_digits 0 (show_dec n @ r) = (n, r)"
proof -
  have "snd (read_digits v ds) = []" if "\<And>c. c \<in> set ds \<Longrightarrow> is_digit c" for v ds
    using that by (induction ds arbitrary: v) auto
  then have "snd (read_digits 0 (show_dec n)) = []"
    using show_dec_digits by blast
  moreover have "fst (read_digits 0 (show_dec n)) = n"
    by (simp add: read_digits_show_dec)
  ultimately show "read_digits 0 (show_dec n) = (n, [])"
    by (simp add: prod_eq_iff)
  then have "read_digits 0 (show_dec n @ r) = read_digits n r"
    by (simp add: read_digits_append show_dec_digits)
  then show "read_digits 0 (show_dec n @ r) = (n, r)" if "r \<noteq> []" "\<not> is_digit (hd r)"
    using that by (cases r) simp_all
qed

lemma show_int_no_NUL [simp]: "CHR 0x00 \<notin> set (show_int n)"
proof -
  have "CHR 0x00 \<notin> set (show_dec k)" for k
    using show_dec_digits [of "CHR 0x00" k] by (auto simp: is_digit_def)
  then show ?thesis
    by (simp add: show_int_def)
qed

lemma show_dec_inj: "show_dec m = show_dec n \<Longrightarrow> m = n"
  by (metis fst_conv read_show_dec)

lemma length_show_dec: "n < 10 ^ k \<Longrightarrow> 0 < k \<Longrightarrow> length (show_dec n) \<le> k"
proof (induction n arbitrary: k rule: show_dec.induct)
  case (1 n)
  show ?case
  proof (cases "n < 10")
    case True
    then show ?thesis
      using "1.prems" by (simp add: show_dec.simps [of n])
  next
    case False
    then obtain j where j: "k = Suc j" "0 < j"
      using "1.prems" by (cases k; cases "k - 1") auto
    then have "n div 10 < 10 ^ j"
      using "1.prems" by (simp add: div_less_iff_less_mult mult.commute)
    then have "length (show_dec (n div 10)) \<le> j"
      using "1.IH" False j by simp
    then show ?thesis
      using False j by (simp add: show_dec.simps [of n])
  qed
qed

text \<open>A decimal number starts with the digit 0 only when it is 0.\<close>

lemma hd_show_dec: "hd (show_dec n) = CHR ''0'' \<longleftrightarrow> n = 0"
proof (induction n rule: show_dec.induct)
  case (1 n)
  have zero: "digit_char 0 = CHR ''0''"
    by code_simp
  have "digit_char n = CHR ''0'' \<longleftrightarrow> n = 0" if "n < 10"
    using digit_char_digit(2) [OF that] digit_char_digit(2) [of 0] zero by auto
  then show ?case
    using "1" by (cases "n < 10") (simp_all add: show_dec.simps [of n])
qed

end
