(* ===== verification/Sbus_Posix.thy ===== *)
theory Sbus_Posix
  imports Sbus_Bytes
begin

text \<open>
  The operating system as the code sees it. Its calls are not code of the repository: they
  are the fields of a record \<open>'w posix\<close>, a parameter of every definition that makes a call,
  over a type \<open>'w\<close> of states of the system the model knows nothing about. A theorem that has
  no hypothesis on this record holds for every answer the system may give.

  The thin definitions at the end of the theory fix what the kernel's interface guarantees by
  its types: \<open>recvfrom\<close> never stores more bytes than the buffer holds, \<open>poll\<close> writes nothing
  but the \<open>revents\<close> fields of the array it was given, \<open>SIOCGIFCONF\<close> fills at most the array
  it was given.
\<close>

section \<open>Structures and constants\<close>

record sockaddr_in =
  sin_family :: int
  sin_port :: "16 word"
  sin_addr :: "32 word"

definition zero_sockaddr :: sockaddr_in where
  "zero_sockaddr = \<lparr>sin_family = 0, sin_port = 0, sin_addr = 0\<rparr>"

record pollfd =
  pf_fd :: int
  pf_events :: "16 word"
  pf_revents :: "16 word"

definition zero_pollfd :: pollfd where
  "zero_pollfd = \<lparr>pf_fd = 0, pf_events = 0, pf_revents = 0\<rparr>"

abbreviation (input) AF_INET :: int where "AF_INET \<equiv> 2"

abbreviation (input) POLLIN :: "16 word" where "POLLIN \<equiv> 1"
abbreviation (input) POLLOUT :: "16 word" where "POLLOUT \<equiv> 4"
abbreviation (input) POLLERR :: "16 word" where "POLLERR \<equiv> 8"
abbreviation (input) POLLHUP :: "16 word" where "POLLHUP \<equiv> 16"
abbreviation (input) POLLNVAL :: "16 word" where "POLLNVAL \<equiv> 32"

abbreviation (input) EINTR :: int where "EINTR \<equiv> 4"
abbreviation (input) EAGAIN :: int where "EAGAIN \<equiv> 11"

text \<open>C's test \<open>flags & mask\<close>.\<close>

definition has_flag :: "16 word \<Rightarrow> 16 word \<Rightarrow> bool" where
  "has_flag w m \<longleftrightarrow> and w m \<noteq> 0"

datatype sock_type = SOCK_STREAM | SOCK_DGRAM

datatype sock_opt =
    SO_REUSEADDR
  | SO_BROADCAST
  | IP_ADD_MEMBERSHIP "32 word" "32 word"
  | IP_DROP_MEMBERSHIP "32 word" "32 word"
  | IP_MULTICAST_IF "32 word"
  | IP_MULTICAST_TTL nat
  | IP_MULTICAST_LOOP nat

datatype if_request = SIOCGIFADDR | SIOCGIFNETMASK | SIOCGIFBRDADDR

text \<open>An answer of \<open>recvfrom\<close>: an error number, or the bytes and perhaps a sender address.\<close>

datatype recv_result = Recv_Error int | Recv_Data string "sockaddr_in option"

section \<open>The system calls\<close>

record 'w posix =
  px_socket :: "sock_type \<Rightarrow> 'w \<Rightarrow> int \<times> 'w"
  px_setsockopt :: "int \<Rightarrow> sock_opt \<Rightarrow> 'w \<Rightarrow> int \<times> 'w"
  px_soerror :: "int \<Rightarrow> 'w \<Rightarrow> (int \<times> int) \<times> 'w"
  px_bind :: "int \<Rightarrow> sockaddr_in \<Rightarrow> 'w \<Rightarrow> int \<times> 'w"
  px_connect :: "int \<Rightarrow> sockaddr_in \<Rightarrow> 'w \<Rightarrow> int \<times> 'w"
  px_listen :: "int \<Rightarrow> int \<Rightarrow> 'w \<Rightarrow> int \<times> 'w"
  px_accept :: "int \<Rightarrow> 'w \<Rightarrow> int \<times> 'w"
  px_close :: "int \<Rightarrow> 'w \<Rightarrow> int \<times> 'w"
  px_getsockname :: "int \<Rightarrow> 'w \<Rightarrow> (int \<times> sockaddr_in) \<times> 'w"
  px_getpeername :: "int \<Rightarrow> 'w \<Rightarrow> (int \<times> sockaddr_in) \<times> 'w"
  px_getfl :: "int \<Rightarrow> 'w \<Rightarrow> int \<times> 'w"
  px_setfl :: "int \<Rightarrow> 32 word \<Rightarrow> 'w \<Rightarrow> int \<times> 'w"
  px_poll :: "(int \<times> 16 word) list \<Rightarrow> int \<Rightarrow> 'w \<Rightarrow> (int \<times> 16 word list) \<times> 'w"
  px_recvfrom :: "int \<Rightarrow> nat \<Rightarrow> bool \<Rightarrow> 'w \<Rightarrow> recv_result \<times> 'w"
  px_sendto :: "int \<Rightarrow> string \<Rightarrow> sockaddr_in \<Rightarrow> 'w \<Rightarrow> int \<times> 'w"
  px_send :: "int \<Rightarrow> string \<Rightarrow> 'w \<Rightarrow> int \<times> 'w"
  px_gethostbyname :: "string \<Rightarrow> 'w \<Rightarrow> 32 word option \<times> 'w"
  px_ifreq :: "if_request \<Rightarrow> int \<Rightarrow> string \<Rightarrow> 'w \<Rightarrow> (int \<times> 32 word) \<times> 'w"
  px_ifhwaddr :: "int \<Rightarrow> string \<Rightarrow> 'w \<Rightarrow> (int \<times> string) \<times> 'w"
  px_ifconf :: "int \<Rightarrow> 'w \<Rightarrow> (int \<times> (string \<times> 32 word) list) \<times> 'w"
  px_gettimeofday :: "'w \<Rightarrow> (int \<times> int) option \<times> 'w"
  px_usleep :: "int \<Rightarrow> 'w \<Rightarrow> 'w"
  px_errno :: "'w \<Rightarrow> int"
  px_set_errno :: "int \<Rightarrow> 'w \<Rightarrow> 'w"
  px_realloc :: "int \<Rightarrow> bool"

section \<open>The calls as the code makes them\<close>

text \<open>\<open>poll\<close> stores the reported events in the array; on an error it leaves it alone.\<close>

fun set_revents :: "pollfd list \<Rightarrow> 16 word list \<Rightarrow> pollfd list" where
  "set_revents [] rs = []"
| "set_revents (p # ps) [] = p\<lparr>pf_revents := 0\<rparr> # set_revents ps []"
| "set_revents (p # ps) (r # rs) = p\<lparr>pf_revents := r\<rparr> # set_revents ps rs"

definition sys_poll :: "'w posix \<Rightarrow> pollfd list \<Rightarrow> int \<Rightarrow> 'w \<Rightarrow> (int \<times> pollfd list) \<times> 'w" where
  "sys_poll P ps timeout w =
     (case px_poll P (map (\<lambda>p. (pf_fd p, pf_events p)) ps) timeout w of
        ((res, rs), w') \<Rightarrow> ((res, if res < 0 then ps else set_revents ps rs), w'))"

text \<open>The same for one descriptor: the result and the reported events.\<close>

definition sys_poll1 :: "'w posix \<Rightarrow> int \<Rightarrow> 16 word \<Rightarrow> int \<Rightarrow> 'w \<Rightarrow> (int \<times> 16 word) \<times> 'w" where
  "sys_poll1 P fd ev timeout w =
     (case px_poll P [(fd, ev)] timeout w of
        ((res, rs), w') \<Rightarrow> ((res, case rs of [] \<Rightarrow> 0 | r # _ \<Rightarrow> r), w'))"

definition sys_recvfrom :: "'w posix \<Rightarrow> int \<Rightarrow> nat \<Rightarrow> bool \<Rightarrow> 'w \<Rightarrow> recv_result \<times> 'w" where
  "sys_recvfrom P fd n peek w =
     (case px_recvfrom P fd n peek w of
        (Recv_Error e, w') \<Rightarrow> (Recv_Error e, w')
      | (Recv_Data bs a, w') \<Rightarrow> (Recv_Data (take n bs) a, w'))"

lemma length_set_revents [simp]: "length (set_revents ps rs) = length ps"
  by (induction ps rs rule: set_revents.induct) auto

lemma set_revents_fields [simp]:
  "map pf_fd (set_revents ps rs) = map pf_fd ps"
  "map pf_events (set_revents ps rs) = map pf_events ps"
  by (induction ps rs rule: set_revents.induct) auto

lemma nth_set_revents:
  assumes "i < length ps"
  shows "pf_fd (set_revents ps rs ! i) = pf_fd (ps ! i)"
    and "pf_events (set_revents ps rs ! i) = pf_events (ps ! i)"
  using assms by (metis length_set_revents nth_map set_revents_fields(1),
      metis length_set_revents nth_map set_revents_fields(2))

lemma sys_recvfrom_bound:
  "sys_recvfrom P fd n peek w = (Recv_Data bs a, w') \<Longrightarrow> length bs \<le> n"
  by (auto simp: sys_recvfrom_def split: prod.splits recv_result.splits)

end
