(* ===== verification/Sockaddr.thy ===== *)
theory Sockaddr
  imports Sbus_Posix
begin

text \<open>
  sockaddr.c: IPv4 addresses as text and as socket addresses, and what the network interfaces
  say about themselves. \<open>int\<close> values that hold an address are 32 bit words. The functions
  \<open>inet_ntoa\<close> and \<open>inet_aton\<close> of the C library are written out, the latter with all the forms
  it accepts: one to four parts, each decimal, octal or hexadecimal as in C, a last part that
  fills the remaining bytes, and white space after it.
\<close>

section \<open>The C library's address functions\<close>

definition dotted :: "nat \<Rightarrow> nat \<Rightarrow> nat \<Rightarrow> nat \<Rightarrow> string" where
  "dotted a b c d = show_dec a @ CHR ''.'' # show_dec b @ CHR ''.'' # show_dec c @ CHR ''.'' # show_dec d"

fun inet_ntoa_bytes :: "string \<Rightarrow> string" where
  "inet_ntoa_bytes [b0, b1, b2, b3] = dotted (of_char b0) (of_char b1) (of_char b2) (of_char b3)"
| "inet_ntoa_bytes _ = []"

definition inet_ntoa :: "32 word \<Rightarrow> string" where
  "inet_ntoa s_addr = inet_ntoa_bytes (mem32 s_addr)"

definition is_octal :: "char \<Rightarrow> bool" where
  "is_octal c \<longleftrightarrow> is_digit c \<and> digit_val c < 8"

definition hex_val :: "char \<Rightarrow> nat option" where
  "hex_val c =
     (let n = (of_char c :: nat) in
      if is_digit c then Some (digit_val c)
      else if 97 \<le> n \<and> n \<le> 102 then Some (n - 87)
      else if 65 \<le> n \<and> n \<le> 70 then Some (n - 55)
      else None)"

fun read_octal :: "nat \<Rightarrow> string \<Rightarrow> nat \<times> string" where
  "read_octal v [] = (v, [])"
| "read_octal v (c # cs) =
     (if is_octal c then read_octal (8 * v + digit_val c) cs else (v, c # cs))"

fun read_hex :: "nat \<Rightarrow> string \<Rightarrow> nat \<times> string" where
  "read_hex v [] = (v, [])"
| "read_hex v (c # cs) =
     (case hex_val c of Some d \<Rightarrow> read_hex (16 * v + d) cs | None \<Rightarrow> (v, c # cs))"

text \<open>\<open>strtoul(s, &end, 0)\<close> where \<open>s\<close> starts with a digit: the value and the rest.\<close>

fun strtoul0 :: "string \<Rightarrow> nat \<times> string" where
  "strtoul0 (c # x # h # r) =
     (if c = CHR ''0'' \<and> (x = CHR ''x'' \<or> x = CHR ''X'') \<and> hex_val h \<noteq> None
      then read_hex 0 (h # r)
      else if c = CHR ''0'' then read_octal 0 (c # x # h # r)
      else read_digits 0 (c # x # h # r))"
| "strtoul0 s = (if s \<noteq> [] \<and> hd s = CHR ''0'' then read_octal 0 s else read_digits 0 s)"

text \<open>The parts of an address; the first argument is the number of dots still allowed.\<close>

fun aton_parts :: "nat \<Rightarrow> string \<Rightarrow> (nat list \<times> nat \<times> string) option" where
  "aton_parts k s =
     (if s = [] \<or> \<not> is_digit (hd s) then None
      else case strtoul0 s of (v, r) \<Rightarrow>
        if 2 ^ 32 \<le> v then None
        else if r \<noteq> [] \<and> hd r = CHR ''.'' then
          (case k of 0 \<Rightarrow> None
           | Suc j \<Rightarrow> if 255 < v then None
              else map_option (\<lambda>(vs, l, r'). (v # vs, l, r')) (aton_parts j (tl r)))
        else Some ([], v, r))"

declare aton_parts.simps [simp del]

definition is_space :: "char \<Rightarrow> bool" where
  "is_space c \<longleftrightarrow> c = CHR '' '' \<or> (9 \<le> (of_char c :: nat) \<and> (of_char c :: nat) \<le> 13)"

text \<open>The value of the leading parts, one byte each from the top, plus the last part.\<close>

fun parts_val :: "nat \<Rightarrow> nat list \<Rightarrow> nat" where
  "parts_val k [] = 0"
| "parts_val k (v # vs) = v * 256 ^ (k - 1) + parts_val (k - 1) vs"

definition inet_aton :: "string \<Rightarrow> 32 word option" where
  "inet_aton s =
     (case aton_parts 3 s of
        None \<Rightarrow> None
      | Some (vs, l, r) \<Rightarrow>
          if r \<noteq> [] \<and> \<not> is_space (hd r) then None
          else if 256 ^ (4 - length vs) \<le> l then None
          else Some (htonl (of_nat (parts_val 4 vs + l))))"

section \<open>sockaddr.c: addresses\<close>

text \<open>\<open>sockaddr_getIPSTR\<close>, the text it stores.\<close>

definition sockaddr_getIPSTR :: "sockaddr_in \<Rightarrow> string" where
  "sockaddr_getIPSTR addr =
     (let astr = inet_ntoa (sin_addr addr) in
      if sin_family addr \<noteq> AF_INET then ''Not AF_INET!'' else astr)"

text \<open>\<open>sockaddr_int2ip\<close> reads the bytes of the \<open>int\<close> in memory from the last to the first.\<close>

fun int2ip_bytes :: "string \<Rightarrow> string" where
  "int2ip_bytes [p0, p1, p2, p3] = dotted (of_char p3) (of_char p2) (of_char p1) (of_char p0)"
| "int2ip_bytes _ = []"

definition sockaddr_int2ip :: "32 word \<Rightarrow> string" where
  "sockaddr_int2ip ip = int2ip_bytes (mem32 ip)"

definition sockaddr_getPort :: "sockaddr_in \<Rightarrow> int" where
  "sockaddr_getPort addr = uint (ntohs (sin_port addr))"

definition sockaddr_getIP :: "sockaddr_in \<Rightarrow> 32 word" where
  "sockaddr_getIP addr = ntohl (sin_addr addr)"

text \<open>\<open>sockaddr_set\<close>: the result and the structure it leaves.\<close>

definition sockaddr_set :: "string \<Rightarrow> int \<Rightarrow> int \<times> sockaddr_in" where
  "sockaddr_set ip port =
     (let addr = zero_sockaddr\<lparr>sin_family := AF_INET\<rparr> in
      case inet_aton ip of
        None \<Rightarrow> (-1, addr)
      | Some a \<Rightarrow> (0, addr\<lparr>sin_addr := a, sin_port := htons (word_of_int port)\<rparr>))"

section \<open>sockaddr.c: interfaces\<close>

text \<open>The field \<open>ifr_name\<close> holds 16 bytes and \<open>strcpy\<close> checks nothing.\<close>

abbreviation (input) IFNAMSIZ :: nat where "IFNAMSIZ \<equiv> 16"
abbreviation (input) MAX_EXPECTED_INTERFACES :: nat where "MAX_EXPECTED_INTERFACES \<equiv> 64"
abbreviation (input) MAC_ADDR_LENGTH :: nat where "MAC_ADDR_LENGTH \<equiv> 6"

definition strcpy_ifname :: "string \<Rightarrow> ('w, unit) prog" where
  "strcpy_ifname device =
     (if length device < IFNAMSIZ then ret () else faultp Out_Of_Bounds)"

text \<open>\<open>sockaddr_getMAC\<close>: the result and the bytes it stores. It never closes its socket.\<close>

definition sockaddr_getMAC :: "'w posix \<Rightarrow> string \<Rightarrow> ('w, int \<times> string) prog" where
  "sockaddr_getMAC P device =
     bindp (callp (px_socket P SOCK_DGRAM)) (\<lambda>fd.
     bindp (strcpy_ifname device) (\<lambda>_.
     bindp (callp (px_ifhwaddr P fd device)) (\<lambda>(res, sa_data).
       if res < 0 then ret (-1, [])
       else ret (0, take MAC_ADDR_LENGTH sa_data))))"

text \<open>The table of interfaces: 64 zeroed entries, of which the kernel fills the first ones.\<close>

definition ifconf_table :: "(string \<times> 32 word) list \<Rightarrow> (string \<times> 32 word) list" where
  "ifconf_table es =
     (let fs = take MAX_EXPECTED_INTERFACES es
      in fs @ replicate (MAX_EXPECTED_INTERFACES - length fs) ([], 0))"

text \<open>The loop \<open>while(ifrs[count].ifr_name[0]!='\0')\<close> has no bound of its own.\<close>

fun ifc_entries :: "(string \<times> 32 word) list \<Rightarrow> fault + (string \<times> 32 word) list" where
  "ifc_entries [] = Inl Out_Of_Bounds"
| "ifc_entries (e # es) =
     (if fst e = [] then Inr []
      else case ifc_entries es of Inl f \<Rightarrow> Inl f | Inr rs \<Rightarrow> Inr (e # rs))"

definition sockaddr_interfaceCount :: "'w posix \<Rightarrow> ('w, int) prog" where
  "sockaddr_interfaceCount P =
     bindp (callp (px_socket P SOCK_DGRAM)) (\<lambda>fd.
     bindp (callp (px_ifconf P fd)) (\<lambda>(res, es).
       if res < 0 then ret (-1)
       else
         bindp (callp (px_close P fd)) (\<lambda>_.
         bindp (liftp (ifc_entries (ifconf_table es))) (\<lambda>rs. ret (int (length rs))))))"

text \<open>
  \<open>sockaddr_ips\<close> with the number of cells of the array it is given: the count and the array's
  contents. Each entry found is stored without a check.
\<close>

definition sockaddr_ips :: "'w posix \<Rightarrow> int \<Rightarrow> ('w, int \<times> 32 word list) prog" where
  "sockaddr_ips P cells =
     bindp (callp (px_socket P SOCK_DGRAM)) (\<lambda>fd.
     bindp (callp (px_ifconf P fd)) (\<lambda>(res, es).
       if res < 0 then ret (-1, [])
       else
         bindp (callp (px_close P fd)) (\<lambda>_.
         bindp (liftp (ifc_entries (ifconf_table es))) (\<lambda>rs.
           if cells < int (length rs) then faultp Out_Of_Bounds
           else ret (int (length rs), map (\<lambda>e. ntohl (snd e)) rs)))))"

text \<open>The three requests about one device share their code but for the request.\<close>

definition device_request :: "'w posix \<Rightarrow> if_request \<Rightarrow> string \<Rightarrow> ('w, 32 word) prog" where
  "device_request P req device =
     bindp (callp (px_socket P SOCK_DGRAM)) (\<lambda>fd.
     bindp (strcpy_ifname device) (\<lambda>_.
     bindp (callp (px_ifreq P req fd device)) (\<lambda>(res, s_addr).
       if res < 0 then ret (-1)
       else bindp (callp (px_close P fd)) (\<lambda>_. ret (ntohl s_addr)))))"

definition sockaddr_device2ip :: "'w posix \<Rightarrow> string \<Rightarrow> ('w, 32 word) prog" where
  "sockaddr_device2ip P device = device_request P SIOCGIFADDR device"

definition sockaddr_getMask :: "'w posix \<Rightarrow> string \<Rightarrow> ('w, 32 word) prog" where
  "sockaddr_getMask P device = device_request P SIOCGIFNETMASK device"

definition sockaddr_getBroadcast :: "'w posix \<Rightarrow> string \<Rightarrow> ('w, 32 word) prog" where
  "sockaddr_getBroadcast P device = device_request P SIOCGIFBRDADDR device"

section \<open>Text and numeric addresses\<close>

lemma show_dec_0 [simp]: "show_dec 0 = ''0''"
  by code_simp

lemma strtoul0_decimal:
  "s \<noteq> [] \<Longrightarrow> hd s \<noteq> CHR ''0'' \<Longrightarrow> strtoul0 s = read_digits 0 s"
  by (cases s rule: strtoul0.cases) auto

lemma is_digit_dot [simp]: "\<not> is_digit (CHR ''.'')" "\<not> is_octal (CHR ''.'')" "is_octal (CHR ''0'')"
  "digit_val (CHR ''0'') = 0" "is_digit (CHR '':'') = False" "is_digit (CHR ''0'')"
  by (simp_all add: is_octal_def is_digit_def digit_val_def)

lemma strtoul0_show_dec:
  assumes "r = [] \<or> hd r = CHR ''.''"
  shows "strtoul0 (show_dec n @ r) = (n, r)"
proof (cases "n = 0")
  case True
  then show ?thesis
    using assms by (cases r; cases "tl r") (auto simp: Let_def)
next
  case False
  then have "strtoul0 (show_dec n @ r) = read_digits 0 (show_dec n @ r)"
    by (simp add: strtoul0_decimal hd_show_dec)
  also have "\<dots> = (n, r)"
    using assms by (cases "r = []") (simp_all add: read_show_dec read_show_dec_rest)
  finally show ?thesis .
qed

lemma hd_show_dec_digit [simp]: "is_digit (hd (show_dec n))"
  by (rule show_dec_digits [of _ n]) simp

lemma aton_parts_last:
  "n < 2 ^ 32 \<Longrightarrow> aton_parts k (show_dec n) = Some ([], n, [])"
  using strtoul0_show_dec [of "[]" n] by (simp add: aton_parts.simps)

lemma aton_parts_dot:
  "n < 256 \<Longrightarrow> aton_parts (Suc k) (show_dec n @ CHR ''.'' # s) =
     map_option (\<lambda>(vs, l, r). (n # vs, l, r)) (aton_parts k s)"
  using strtoul0_show_dec [of "CHR ''.'' # s" n] by (subst aton_parts.simps) simp

lemma inet_aton_dotted:
  assumes "a < 256" "b < 256" "c < 256" "d < 256"
  shows "inet_aton (dotted a b c d) = Some (htonl (of_nat (a * 256 ^ 3 + b * 256 ^ 2 + c * 256 + d)))"
proof -
  have "aton_parts 3 (dotted a b c d) = Some ([a, b, c], d, [])"
    using assms by (simp add: dotted_def numeral_3_eq_3 aton_parts_dot aton_parts_last)
  then show ?thesis
    using assms by (simp add: inet_aton_def add.assoc)
qed

lemma mem32_cases:
  obtains b0 b1 b2 b3 where "mem32 ip = [b0, b1, b2, b3]"
    "ip = of_nat (of_char b3 * 256 ^ 3 + of_char b2 * 256 ^ 2 + of_char b1 * 256 + of_char b0)"
proof -
  have "length (mem32 ip) = Suc (Suc (Suc (Suc 0)))"
    by simp
  then obtain b0 b1 b2 b3 where m: "mem32 ip = [b0, b1, b2, b3]"
    by (auto simp: length_Suc_conv simp del: length_mem)
  moreover have "ip = of_nat (of_char b3 * 256 ^ 3 + of_char b2 * 256 ^ 2 + of_char b1 * 256 + of_char b0)"
    using val_mem(2) [of ip] by (simp add: m val32_def algebra_simps)
  ultimately show thesis
    by (rule that)
qed

lemma inet_aton_int2ip: "inet_aton (sockaddr_int2ip ip) = Some (htonl ip)"
proof -
  obtain b0 b1 b2 b3 where m: "mem32 ip = [b0, b1, b2, b3]"
    and ip: "ip = of_nat (of_char b3 * 256 ^ 3 + of_char b2 * 256 ^ 2 + of_char b1 * 256 + of_char b0)"
    by (rule mem32_cases)
  show ?thesis
    by (subst (2) ip) (simp add: sockaddr_int2ip_def m inet_aton_dotted)
qed

lemma sockaddr_int2ip_inj: "sockaddr_int2ip ip = sockaddr_int2ip ip' \<Longrightarrow> ip = ip'"
  by (metis htonl_eq_iff(1) inet_aton_int2ip option.inject)

lemma length_dotted:
  "a < 256 \<Longrightarrow> b < 256 \<Longrightarrow> c < 256 \<Longrightarrow> d < 256 \<Longrightarrow> length (dotted a b c d) \<le> 15"
  using length_show_dec [of a 3] length_show_dec [of b 3] length_show_dec [of c 3]
    length_show_dec [of d 3] by (simp add: dotted_def)

lemma length_int2ip: "length (sockaddr_int2ip ip) \<le> 15"
  by (rule mem32_cases [of ip]) (simp add: sockaddr_int2ip_def length_dotted)

lemma set_dotted: "x \<in> set (dotted a b c d) \<Longrightarrow> is_digit x \<or> x = CHR ''.''"
  by (auto simp: dotted_def show_dec_digits)

lemma set_int2ip: "x \<in> set (sockaddr_int2ip ip) \<Longrightarrow> is_digit x \<or> x = CHR ''.''"
  by (rule mem32_cases [of ip]) (auto simp: sockaddr_int2ip_def dest: set_dotted)

lemma sockaddr_set_int2ip:
  "sockaddr_set (sockaddr_int2ip ip) port =
     (0, \<lparr>sin_family = AF_INET, sin_port = htons (word_of_int port), sin_addr = htonl ip\<rparr>)"
  by (simp add: sockaddr_set_def inet_aton_int2ip zero_sockaddr_def)

text \<open>
  C39: the text of an address can be read back. For every IPv4 address and every port number,
  \<open>sockaddr_set\<close> accepts the text \<open>sockaddr_int2ip\<close> prints, and the structure it fills gives
  back the address, the port (cut to 16 bits), and the same text through \<open>sockaddr_getIPSTR\<close>.
\<close>

theorem sockaddr_roundtrip:
  "fst (sockaddr_set (sockaddr_int2ip ip) port) = 0 \<and>
   sockaddr_getIP (snd (sockaddr_set (sockaddr_int2ip ip) port)) = ip \<and>
   sockaddr_getPort (snd (sockaddr_set (sockaddr_int2ip ip) port)) = port mod 65536 \<and>
   sockaddr_getIPSTR (snd (sockaddr_set (sockaddr_int2ip ip) port)) = sockaddr_int2ip ip"
proof -
  have "inet_ntoa (htonl ip) = sockaddr_int2ip ip"
    by (rule mem32_cases [of ip]) (simp add: inet_ntoa_def sockaddr_int2ip_def mem_hton)
  then show ?thesis
    by (simp add: sockaddr_set_int2ip sockaddr_getIP_def sockaddr_getPort_def
        sockaddr_getIPSTR_def uint_word_of_int)
qed

section \<open>The table of interfaces\<close>

lemma ifc_entries_takeWhile:
  "ifc_entries es =
     (if \<exists>e \<in> set es. fst e = [] then Inr (takeWhile (\<lambda>e. fst e \<noteq> []) es) else Inl Out_Of_Bounds)"
  by (induction es) auto

lemma length_ifconf_table [simp]: "length (ifconf_table es) = 64"
  by (simp add: ifconf_table_def)

lemma ifconf_table_entries:
  assumes "\<forall>e \<in> set es. fst e \<noteq> []"
  shows "ifc_entries (ifconf_table es) = (if length es < 64 then Inr es else Inl Out_Of_Bounds)"
proof (cases "length es < 64")
  case True
  then have "takeWhile (\<lambda>e. fst e \<noteq> []) (es @ replicate (64 - length es) ([], 0 :: 32 word)) = es"
    using assms by (simp add: takeWhile_append2 takeWhile_replicate)
  then show ?thesis
    using True by (auto simp: ifc_entries_takeWhile ifconf_table_def)
next
  case False
  have "\<forall>e \<in> set (take 64 es). fst e \<noteq> []"
    using assms by (meson in_set_takeD)
  then show ?thesis
    using False by (auto simp: ifc_entries_takeWhile ifconf_table_def)
qed

end
