(* ===== verification/Peer_Info.thy ===== *)
theory Peer_Info
  imports Sockaddr
begin

text \<open>
  SPeerInfo.cpp: what is known of one peer. All getters but one note the time they are called
  at: they take the current second and return the object they leave.
\<close>

record peerinfo =
  pi_peer :: int
  pi_ip :: "32 word"
  pi_port :: "16 word"
  pi_socket :: int
  pi_name :: string
  pi_lastActivity :: int

definition SPeerInfo_new :: "int \<Rightarrow> int \<Rightarrow> int \<Rightarrow> 32 word \<Rightarrow> 16 word \<Rightarrow> string \<Rightarrow> peerinfo" where
  "SPeerInfo_new now peer socket ip port name =
     \<lparr>pi_peer = peer, pi_ip = ip, pi_port = port, pi_socket = socket, pi_name = name,
      pi_lastActivity = now\<rparr>"

text \<open>The buffers for the two parts hold 16 and 7 bytes.\<close>

definition ipnport2addr :: "32 word \<Rightarrow> 16 word \<Rightarrow> string" where
  "ipnport2addr ip port = sockaddr_int2ip ip @ '':'' @ show_int (uint port)"

definition touched :: "int \<Rightarrow> peerinfo \<Rightarrow> peerinfo" where
  "touched now p = p\<lparr>pi_lastActivity := now\<rparr>"

definition SPeerInfo_getPeer :: "int \<Rightarrow> peerinfo \<Rightarrow> int \<times> peerinfo" where
  "SPeerInfo_getPeer now p = (pi_peer p, touched now p)"

definition SPeerInfo_getIP :: "int \<Rightarrow> peerinfo \<Rightarrow> 32 word \<times> peerinfo" where
  "SPeerInfo_getIP now p = (pi_ip p, touched now p)"

definition SPeerInfo_getPort :: "int \<Rightarrow> peerinfo \<Rightarrow> 16 word \<times> peerinfo" where
  "SPeerInfo_getPort now p = (pi_port p, touched now p)"

definition SPeerInfo_getSocket :: "int \<Rightarrow> peerinfo \<Rightarrow> int \<times> peerinfo" where
  "SPeerInfo_getSocket now p = (pi_socket p, touched now p)"

definition SPeerInfo_getName :: "int \<Rightarrow> peerinfo \<Rightarrow> string \<times> peerinfo" where
  "SPeerInfo_getName now p = (pi_name p, touched now p)"

definition SPeerInfo_getAddr :: "int \<Rightarrow> peerinfo \<Rightarrow> string \<times> peerinfo" where
  "SPeerInfo_getAddr now p = (let p' = touched now p in (ipnport2addr (pi_ip p') (pi_port p'), p'))"

definition SPeerInfo_getLastActivity :: "peerinfo \<Rightarrow> int" where
  "SPeerInfo_getLastActivity p = pi_lastActivity p"

lemmas SPeerInfo_getters =
  SPeerInfo_getPeer_def SPeerInfo_getIP_def SPeerInfo_getPort_def SPeerInfo_getSocket_def
  SPeerInfo_getName_def SPeerInfo_getAddr_def SPeerInfo_getLastActivity_def

abbreviation (input) pi_addr :: "peerinfo \<Rightarrow> string" where
  "pi_addr p \<equiv> ipnport2addr (pi_ip p) (pi_port p)"

lemma touched_sel [simp]:
  "pi_peer (touched t p) = pi_peer p" "pi_ip (touched t p) = pi_ip p"
  "pi_port (touched t p) = pi_port p" "pi_socket (touched t p) = pi_socket p"
  "pi_name (touched t p) = pi_name p" "pi_lastActivity (touched t p) = t"
  "touched t (touched u p) = touched t p"
  by (simp_all add: touched_def)

section \<open>Properties\<close>

lemma show_int_uint: "show_int (uint w) = show_dec (unat w)"
  by (simp add: show_int_def)

lemma unat_less_65536: "unat (w :: 16 word) < 65536"
proof -
  have "unat w < 2 ^ LENGTH(16)"
    by (rule unsigned_less)
  then show ?thesis
    by simp
qed

lemma length_port: "length (show_int (uint (w :: 16 word))) \<le> 5"
  using length_show_dec [of "unat w" 5] unat_less_65536 [of w] by (simp add: show_int_uint)

lemma ipnport2addr_inj_aux:
  "ipnport2addr ip port = ipnport2addr ip' port' \<Longrightarrow> ip = ip' \<and> port = port'"
proof -
  assume eq: "ipnport2addr ip port = ipnport2addr ip' port'"
  have nc: "x \<noteq> CHR '':''" if "x \<in> set (sockaddr_int2ip i)" for x i
    using set_int2ip [of x i] that by force
  have no_colon: "takeWhile (\<lambda>x. x \<noteq> CHR '':'') (sockaddr_int2ip i @ CHR '':'' # r) = sockaddr_int2ip i"
    for i r
    by (simp add: takeWhile_append2 nc)
  have "takeWhile (\<lambda>x. x \<noteq> CHR '':'') (ipnport2addr i p) = sockaddr_int2ip i" for i p
    unfolding ipnport2addr_def append_Cons append_Nil by (rule no_colon)
  with eq have same: "sockaddr_int2ip ip = sockaddr_int2ip ip'"
    by metis
  from same eq have "show_int (uint port) = show_int (uint port')"
    by (simp add: ipnport2addr_def)
  then have "unat port = unat port'"
    unfolding show_int_uint by (rule show_dec_inj)
  then have "port = port'"
    by (simp add: word_unat_eq_iff)
  with sockaddr_int2ip_inj [OF same] show ?thesis
    by blast
qed

text \<open>
  The key under which a peer's location is stored names the location: two pairs of address
  and port have the same text \<open>a.b.c.d:port\<close> only when they are equal. And the fixed buffers it
  is built in are large enough: with the terminating zero, 16 bytes for the address and 7 for the
  port.
\<close>

theorem location_key:
  "(ipnport2addr ip port = ipnport2addr ip' port' \<longleftrightarrow> ip = ip' \<and> port = port') \<and>
   length (sockaddr_int2ip ip) + 1 \<le> 16 \<and> length (show_int (uint port)) + 1 \<le> 7"
  using ipnport2addr_inj_aux [of ip port ip' port'] length_int2ip [of ip] length_port [of port] by auto

end
