(* ===== verification/Hash_Index.thy ===== *)
theory Hash_Index
  imports Sbus_Prelude
begin

text \<open>
  The hash maps of hashdefs.h (the library's \<open>hash_map\<close>), as the contacts table uses them:
  \<open>find\<close>, storing with \<open>[]\<close>, erasing a key and running through all entries. The contract is the
  locale \<open>hash_index\<close>; the model is an association list with distinct keys. The order in which
  a real table is run through is not specified, and no result of this development depends on
  it.
\<close>

locale hash_index =
  fixes find :: "'m \<Rightarrow> 'k \<Rightarrow> 'v option"
    and set :: "'k \<Rightarrow> 'v \<Rightarrow> 'm \<Rightarrow> 'm"
    and erase :: "'k \<Rightarrow> 'm \<Rightarrow> 'm"
    and clear :: "'m"
    and entries :: "'m \<Rightarrow> ('k \<times> 'v) list"
    and inv :: "'m \<Rightarrow> bool"
  assumes find_set: "find (set k v m) = (find m)(k \<mapsto> v)"
    and find_erase: "find (erase k m) = (find m)(k := None)"
    and find_clear: "find clear = Map.empty"
    and inv_set: "inv m \<Longrightarrow> inv (set k v m)"
    and inv_erase: "inv m \<Longrightarrow> inv (erase k m)"
    and inv_clear: "inv clear"
    and entries_find: "inv m \<Longrightarrow> (k, v) \<in> List.set (entries m) \<longleftrightarrow> find m k = Some v"
    and entries_distinct: "inv m \<Longrightarrow> distinct (map fst (entries m))"
begin

lemma find_set_same [simp]: "find (set k v m) k = Some v"
  by (simp add: find_set)

lemma find_erase_set: "find (erase k (set k v m)) = (find m)(k := None)"
  by (simp add: find_erase find_set)

lemma entries_ran: "inv m \<Longrightarrow> snd ` List.set (entries m) = ran (find m)"
  by (force simp: ran_def entries_find [symmetric])

lemma entries_dom: "inv m \<Longrightarrow> fst ` List.set (entries m) = dom (find m)"
  by (force simp: dom_def entries_find [symmetric])

end

definition hm_find :: "('k \<times> 'v) list \<Rightarrow> 'k \<Rightarrow> 'v option" where
  "hm_find m k = map_of m k"

definition hm_set :: "'k \<Rightarrow> 'v \<Rightarrow> ('k \<times> 'v) list \<Rightarrow> ('k \<times> 'v) list" where
  "hm_set k v m = AList.update k v m"

definition hm_erase :: "'k \<Rightarrow> ('k \<times> 'v) list \<Rightarrow> ('k \<times> 'v) list" where
  "hm_erase k m = AList.delete k m"

definition hm_inv :: "('k \<times> 'v) list \<Rightarrow> bool" where
  "hm_inv m \<longleftrightarrow> distinct (map fst m)"

interpretation hm: hash_index hm_find hm_set hm_erase "[]" "\<lambda>m. m" hm_inv
  by unfold_locales
    (auto simp: hm_find_def hm_set_def hm_erase_def hm_inv_def update_conv' delete_conv' fun_eq_iff
      distinct_update distinct_delete)

lemmas hm_laws = hm.find_set hm.find_erase hm.find_clear hm.inv_set hm.inv_erase hm.inv_clear

end
