(* ===== verification/Contacts.thy ===== *)
theory Contacts
  imports Peer_Info Hash_Index
begin

text \<open>
  SContacts.cpp: the table of known peers. The class owns objects of SPeerInfo and reaches them
  through four hash maps of pointers: by peer number, by location, by name and by socket. The
  objects live on a heap from addresses to cells; \<open>delete\<close> leaves a freed cell behind.

  What C++ leaves undefined is not fixed by the model but an argument of it, the record \<open>cxx\<close>:
  what a freed object reads as (\<open>None\<close>: the access is a fault), whether an iterator can still be
  advanced after its entry was erased, and whether erasing \<open>end()\<close> is accepted and does nothing.
  The code only behaves as meant where the runtime forgives all three. The readings of the
  clock (timing.c, \<open>timing_current_seconds\<close>) are an argument too.
\<close>

section \<open>State\<close>

record cxx =
  cx_dangling :: "peerinfo \<Rightarrow> peerinfo option"
  cx_iter :: bool
  cx_erase_end :: bool
  cx_clock :: "nat \<Rightarrow> int"

datatype cell = Live peerinfo | Freed peerinfo

record contacts =
  ct_lastPeerId :: int
  ct_peers :: "(int \<times> nat) list"
  ct_addr2peer :: "(string \<times> nat) list"
  ct_name2peer :: "(string \<times> nat) list"
  ct_socket2peer :: "(int \<times> nat) list"
  ct_lastCleanUp :: int
  ct_heap :: "nat \<Rightarrow> cell option"
  ct_next :: nat
  ct_tick :: nat

abbreviation (input) MAX_ALLOWED_PEERINFO_IDLE_S :: int where "MAX_ALLOWED_PEERINFO_IDLE_S \<equiv> 7200"
abbreviation (input) MIN_CLEANUP_PERIOD_S :: int where "MIN_CLEANUP_PERIOD_S \<equiv> 120"
abbreviation (input) INT_MAX :: int where "INT_MAX \<equiv> 2147483647"

type_synonym 'a contacts_prog = "(contacts, 'a) prog"

section \<open>Clock, heap and hash maps\<close>

definition current_seconds :: "cxx \<Rightarrow> int contacts_prog" where
  "current_seconds x = callp (\<lambda>c. (cx_clock x (ct_tick c), c\<lparr>ct_tick := Suc (ct_tick c)\<rparr>))"

definition read_cell :: "cxx \<Rightarrow> cell option \<Rightarrow> fault + peerinfo" where
  "read_cell x cell =
     (case cell of
        None \<Rightarrow> Inl Null_Pointer
      | Some (Live p) \<Rightarrow> Inr p
      | Some (Freed p) \<Rightarrow> (case cx_dangling x p of None \<Rightarrow> Inl Use_After_Free | Some q \<Rightarrow> Inr q))"

definition load :: "cxx \<Rightarrow> nat \<Rightarrow> peerinfo contacts_prog" where
  "load x a = bindp (getp (\<lambda>c. read_cell x (ct_heap c a))) liftp"

fun overwrite :: "peerinfo \<Rightarrow> cell \<Rightarrow> cell" where
  "overwrite p (Live q) = Live p"
| "overwrite p (Freed q) = Freed p"

definition store :: "nat \<Rightarrow> peerinfo \<Rightarrow> unit contacts_prog" where
  "store a p = modp (\<lambda>c. c\<lparr>ct_heap := (ct_heap c)(a := map_option (overwrite p) (ct_heap c a))\<rparr>)"

text \<open>A call of one of the getters that note the time they are called at.\<close>

definition ask :: "cxx \<Rightarrow> nat \<Rightarrow> (int \<Rightarrow> peerinfo \<Rightarrow> 'a \<times> peerinfo) \<Rightarrow> 'a contacts_prog" where
  "ask x a getter =
     bindp (current_seconds x) (\<lambda>now.
     bindp (load x a) (\<lambda>p.
     bindp (store a (snd (getter now p))) (\<lambda>_.
       ret (fst (getter now p)))))"

definition new_peerinfo :: "cxx \<Rightarrow> int \<Rightarrow> int \<Rightarrow> 32 word \<Rightarrow> 16 word \<Rightarrow> string \<Rightarrow> nat contacts_prog" where
  "new_peerinfo x peer socket ip port name =
     bindp (current_seconds x) (\<lambda>now.
     callp (\<lambda>c. (ct_next c,
       c\<lparr>ct_heap := (ct_heap c)(ct_next c \<mapsto> Live (SPeerInfo_new now peer socket ip port name)),
         ct_next := Suc (ct_next c)\<rparr>)))"

definition free_cell :: "nat \<Rightarrow> contacts \<Rightarrow> fault + contacts" where
  "free_cell a c =
     (case ct_heap c a of
        Some (Live p) \<Rightarrow> Inr (c\<lparr>ct_heap := (ct_heap c)(a \<mapsto> Freed p)\<rparr>)
      | _ \<Rightarrow> Inl Use_After_Free)"

definition delete_peerinfo :: "nat \<Rightarrow> unit contacts_prog" where
  "delete_peerinfo a = (\<lambda>c. case free_cell a c of Inl f \<Rightarrow> Inl f | Inr c' \<Rightarrow> Inr ((), c'))"

text \<open>\<open>m.erase(m.find(k))\<close> for each of the maps.\<close>

definition erase_found :: "cxx \<Rightarrow> 'k \<Rightarrow> ('k \<times> nat) list \<Rightarrow> fault + ('k \<times> nat) list" where
  "erase_found x k m =
     (case hm_find m k of
        None \<Rightarrow> if cx_erase_end x then Inr m else Inl Bad_Iterator
      | Some a \<Rightarrow> Inr (hm_erase k m))"

definition erase_peer :: "cxx \<Rightarrow> int \<Rightarrow> unit contacts_prog" where
  "erase_peer x k =
     bindp (getp (\<lambda>c. erase_found x k (ct_peers c))) (\<lambda>r.
     bindp (liftp r) (\<lambda>m. modp (\<lambda>c. c\<lparr>ct_peers := m\<rparr>)))"

definition erase_addr :: "cxx \<Rightarrow> string \<Rightarrow> unit contacts_prog" where
  "erase_addr x k =
     bindp (getp (\<lambda>c. erase_found x k (ct_addr2peer c))) (\<lambda>r.
     bindp (liftp r) (\<lambda>m. modp (\<lambda>c. c\<lparr>ct_addr2peer := m\<rparr>)))"

definition erase_name :: "cxx \<Rightarrow> string \<Rightarrow> unit contacts_prog" where
  "erase_name x k =
     bindp (getp (\<lambda>c. erase_found x k (ct_name2peer c))) (\<lambda>r.
     bindp (liftp r) (\<lambda>m. modp (\<lambda>c. c\<lparr>ct_name2peer := m\<rparr>)))"

definition erase_socket :: "cxx \<Rightarrow> int \<Rightarrow> unit contacts_prog" where
  "erase_socket x k =
     bindp (getp (\<lambda>c. erase_found x k (ct_socket2peer c))) (\<lambda>r.
     bindp (liftp r) (\<lambda>m. modp (\<lambda>c. c\<lparr>ct_socket2peer := m\<rparr>)))"

text \<open>The difference of two values of type \<open>int\<close>; overflow is undefined.\<close>

definition int_minus :: "int \<Rightarrow> int \<Rightarrow> fault + int" where
  "int_minus a b = (if - INT_MAX - 1 \<le> a - b \<and> a - b \<le> INT_MAX then Inr (a - b) else Inl Int_Overflow)"

section \<open>The operations\<close>

definition SContacts_new :: contacts where
  "SContacts_new =
     \<lparr>ct_lastPeerId = 0, ct_peers = [], ct_addr2peer = [], ct_name2peer = [], ct_socket2peer = [],
      ct_lastCleanUp = -1, ct_heap = (\<lambda>_. None), ct_next = 0, ct_tick = 0\<rparr>"

fun delete_all :: "(int \<times> nat) list \<Rightarrow> unit contacts_prog" where
  "delete_all [] = ret ()"
| "delete_all ((k, a) # es) = bindp (delete_peerinfo a) (\<lambda>_. delete_all es)"

definition SContacts_delete :: "unit contacts_prog" where
  "SContacts_delete =
     bindp (modp (\<lambda>c. c\<lparr>ct_addr2peer := [], ct_name2peer := [], ct_socket2peer := []\<rparr>)) (\<lambda>_.
     bindp (getp ct_peers) (\<lambda>es.
     bindp (delete_all es) (\<lambda>_.
       modp (\<lambda>c. c\<lparr>ct_peers := []\<rparr>))))"

text \<open>
  The loop of \<open>doCleanUp\<close> over the entries of \<open>peers\<close>. After \<open>peers.erase(it)\<close> the loop advances
  \<open>it\<close>, whose entry is gone.
\<close>

fun cleanup_loop :: "cxx \<Rightarrow> int \<Rightarrow> (int \<times> nat) list \<Rightarrow> unit contacts_prog" where
  "cleanup_loop x now [] = ret ()"
| "cleanup_loop x now ((k, a) # es) =
     bindp (load x a) (\<lambda>p.
     bindp (liftp (int_minus now (SPeerInfo_getLastActivity p))) (\<lambda>idle.
       if MAX_ALLOWED_PEERINFO_IDLE_S < idle then
         bindp (ask x a SPeerInfo_getAddr) (\<lambda>addr.
         bindp (erase_addr x addr) (\<lambda>_.
         bindp (ask x a SPeerInfo_getName) (\<lambda>name.
         bindp (erase_name x name) (\<lambda>_.
         bindp (ask x a SPeerInfo_getSocket) (\<lambda>socket.
         bindp (erase_socket x socket) (\<lambda>_.
         bindp (modp (\<lambda>c. c\<lparr>ct_peers := hm_erase k (ct_peers c)\<rparr>)) (\<lambda>_.
           if cx_iter x then cleanup_loop x now es else faultp Bad_Iterator)))))))
       else cleanup_loop x now es))"

definition SContacts_doCleanUp :: "cxx \<Rightarrow> unit contacts_prog" where
  "SContacts_doCleanUp x =
     bindp (current_seconds x) (\<lambda>now.
     bindp (getp ct_lastCleanUp) (\<lambda>last.
     bindp (liftp (int_minus now last)) (\<lambda>period.
       if MIN_CLEANUP_PERIOD_S < period then
         bindp (modp (\<lambda>c. c\<lparr>ct_lastCleanUp := now\<rparr>)) (\<lambda>_.
         bindp (getp ct_peers) (\<lambda>es.
           cleanup_loop x now es))
       else ret ())))"

definition SContacts_erase :: "cxx \<Rightarrow> nat \<Rightarrow> unit contacts_prog" where
  "SContacts_erase x a =
     bindp (ask x a SPeerInfo_getPeer) (\<lambda>peer.
     bindp (erase_peer x peer) (\<lambda>_.
     bindp (ask x a SPeerInfo_getAddr) (\<lambda>addr.
     bindp (erase_addr x addr) (\<lambda>_.
     bindp (ask x a SPeerInfo_getName) (\<lambda>name.
     bindp (erase_name x name) (\<lambda>_.
     bindp (ask x a SPeerInfo_getSocket) (\<lambda>socket.
     bindp (erase_socket x socket) (\<lambda>_.
       delete_peerinfo a))))))))"

text \<open>The text \<open>show\<close> writes goes to the log; the getters it calls note the time of the call.\<close>

fun show_loop :: "cxx \<Rightarrow> (int \<times> nat) list \<Rightarrow> unit contacts_prog" where
  "show_loop x [] = ret ()"
| "show_loop x ((k, a) # es) =
     bindp (ask x a SPeerInfo_getPeer) (\<lambda>_.
     bindp (ask x a SPeerInfo_getSocket) (\<lambda>_.
     bindp (ask x a SPeerInfo_getAddr) (\<lambda>_.
     bindp (ask x a SPeerInfo_getName) (\<lambda>_.
       show_loop x es))))"

definition SContacts_show :: "cxx \<Rightarrow> unit contacts_prog" where
  "SContacts_show x = bindp (getp ct_peers) (show_loop x)"

definition SContacts_findAddr :: "contacts \<Rightarrow> 32 word \<Rightarrow> 16 word \<Rightarrow> nat option" where
  "SContacts_findAddr c ip port = hm_find (ct_addr2peer c) (ipnport2addr ip port)"

definition SContacts_findName :: "contacts \<Rightarrow> string \<Rightarrow> nat option" where
  "SContacts_findName c name = hm_find (ct_name2peer c) name"

definition SContacts_findFromSocket :: "contacts \<Rightarrow> int \<Rightarrow> nat option" where
  "SContacts_findFromSocket c socket = hm_find (ct_socket2peer c) socket"

definition SContacts_findPeer :: "contacts \<Rightarrow> int \<Rightarrow> nat option" where
  "SContacts_findPeer c peer = hm_find (ct_peers c) peer"

text \<open>The four assignments that enter an object into the maps.\<close>

definition index_peer :: "cxx \<Rightarrow> nat \<Rightarrow> unit contacts_prog" where
  "index_peer x a =
     bindp (ask x a SPeerInfo_getPeer) (\<lambda>peer.
     bindp (modp (\<lambda>c. c\<lparr>ct_peers := hm_set peer a (ct_peers c)\<rparr>)) (\<lambda>_.
     bindp (ask x a SPeerInfo_getAddr) (\<lambda>addr.
     bindp (modp (\<lambda>c. c\<lparr>ct_addr2peer := hm_set addr a (ct_addr2peer c)\<rparr>)) (\<lambda>_.
     bindp (ask x a SPeerInfo_getName) (\<lambda>name.
     bindp (modp (\<lambda>c. c\<lparr>ct_name2peer := hm_set name a (ct_name2peer c)\<rparr>)) (\<lambda>_.
     bindp (ask x a SPeerInfo_getSocket) (\<lambda>socket.
       modp (\<lambda>c. c\<lparr>ct_socket2peer := hm_set socket a (ct_socket2peer c)\<rparr>))))))))"

definition SContacts_add :: "cxx \<Rightarrow> int \<Rightarrow> 32 word \<Rightarrow> 16 word \<Rightarrow> string \<Rightarrow> nat contacts_prog" where
  "SContacts_add x socket ip port name =
     bindp (getp (\<lambda>c. SContacts_findAddr c ip port)) (\<lambda>r.
       case r of
         Some a \<Rightarrow> ret a
       | None \<Rightarrow>
     bindp (getp (\<lambda>c. SContacts_findName c name)) (\<lambda>r.
       case r of
         Some a \<Rightarrow> ret a
       | None \<Rightarrow>
     bindp (SContacts_doCleanUp x) (\<lambda>_.
     bindp (getp ct_lastPeerId) (\<lambda>last.
       if last = INT_MAX then faultp Int_Overflow
       else
     bindp (modp (\<lambda>c. c\<lparr>ct_lastPeerId := last + 1\<rparr>)) (\<lambda>_.
     bindp (new_peerinfo x (last + 1) socket ip port name) (\<lambda>a.
     bindp (index_peer x a) (\<lambda>_.
     bindp (SContacts_show x) (\<lambda>_.
       ret a))))))))"

text \<open>
  In \<open>updateSocket\<close> the variable \<open>oldName\<close> is a reference into the old object, which \<open>erase\<close>
  deletes before \<open>new\<close> copies the name from it.
\<close>

definition SContacts_updateSocket :: "cxx \<Rightarrow> nat \<Rightarrow> int \<Rightarrow> nat contacts_prog" where
  "SContacts_updateSocket x a socket =
     bindp (ask x a SPeerInfo_getPeer) (\<lambda>oldPeer.
     bindp (ask x a SPeerInfo_getIP) (\<lambda>oldIp.
     bindp (ask x a SPeerInfo_getPort) (\<lambda>oldPort.
     bindp (ask x a SPeerInfo_getName) (\<lambda>_.
     bindp (SContacts_erase x a) (\<lambda>_.
     bindp (load x a) (\<lambda>old.
     bindp (new_peerinfo x oldPeer socket oldIp oldPort (pi_name old)) (\<lambda>b.
     bindp (index_peer x b) (\<lambda>_.
     bindp (SContacts_show x) (\<lambda>_.
       ret b)))))))))"

definition SContacts_updateName :: "cxx \<Rightarrow> nat \<Rightarrow> string \<Rightarrow> nat contacts_prog" where
  "SContacts_updateName x a name =
     bindp (ask x a SPeerInfo_getPeer) (\<lambda>oldPeer.
     bindp (ask x a SPeerInfo_getSocket) (\<lambda>oldSocket.
     bindp (ask x a SPeerInfo_getIP) (\<lambda>oldIp.
     bindp (ask x a SPeerInfo_getPort) (\<lambda>oldPort.
     bindp (SContacts_erase x a) (\<lambda>_.
     bindp (new_peerinfo x oldPeer oldSocket oldIp oldPort name) (\<lambda>b.
     bindp (index_peer x b) (\<lambda>_.
     bindp (SContacts_show x) (\<lambda>_.
       ret b))))))))"

end
