(* ===== verification/Stcp.thy ===== *)
theory Stcp
  imports Sockaddr
begin

text \<open>
  stcp.c: the thin layer over TCP sockets. \<open>ret_on_error\<close> is the macro RET_ON_PERROR (and
  RET_ON_ERROR) of errdefs.h: a negative value makes the function return \<open>-1\<close>. The messages
  the macros log are not modelled.
\<close>

definition ret_on_error :: "('s, int) prog \<Rightarrow> (int \<Rightarrow> ('s, int) prog) \<Rightarrow> ('s, int) prog" where
  "ret_on_error m k = bindp m (\<lambda>r. if r < 0 then ret (-1) else k r)"

lemma runs_ret_on_error [runs_simps]:
  "runs (ret_on_error m k) s P = runs m s (\<lambda>r s'. if r < 0 then P (-1) s' else runs (k r) s' P)"
  by (simp add: ret_on_error_def runs_simps)

lemma safe_ret_on_error [safe_simps]:
  "safe (ret_on_error m k) s P = safe m s (\<lambda>r s'. if r < 0 then P (-1) s' else safe (k r) s' P)"
  by (simp add: ret_on_error_def safe_simps)

abbreviation (input) O_NONBLOCK :: "32 word" where "O_NONBLOCK \<equiv> 2048"
abbreviation (input) LISTEN_QUEUE_SIZE :: int where "LISTEN_QUEUE_SIZE \<equiv> 20"
abbreviation (input) SOCK_TIMEOUT :: int where "SOCK_TIMEOUT \<equiv> -2"
abbreviation (input) SOCK_ERROR :: int where "SOCK_ERROR \<equiv> -1"
abbreviation (input) SOCK_DISCONN :: int where "SOCK_DISCONN \<equiv> 0"
abbreviation (input) ANY_IP_TXT :: string where "ANY_IP_TXT \<equiv> ''0.0.0.0''"

section \<open>Operations\<close>

definition stcp_setNonBlocking :: "'w posix \<Rightarrow> int \<Rightarrow> ('w, int) prog" where
  "stcp_setNonBlocking P fd =
     bindp (callp (px_getfl P fd)) (\<lambda>flags.
       callp (px_setfl P fd (or (word_of_int (if flags = -1 then 0 else flags)) O_NONBLOCK)))"

definition stcp_server :: "'w posix \<Rightarrow> string \<Rightarrow> int \<Rightarrow> ('w, int) prog" where
  "stcp_server P ip port =
     ret_on_error (callp (px_socket P SOCK_STREAM)) (\<lambda>sockfd.
     ret_on_error (callp (px_setsockopt P sockfd SO_REUSEADDR)) (\<lambda>_.
     ret_on_error (callp (px_bind P sockfd (snd (sockaddr_set ip port)))) (\<lambda>_.
     ret_on_error (callp (px_listen P sockfd LISTEN_QUEUE_SIZE)) (\<lambda>_.
       ret sockfd))))"

text \<open>
  The test after a failed \<open>connect\<close> is \<open>(errno=EAGAIN)||(errno=EWOULDBLOCK)\<close>: it assigns, and
  its value is that of the number assigned.
\<close>

definition stcp_client :: "'w posix \<Rightarrow> string \<Rightarrow> int \<Rightarrow> bool \<Rightarrow> ('w, int) prog" where
  "stcp_client P ip port blocking =
     ret_on_error (callp (px_socket P SOCK_STREAM)) (\<lambda>sock.
     bindp (if blocking then ret 0 else stcp_setNonBlocking P sock) (\<lambda>_.
     bindp (callp (px_connect P sock (snd (sockaddr_set ip port)))) (\<lambda>res.
       if res \<noteq> 0 then
         bindp (modp (px_set_errno P EAGAIN)) (\<lambda>_.
           if EAGAIN \<noteq> 0 then ret sock else ret (-1))
       else ret sock)))"

definition stcp_waitConnection :: "'w posix \<Rightarrow> int \<Rightarrow> int \<Rightarrow> ('w, int) prog" where
  "stcp_waitConnection P sockfd timeout =
     ret_on_error
       (bindp (callp (sys_poll1 P sockfd (or POLLOUT (or POLLERR (or POLLHUP POLLNVAL))) timeout))
         (\<lambda>(res, revents). ret res))
       (\<lambda>_. ret 0)"

definition stcp_soerror :: "'w posix \<Rightarrow> int \<Rightarrow> ('w, int) prog" where
  "stcp_soerror P sockfd =
     bindp (callp (px_soerror P sockfd)) (\<lambda>(res, soerror).
       if res < 0 then ret (-1) else ret soerror)"

definition stcp_isAlive :: "'w posix \<Rightarrow> int \<Rightarrow> ('w, int) prog" where
  "stcp_isAlive P sockfd =
     bindp (callp (sys_poll1 P sockfd (or POLLHUP POLLIN) 0)) (\<lambda>(res, revents).
       if res < 0 then ret 0
       else if res > 0 then
         (if has_flag revents POLLHUP then ret 0
          else if has_flag revents POLLIN then
            bindp (callp (sys_recvfrom P sockfd 1 True)) (\<lambda>r.
              case r of
                Recv_Data bs _ \<Rightarrow> if length bs = 0 then ret 0 else ret 1
              | Recv_Error _ \<Rightarrow> ret 1)
          else ret 1)
       else ret 1)"

definition stcp_send :: "'w posix \<Rightarrow> int \<Rightarrow> string \<Rightarrow> ('w, int) prog" where
  "stcp_send P sockfd data = callp (px_send P sockfd data)"

text \<open>\<open>sctp_trecv\<close> (so spelled): the result and the bytes stored; \<open>read\<close> is \<open>recv\<close> without flags.\<close>

definition sctp_trecv :: "'w posix \<Rightarrow> int \<Rightarrow> nat \<Rightarrow> int \<Rightarrow> ('w, int \<times> string) prog" where
  "sctp_trecv P sockfd len timeout =
     bindp (callp (sys_poll1 P sockfd POLLIN timeout)) (\<lambda>(res, revents).
       if res < 0 then ret (SOCK_ERROR, [])
       else if res = 0 then ret (SOCK_TIMEOUT, [])
       else if has_flag revents POLLIN then
         bindp (callp (sys_recvfrom P sockfd len False)) (\<lambda>r.
           case r of
             Recv_Error _ \<Rightarrow> ret (-1, [])
           | Recv_Data bs _ \<Rightarrow> ret (int (length bs), bs))
       else if res = 0 then ret (SOCK_TIMEOUT, [])
       else ret (res, []))"

definition stcp_getLocalIP :: "'w posix \<Rightarrow> int \<Rightarrow> ('w, 32 word) prog" where
  "stcp_getLocalIP P sockfd =
     bindp (callp (px_getsockname P sockfd)) (\<lambda>(res, addr).
       if res < 0 then ret (-1) else ret (ntohl (sin_addr addr)))"

definition stcp_getIP :: "'w posix \<Rightarrow> int \<Rightarrow> ('w, 32 word) prog" where
  "stcp_getIP P sockfd =
     bindp (callp (px_getpeername P sockfd)) (\<lambda>(res, addr).
       if res < 0 then ret (-1) else ret (ntohl (sin_addr addr)))"

definition stcp_getLocalPort :: "'w posix \<Rightarrow> int \<Rightarrow> ('w, int) prog" where
  "stcp_getLocalPort P sockfd =
     bindp (callp (px_getsockname P sockfd)) (\<lambda>(res, addr).
       if res < 0 then ret (-1) else ret (sockaddr_getPort addr))"

definition stcp_getPort :: "'w posix \<Rightarrow> int \<Rightarrow> ('w, int) prog" where
  "stcp_getPort P sockfd =
     bindp (callp (px_getpeername P sockfd)) (\<lambda>(res, addr).
       if res < 0 then ret (-1) else ret (sockaddr_getPort addr))"

section \<open>Properties\<close>

lemma runs_split_prod: "runs (case x of (a, b) \<Rightarrow> f a b) s P = (case x of (a, b) \<Rightarrow> runs (f a b) s P)"
  by (simp split: prod.splits)

lemma safe_split_prod: "safe (case x of (a, b) \<Rightarrow> f a b) s P = (case x of (a, b) \<Rightarrow> safe (f a b) s P)"
  by (simp split: prod.splits)

declare runs_split_prod [runs_simps] safe_split_prod [safe_simps]

text \<open>
  C38: \<open>stcp_client\<close> does not report a failed connection. Whatever \<open>connect\<close> answers, the
  result is the descriptor \<open>socket\<close> gave, and it is \<open>-1\<close> exactly when \<open>socket\<close> failed: the
  error branch after \<open>connect\<close> is dead code, because its test assigns to \<open>errno\<close>.
\<close>

theorem stcp_client_result:
  "runs (stcp_client P ip port blocking) w
     (\<lambda>r w'. r = (if fst (px_socket P SOCK_STREAM w) < 0 then -1 else fst (px_socket P SOCK_STREAM w)))"
  by (auto simp: stcp_client_def stcp_setNonBlocking_def runs_simps split: prod.splits)

text \<open>
  The received length of \<open>sctp_trecv\<close> never exceeds the buffer when data was read, and
  the bytes stored are as many as the result says, except that a wake-up of \<open>poll\<close> without
  \<open>POLLIN\<close> (an error or a hang-up) is reported as one received byte or more although
  nothing was stored.
\<close>

theorem sctp_trecv_result:
  "runs (sctp_trecv P fd len timeout) w
     (\<lambda>(res, bs) w'. length bs \<le> len \<and>
        (case sys_poll1 P fd POLLIN timeout w of ((n, revents), w1) \<Rightarrow>
           if n < 0 then res = SOCK_ERROR \<and> bs = [] \<and> w' = w1
           else if n = 0 then res = SOCK_TIMEOUT \<and> bs = [] \<and> w' = w1
           else if has_flag revents POLLIN then res = int (length bs) \<or> (res = -1 \<and> bs = [])
           else res = n \<and> bs = [] \<and> w' = w1))"
  by (auto simp: sctp_trecv_def runs_simps dest: sys_recvfrom_bound split: prod.splits recv_result.splits)

end
