(* ===== verification/Sample_System.thy ===== *)
theory Sample_System
  imports Sbus_Posix
begin

text \<open>
  Small concrete systems, on which the theorems that assume something of the system are applied:
  one where every call succeeds and does nothing, one with a stream of bytes to read, and one
  with a queue of datagrams that comes back to the sender, as multicast with the loop option
  does.
\<close>

definition null_posix :: "'w posix" where
  "null_posix =
     \<lparr>px_socket = (\<lambda>_ w. (3, w)), px_setsockopt = (\<lambda>_ _ w. (0, w)), px_soerror = (\<lambda>_ w. ((0, 0), w)),
      px_bind = (\<lambda>_ _ w. (0, w)), px_connect = (\<lambda>_ _ w. (0, w)), px_listen = (\<lambda>_ _ w. (0, w)),
      px_accept = (\<lambda>_ w. (4, w)), px_close = (\<lambda>_ w. (0, w)),
      px_getsockname = (\<lambda>_ w. ((0, zero_sockaddr), w)), px_getpeername = (\<lambda>_ w. ((0, zero_sockaddr), w)),
      px_getfl = (\<lambda>_ w. (0, w)), px_setfl = (\<lambda>_ _ w. (0, w)), px_poll = (\<lambda>_ _ w. ((0, []), w)),
      px_recvfrom = (\<lambda>_ _ _ w. (Recv_Data [] None, w)), px_sendto = (\<lambda>_ d _ w. (int (length d), w)),
      px_send = (\<lambda>_ d w. (int (length d), w)), px_gethostbyname = (\<lambda>_ w. (None, w)),
      px_ifreq = (\<lambda>_ _ _ w. ((0, 0), w)), px_ifhwaddr = (\<lambda>_ _ w. ((0, []), w)),
      px_ifconf = (\<lambda>_ w. ((0, []), w)), px_gettimeofday = (\<lambda>w. (Some (1, 0), w)),
      px_usleep = (\<lambda>_ w. w), px_errno = (\<lambda>_. 0), px_set_errno = (\<lambda>_ w. w), px_realloc = (\<lambda>_. True)\<rparr>"

definition stream_posix :: "string posix" where
  "stream_posix = null_posix
     \<lparr>px_recvfrom := (\<lambda>fd n peek w.
        if w = [] then (Recv_Error EAGAIN, w) else (Recv_Data (take n w) None, if peek then w else drop n w))\<rparr>"

definition loop_posix :: "(string \<times> sockaddr_in) list posix" where
  "loop_posix = null_posix
     \<lparr>px_recvfrom := (\<lambda>fd n peek w. case w of [] \<Rightarrow> (Recv_Error EAGAIN, w)
        | (d, a) # ds \<Rightarrow> (Recv_Data (take n d) (Some a), if peek then w else ds)),
      px_sendto := (\<lambda>fd d a w. (int (length d), w @ [(d, a)])),
      px_poll := (\<lambda>ps t w. if map fst ps = [5] \<and> w \<noteq> [] then ((1, [POLLIN]), w) else ((0, []), w))\<rparr>"

end
