(* ===== verification/Sudp.thy ===== *)
theory Sudp
  imports Stcp Sample_System
begin

text \<open>
  sudp.c: the thin layer over UDP sockets, plain, multicast and broadcast. A device that may
  be the null pointer is an \<open>option\<close>.
\<close>

abbreviation (input) INADDR_ANY :: "32 word" where "INADDR_ANY \<equiv> 0"

text \<open>The macro IN_MULTICAST on an address in host order: the class D addresses.\<close>

definition in_multicast :: "32 word \<Rightarrow> bool" where
  "in_multicast a \<longleftrightarrow> and a 0xF0000000 = 0xE0000000"

section \<open>Operations\<close>

definition sudp_create :: "'w posix \<Rightarrow> string \<Rightarrow> int \<Rightarrow> ('w, int) prog" where
  "sudp_create P ip port =
     ret_on_error (callp (px_socket P SOCK_DGRAM)) (\<lambda>sock.
     ret_on_error (callp (px_bind P sock (snd (sockaddr_set ip port)))) (\<lambda>_.
       ret sock))"

definition sudp_mcast :: "'w posix \<Rightarrow> string option \<Rightarrow> string \<Rightarrow> int \<Rightarrow> ('w, int) prog" where
  "sudp_mcast P device mcip port =
     bindp (callp (px_gethostbyname P mcip)) (\<lambda>h.
       case h of None \<Rightarrow> ret (-1)
       | Some mcaddr \<Rightarrow>
         if \<not> in_multicast (ntohl mcaddr) then ret (-1)
         else
           ret_on_error (callp (px_socket P SOCK_DGRAM)) (\<lambda>sock.
           ret_on_error (callp (px_setsockopt P sock SO_REUSEADDR)) (\<lambda>_.
           ret_on_error (callp (px_bind P sock (snd (sockaddr_set ANY_IP_TXT port)))) (\<lambda>_.
           bindp (case device of None \<Rightarrow> ret (INADDR_ANY, INADDR_ANY)
                  | Some d \<Rightarrow>
                      bindp (sockaddr_device2ip P d) (\<lambda>a.
                      bindp (sockaddr_device2ip P d) (\<lambda>b. ret (htonl a, htonl b)))) (\<lambda>(ifaddr, ifc).
           ret_on_error (callp (px_setsockopt P sock (IP_ADD_MEMBERSHIP mcaddr ifc))) (\<lambda>_.
           ret_on_error (callp (px_setsockopt P sock (IP_MULTICAST_IF ifaddr))) (\<lambda>_.
           ret_on_error (callp (px_setsockopt P sock (IP_MULTICAST_TTL 64))) (\<lambda>_.
           ret_on_error (callp (px_setsockopt P sock (IP_MULTICAST_LOOP 1))) (\<lambda>_.
             ret sock)))))))))"

definition sudp_mcsend :: "'w posix \<Rightarrow> int \<Rightarrow> string \<Rightarrow> string \<Rightarrow> int \<Rightarrow> ('w, int) prog" where
  "sudp_mcsend P sockfd data mcip port =
     callp (px_sendto P sockfd data (snd (sockaddr_set mcip port)))"

definition sudp_mclose :: "'w posix \<Rightarrow> int \<Rightarrow> string option \<Rightarrow> string \<Rightarrow> ('w, int) prog" where
  "sudp_mclose P sockfd device mcip =
     bindp (callp (px_gethostbyname P mcip)) (\<lambda>h.
       case h of None \<Rightarrow> ret (-1)
       | Some mcaddr \<Rightarrow>
         if \<not> in_multicast (ntohl mcaddr) then ret (-1)
         else
           bindp (case device of None \<Rightarrow> ret INADDR_ANY
                  | Some d \<Rightarrow> bindp (sockaddr_device2ip P d) (\<lambda>a. ret (htonl a))) (\<lambda>ifc.
           ret_on_error (callp (px_setsockopt P sockfd (IP_DROP_MEMBERSHIP mcaddr ifc))) (\<lambda>_.
           bindp (callp (px_close P sockfd)) (\<lambda>_.
             ret 0))))"

definition sudp_bcast :: "'w posix \<Rightarrow> string \<Rightarrow> int \<Rightarrow> ('w, int) prog" where
  "sudp_bcast P bcip port =
     ret_on_error (callp (px_socket P SOCK_DGRAM)) (\<lambda>sock.
     ret_on_error (callp (px_setsockopt P sock SO_BROADCAST)) (\<lambda>_.
     ret_on_error (callp (px_bind P sock (snd (sockaddr_set bcip port)))) (\<lambda>_.
       ret sock)))"

definition sudp_bcsend :: "'w posix \<Rightarrow> int \<Rightarrow> string \<Rightarrow> ('w, int) prog" where
  "sudp_bcsend P sockfd data =
     bindp (callp (px_getsockname P sockfd)) (\<lambda>(res, addr).
       if res < 0 then ret (-1) else callp (px_sendto P sockfd data addr))"

text \<open>
  \<open>sudp_trecv\<close>: the result, the bytes stored and the sender's address, of which the code
  clears address and port before it receives.
\<close>

definition sudp_trecv ::
    "'w posix \<Rightarrow> int \<Rightarrow> sockaddr_in \<Rightarrow> nat \<Rightarrow> int \<Rightarrow> ('w, int \<times> string \<times> sockaddr_in) prog" where
  "sudp_trecv P sockfd from len timeout =
     bindp (callp (sys_poll1 P sockfd POLLIN timeout)) (\<lambda>(res, revents).
       if res < 0 then ret (SOCK_ERROR, [], from)
       else if res = 0 then ret (SOCK_TIMEOUT, [], from)
       else
         let cleared = from\<lparr>sin_addr := 0, sin_port := 0\<rparr> in
         if has_flag revents POLLIN then
           bindp (callp (sys_recvfrom P sockfd len False)) (\<lambda>r.
             case r of
               Recv_Error _ \<Rightarrow> ret (SOCK_ERROR, [], cleared)
             | Recv_Data bs a \<Rightarrow>
                 ret (int (length bs), bs, case a of None \<Rightarrow> cleared | Some addr \<Rightarrow> addr))
         else if res = 0 then ret (SOCK_TIMEOUT, [], cleared)
         else ret (res, [], cleared))"

text \<open>Unlike \<open>stcp_getLocalIP\<close>, this one gives the address in network order.\<close>

definition sudp_getLocalIP :: "'w posix \<Rightarrow> int \<Rightarrow> ('w, 32 word) prog" where
  "sudp_getLocalIP P sockfd =
     bindp (callp (px_getsockname P sockfd)) (\<lambda>(res, addr).
       if res < 0 then ret (-1) else ret (sin_addr addr))"

definition sudp_getLocalPort :: "'w posix \<Rightarrow> int \<Rightarrow> ('w, int) prog" where
  "sudp_getLocalPort P sockfd =
     bindp (callp (px_getsockname P sockfd)) (\<lambda>(res, addr).
       if res < 0 then ret (-1) else ret (sockaddr_getPort addr))"

section \<open>Properties\<close>

text \<open>
  \<open>sudp_mcast\<close> refuses a group that is unknown or not a multicast address before it asks
  the system for anything but the name: it returns \<open>-1\<close> and the only system call made is the
  look-up. No socket is created.
\<close>

theorem sudp_mcast_rejects:
  assumes "\<And>a. fst (px_gethostbyname P mcip w) = Some a \<Longrightarrow> \<not> in_multicast (ntohl a)"
  shows "sudp_mcast P device mcip port w = Inr (-1, snd (px_gethostbyname P mcip w))"
  using assms
  by (cases "px_gethostbyname P mcip w") (auto simp: sudp_mcast_def bindp_def prog_simps split: option.splits)

theorem sudp_mcast_rejects_witness:
  "sudp_mcast null_posix None ''localhost'' 8765 () = Inr (-1, ())"
  by (subst sudp_mcast_rejects) (simp_all add: null_posix_def)

lemma runs_case_option [runs_simps]:
  "runs (case x of None \<Rightarrow> f | Some a \<Rightarrow> g a) s P = (case x of None \<Rightarrow> runs f s P | Some a \<Rightarrow> runs (g a) s P)"
  by (simp split: option.splits)

lemma safe_case_option [safe_simps]:
  "safe (case x of None \<Rightarrow> f | Some a \<Rightarrow> g a) s P = (case x of None \<Rightarrow> safe f s P | Some a \<Rightarrow> safe (g a) s P)"
  by (simp split: option.splits)

text \<open>
  A datagram socket reported by \<open>poll\<close> with an error but without \<open>POLLIN\<close> makes
  \<open>sudp_trecv\<close> return the positive answer of \<open>poll\<close>, which its documentation makes a number
  of bytes received, although it stored no byte and made no call to receive any.
\<close>

theorem sudp_trecv_spurious:
  assumes "sys_poll1 P fd POLLIN timeout w = ((n, revents), w1)"
    and "0 < n" and "\<not> has_flag revents POLLIN"
  shows "sudp_trecv P fd from len timeout w = Inr ((n, [], from\<lparr>sin_addr := 0, sin_port := 0\<rparr>), w1)"
  using assms by (simp add: sudp_trecv_def bindp_def prog_simps Let_def)

theorem sudp_trecv_spurious_witness:
  "sudp_trecv (null_posix\<lparr>px_poll := (\<lambda>_ _ w. ((1, [POLLERR]), w))\<rparr>) 3 zero_sockaddr 100 5 () =
     Inr ((1, [], zero_sockaddr\<lparr>sin_addr := 0, sin_port := 0\<rparr>), ())"
  by (rule sudp_trecv_spurious [where revents = POLLERR])
    (simp_all add: null_posix_def sys_poll1_def sys_poll_def has_flag_def)

end
