(* ===== verification/Watch_List.thy ===== *)
theory Watch_List
  imports Sbus_Posix
begin

text \<open>
  The contract between the registry of polled descriptors and the code that uses it: an ordered
  list of (descriptor, events) pairs, to which \<open>add\<close> appends and from which \<open>remove\<close> takes the
  first pair of a descriptor. Removing anything but the last pair of a full registry is outside
  the contract: the array is read past its end.
\<close>

fun drop_first :: "int \<Rightarrow> (int \<times> 'e) list \<Rightarrow> (int \<times> 'e) list" where
  "drop_first fd [] = []"
| "drop_first fd (e # es) = (if fst e = fd then es else e # drop_first fd es)"

lemma drop_first_notin [simp]: "fd \<notin> fst ` set es \<Longrightarrow> drop_first fd es = es"
  by (induction es) auto

lemma drop_first_append:
  "drop_first fd (es @ es') =
     (if fd \<in> fst ` set es then drop_first fd es @ es' else es @ drop_first fd es')"
  by (induction es) auto

definition removable :: "bool \<Rightarrow> int \<Rightarrow> (int \<times> 'e) list \<Rightarrow> bool" where
  "removable full fd es \<longleftrightarrow> \<not> full \<or> fd \<notin> fst ` set (butlast es)"

datatype watch_op = Watch_Add int "16 word" | Watch_Remove int

fun watch_valid :: "watch_op \<Rightarrow> bool" where
  "watch_valid (Watch_Add fd ev) \<longleftrightarrow> 0 < fd \<and> ev \<noteq> 0"
| "watch_valid (Watch_Remove fd) \<longleftrightarrow> 0 < fd"

text \<open>
  What a sequence of operations does to a list of at most \<open>cap\<close> pairs, where a full list makes
  room for five more: \<open>None\<close> when a removal overruns.
\<close>

fun watch_spec :: "nat \<Rightarrow> watch_op list \<Rightarrow> (int \<times> 16 word) list \<Rightarrow> (int \<times> 16 word) list option" where
  "watch_spec cap [] es = Some es"
| "watch_spec cap (Watch_Add fd ev # ops) es =
     watch_spec (if length es = cap then cap + 5 else cap) ops (es @ [(fd, ev)])"
| "watch_spec cap (Watch_Remove fd # ops) es =
     (if removable (length es = cap) fd es then watch_spec cap ops (drop_first fd es) else None)"

text \<open>The same sequence on an implementation.\<close>

fun run_watch ::
    "(int \<Rightarrow> 16 word \<Rightarrow> ('s, int) prog) \<Rightarrow> (int \<Rightarrow> ('s, int) prog) \<Rightarrow> watch_op list \<Rightarrow> ('s, unit) prog" where
  "run_watch add remove [] = ret ()"
| "run_watch add remove (Watch_Add fd ev # ops) = bindp (add fd ev) (\<lambda>_. run_watch add remove ops)"
| "run_watch add remove (Watch_Remove fd # ops) = bindp (remove fd) (\<lambda>_. run_watch add remove ops)"

locale watch_list =
  fixes add :: "int \<Rightarrow> 16 word \<Rightarrow> ('s, int) prog"
    and remove :: "int \<Rightarrow> ('s, int) prog"
    and entries :: "'s \<Rightarrow> (int \<times> 16 word) list"
    and capacity :: "'s \<Rightarrow> nat"
    and inv :: "'s \<Rightarrow> bool"
  assumes add_law: "inv s \<Longrightarrow> 0 < fd \<Longrightarrow> ev \<noteq> 0 \<Longrightarrow>
      runs (add fd ev) s (\<lambda>r s'. r = 0 \<and> inv s' \<and> entries s' = entries s @ [(fd, ev)] \<and>
        capacity s' = (if length (entries s) = capacity s then capacity s + 5 else capacity s))"
    and remove_law: "inv s \<Longrightarrow> 0 < fd \<Longrightarrow> removable (length (entries s) = capacity s) fd (entries s) \<Longrightarrow>
      runs (remove fd) s (\<lambda>r s'. r = 0 \<and> inv s' \<and> entries s' = drop_first fd (entries s) \<and>
        capacity s' = capacity s)"
    and remove_overrun: "inv s \<Longrightarrow> 0 < fd \<Longrightarrow>
      \<not> removable (length (entries s) = capacity s) fd (entries s) \<Longrightarrow> remove fd s = Inl Out_Of_Bounds"
begin

text \<open>A descriptor just added can always be taken out again, even from a full registry.\<close>

lemma add_then_remove:
  assumes "inv s" "0 < fd" "ev \<noteq> 0" "fd \<notin> fst ` set (entries s)"
  shows "runs (bindp (add fd ev) (\<lambda>_. remove fd)) s (\<lambda>r s'. r = 0 \<and> inv s' \<and> entries s' = entries s)"
  unfolding runs_bindp
proof (rule runs_mono [OF add_law [OF assms(1,2,3)]], elim conjE)
  fix r s1
  assume s1: "inv s1" "entries s1 = entries s @ [(fd, ev)]"
  then have "removable (length (entries s1) = capacity s1) fd (entries s1)"
    using assms(4) by (simp add: removable_def)
  from remove_law [OF s1(1) assms(2) this]
  show "runs (remove fd) s1 (\<lambda>r s'. r = 0 \<and> inv s' \<and> entries s' = entries s)"
    using s1 assms(4) by (auto elim!: runs_mono simp: drop_first_append)
qed

text \<open>Any sequence of valid operations does exactly what it does to the list.\<close>

lemma run_refines:
  assumes "inv s" "\<forall>op \<in> set ops. watch_valid op"
  shows "case watch_spec (capacity s) ops (entries s) of
      None \<Rightarrow> run_watch add remove ops s = Inl Out_Of_Bounds
    | Some es \<Rightarrow> \<exists>s'. run_watch add remove ops s = Inr ((), s') \<and> inv s' \<and> entries s' = es"
  using assms
proof (induction ops arbitrary: s)
  case Nil
  then show ?case
    by (simp add: ret_def)
next
  case (Cons op ops)
  show ?case
  proof (cases op)
    case (Watch_Add fd ev)
    then obtain s' where "add fd ev s = Inr (0, s')" "inv s'" "entries s' = entries s @ [(fd, ev)]"
      "capacity s' = (if length (entries s) = capacity s then capacity s + 5 else capacity s)"
      using add_law [of s fd ev] Cons.prems by (auto simp: runs_Inr)
    then have eqs: "run_watch add remove (op # ops) s = run_watch add remove ops s'"
      "watch_spec (capacity s) (op # ops) (entries s) = watch_spec (capacity s') ops (entries s')"
      using Watch_Add by (simp_all add: bindp_def)
    show ?thesis
      unfolding eqs using Cons.prems \<open>inv s'\<close> by (intro Cons.IH) auto
  next
    case op: (Watch_Remove fd)
    show ?thesis
    proof (cases "removable (length (entries s) = capacity s) fd (entries s)")
      case True
      then obtain s' where "remove fd s = Inr (0, s')" "inv s'" "entries s' = drop_first fd (entries s)"
        "capacity s' = capacity s"
        using remove_law [of s fd] Cons.prems op by (auto simp: runs_Inr)
      then have eqs: "run_watch add remove (op # ops) s = run_watch add remove ops s'"
        "watch_spec (capacity s) (op # ops) (entries s) = watch_spec (capacity s') ops (entries s')"
        using op True by (simp_all add: bindp_def)
      show ?thesis
        unfolding eqs using Cons.prems \<open>inv s'\<close> by (intro Cons.IH) auto
    next
      case False
      then show ?thesis
        using remove_overrun [of s fd] Cons.prems op by (simp add: bindp_def)
    qed
  qed
qed

end

end
