(* ===== verification/Poller.thy ===== *)
theory Poller
  imports Sudp Watch_List
begin

text \<open>
  The registry of descriptors to poll, twice in the source: spoll.c (marked obsolete there) and
  the class of SPoll.cpp that replaced it. Its state is an array of \<open>capacity\<close> entries of
  which the first \<open>size\<close> are in use and the rest are zero. The array pointer can be null: after
  a \<open>realloc\<close> that failed. Whether a \<open>realloc\<close> to some number of entries succeeds is the
  argument \<open>ra\<close>. Sizes are mathematical integers: the counters are bounded by the memory of
  the array, far below the range of \<open>int\<close>.

  The contract of both implementations is the locale \<open>watch_list\<close>.
\<close>

section \<open>State and the shared steps\<close>

record poller =
  pl_fds :: "pollfd list option"
  pl_size :: int
  pl_capacity :: int

abbreviation (input) INITIAL_CAPACITY :: nat where "INITIAL_CAPACITY \<equiv> 10"
abbreviation (input) GROW_SIZE :: nat where "GROW_SIZE \<equiv> 5"

definition with_fds :: "(pollfd list \<Rightarrow> (poller, 'a) prog) \<Rightarrow> (poller, 'a) prog" where
  "with_fds k = (\<lambda>p. case pl_fds p of None \<Rightarrow> Inl Null_Pointer | Some xs \<Rightarrow> k xs p)"

text \<open>The first index from \<open>i\<close> below \<open>n\<close> whose entry satisfies \<open>c\<close>: the loops of add and remove.\<close>

function scan_fds :: "pollfd list \<Rightarrow> (pollfd \<Rightarrow> bool) \<Rightarrow> int \<Rightarrow> int \<Rightarrow> fault + int option" where
  "scan_fds xs c i n =
     (if i < n then
        (case arr_get xs i of
           Inl f \<Rightarrow> Inl f
         | Inr e \<Rightarrow> if c e then Inr (Some i) else scan_fds xs c (i + 1) n)
      else Inr None)"
  by pat_completeness auto
termination
  by (relation "measure (\<lambda>(xs, c, i, n). nat (n - i))") auto

declare scan_fds.simps [simp del]

text \<open>The assertions every operation starts with.\<close>

definition assert_sizes :: "(poller, unit) prog" where
  "assert_sizes =
     bindp (assertp (\<lambda>p. 0 \<le> pl_size p)) (\<lambda>_.
       assertp (\<lambda>p. pl_size p \<le> pl_capacity p))"

definition assert_fds :: "(poller, unit) prog" where
  "assert_fds = bindp (assertp (\<lambda>p. pl_fds p \<noteq> None)) (\<lambda>_. assert_sizes)"

section \<open>SPoll.cpp\<close>

text \<open>
  \<open>realloc\<close> keeps the \<open>capacity\<close> entries there are; the \<open>GROW_SIZE\<close> new ones are cleared at
  once by \<open>bzero\<close>. When it fails the pointer is overwritten with null.
\<close>

definition SPoll_grow :: "(int \<Rightarrow> bool) \<Rightarrow> (poller, int) prog" where
  "SPoll_grow ra =
     bindp assert_fds (\<lambda>_.
     bindp (getp pl_capacity) (\<lambda>capacity.
     let newcapacity = int GROW_SIZE + capacity in
       if \<not> ra newcapacity then
         bindp (modp (\<lambda>p. p\<lparr>pl_fds := None\<rparr>)) (\<lambda>_. ret (-1))
       else
         with_fds (\<lambda>xs.
         bindp (modp (\<lambda>p. p\<lparr>pl_fds := Some (take (nat capacity) xs @ replicate GROW_SIZE zero_pollfd),
                            pl_capacity := newcapacity\<rparr>)) (\<lambda>_. ret 0))))"

definition SPoll_removeit :: "int \<Rightarrow> (poller, int) prog" where
  "SPoll_removeit i =
     bindp assert_fds (\<lambda>_.
     bindp (assertp (\<lambda>p. 0 \<le> i \<and> i \<le> pl_capacity p)) (\<lambda>_.
     bindp (getp pl_size) (\<lambda>size.
     with_fds (\<lambda>xs.
     bindp (liftp (arr_get xs i)) (\<lambda>_.
     bindp (liftp (if i + 1 < size then arr_move xs i (i + 1) (size - i)
                   else arr_set xs i zero_pollfd)) (\<lambda>ys.
     bindp (modp (\<lambda>p. p\<lparr>pl_fds := Some ys, pl_size := size - 1\<rparr>)) (\<lambda>_.
       ret 0)))))))"

text \<open>The constructor; its argument says whether the allocation succeeds.\<close>

definition SPoll_new :: "bool \<Rightarrow> fault + poller" where
  "SPoll_new alloc =
     (if \<not> alloc then Inl (Uncaught (''Could not create poll array for SPoll object'' @ [CHR 0x0A]))
      else Inr \<lparr>pl_fds = Some (replicate INITIAL_CAPACITY zero_pollfd),
                pl_size = 0, pl_capacity = int INITIAL_CAPACITY\<rparr>)"

fun SPoll_clear :: "nat \<Rightarrow> int \<Rightarrow> (poller, unit) prog" where
  "SPoll_clear 0 i = ret ()"
| "SPoll_clear (Suc n) i =
     with_fds (\<lambda>xs.
     bindp (liftp (arr_get xs i)) (\<lambda>e.
     bindp (if pf_fd e \<noteq> 0 then SPoll_removeit i else ret 0) (\<lambda>_.
       SPoll_clear n (i + 1))))"

text \<open>The destructor: the loop runs \<open>capacity\<close> times.\<close>

definition SPoll_delete :: "(poller, unit) prog" where
  "SPoll_delete =
     bindp assert_sizes (\<lambda>_.
     bindp (getp pl_capacity) (\<lambda>capacity.
     bindp (SPoll_clear (nat capacity) 0) (\<lambda>_.
       modp (\<lambda>p. p\<lparr>pl_fds := None\<rparr>))))"

definition SPoll_add :: "(int \<Rightarrow> bool) \<Rightarrow> int \<Rightarrow> 16 word \<Rightarrow> (poller, int) prog" where
  "SPoll_add ra fd events =
     bindp (assertp (\<lambda>_. 0 < fd)) (\<lambda>_.
     bindp (assertp (\<lambda>_. events \<noteq> 0)) (\<lambda>_.
     bindp assert_fds (\<lambda>_.
     bindp (getp (\<lambda>p. pl_capacity p \<le> pl_size p)) (\<lambda>full.
     ret_on_error (if full then SPoll_grow ra else ret 0) (\<lambda>_.
     bindp (getp (\<lambda>p. (pl_size p, pl_capacity p))) (\<lambda>(size, capacity).
     with_fds (\<lambda>xs.
     bindp (liftp (scan_fds xs (\<lambda>e. pf_fd e = 0) size capacity)) (\<lambda>r.
       case r of
         None \<Rightarrow> ret (-1)
       | Some i \<Rightarrow>
           bindp (modp (\<lambda>p. p\<lparr>pl_fds := Some (xs[nat i := (xs ! nat i)\<lparr>pf_fd := fd, pf_events := events\<rparr>]),
                              pl_size := size + 1\<rparr>)) (\<lambda>_. ret 0)))))))))"

definition SPoll_remove :: "int \<Rightarrow> (poller, int) prog" where
  "SPoll_remove fd =
     bindp assert_fds (\<lambda>_.
     bindp (assertp (\<lambda>_. 0 < fd)) (\<lambda>_.
     bindp (getp pl_capacity) (\<lambda>capacity.
     with_fds (\<lambda>xs.
     bindp (liftp (scan_fds xs (\<lambda>e. pf_fd e = fd) 0 capacity)) (\<lambda>r.
       case r of
         None \<Rightarrow> ret 0
       | Some i \<Rightarrow> bindp (SPoll_removeit i) (\<lambda>_. ret 0))))))"

text \<open>\<open>poll\<close> on a null array with a positive count is an error (EFAULT), not a crash.\<close>

definition SPoll_doPoll :: "'w posix \<Rightarrow> int \<Rightarrow> (poller \<times> 'w, int) prog" where
  "SPoll_doPoll P timeout =
     bindp (assertp (\<lambda>(p, w). 0 \<le> pl_size p)) (\<lambda>_.
     bindp (assertp (\<lambda>(p, w). pl_size p \<le> pl_capacity p)) (\<lambda>_.
     bindp (assertp (\<lambda>_. 0 \<le> timeout)) (\<lambda>_.
     (\<lambda>(p, w).
        case pl_fds p of
          None \<Rightarrow> Inr (-1, (p, w))
        | Some xs \<Rightarrow>
            (case sys_poll P (take (nat (pl_size p)) xs) timeout w of
               ((pollres, ys), w') \<Rightarrow>
                 let p' = p\<lparr>pl_fds := Some (ys @ drop (nat (pl_size p)) xs)\<rparr> in
                 if pollres < 0 then
                   (if px_errno P w' = EINTR then Inr (0, (p', w')) else Inr (-1, (p', w')))
                 else Inr (pollres, (p', w')))))))"

text \<open>\<open>getpolls\<close>: the size and the array (its two log lines are not modelled).\<close>

definition SPoll_getpolls :: "(poller, int \<times> pollfd list option) prog" where
  "SPoll_getpolls = bindp assert_sizes (\<lambda>_. getp (\<lambda>p. (pl_size p, pl_fds p)))"

section \<open>spoll.c\<close>

text \<open>
  The C interface gets the object as a pointer, here an \<open>option\<close>. Its static functions work on
  the object.
\<close>

definition on_poller :: "(poller, 'a) prog \<Rightarrow> (poller option, 'a) prog" where
  "on_poller m = (\<lambda>s. case s of None \<Rightarrow> Inl Null_Pointer
     | Some p \<Rightarrow> (case m p of Inl f \<Rightarrow> Inl f | Inr (a, p') \<Rightarrow> Inr (a, Some p')))"

definition spoll_grow :: "(int \<Rightarrow> bool) \<Rightarrow> (poller option, int) prog" where
  "spoll_grow ra =
     bindp (assertp (\<lambda>s. s \<noteq> None)) (\<lambda>_.
     on_poller (
       bindp assert_fds (\<lambda>_.
       bindp (getp pl_capacity) (\<lambda>capacity.
       let newcapacity = int GROW_SIZE + capacity in
         if \<not> ra newcapacity then
           bindp (modp (\<lambda>p. p\<lparr>pl_fds := None\<rparr>)) (\<lambda>_. ret (-1))
         else
           with_fds (\<lambda>xs.
           bindp (modp (\<lambda>p. p\<lparr>pl_fds := Some (take (nat capacity) xs @ replicate GROW_SIZE zero_pollfd),
                              pl_capacity := newcapacity\<rparr>)) (\<lambda>_. ret 0))))))"

definition spoll_removeit :: "int \<Rightarrow> (poller option, unit) prog" where
  "spoll_removeit i =
     bindp (assertp (\<lambda>s. s \<noteq> None)) (\<lambda>_.
     on_poller (
       bindp assert_fds (\<lambda>_.
       bindp (assertp (\<lambda>p. 0 \<le> i \<and> i \<le> pl_capacity p)) (\<lambda>_.
       bindp (getp pl_size) (\<lambda>size.
       with_fds (\<lambda>xs.
       bindp (liftp (arr_get xs i)) (\<lambda>_.
       bindp (liftp (if i + 1 < size then arr_move xs i (i + 1) (size - i)
                     else arr_set xs i zero_pollfd)) (\<lambda>ys.
         modp (\<lambda>p. p\<lparr>pl_fds := Some ys, pl_size := size - 1\<rparr>)))))))))"

text \<open>\<open>spoll_create\<close>: the two allocations may fail, and then the result is null.\<close>

definition spoll_create :: "bool \<Rightarrow> bool \<Rightarrow> poller option" where
  "spoll_create alloc1 alloc2 =
     (if \<not> alloc1 then None
      else if \<not> alloc2 then None
      else Some \<lparr>pl_fds = Some (replicate INITIAL_CAPACITY zero_pollfd),
                 pl_size = 0, pl_capacity = int INITIAL_CAPACITY\<rparr>)"

definition spoll_add :: "(int \<Rightarrow> bool) \<Rightarrow> int \<Rightarrow> 16 word \<Rightarrow> (poller option, int) prog" where
  "spoll_add ra fd events =
     bindp (assertp (\<lambda>s. s \<noteq> None)) (\<lambda>_.
     bindp (assertp (\<lambda>_. 0 < fd)) (\<lambda>_.
     bindp (assertp (\<lambda>_. events \<noteq> 0)) (\<lambda>_.
     bindp (on_poller assert_fds) (\<lambda>_.
     bindp (on_poller (getp (\<lambda>p. pl_capacity p \<le> pl_size p))) (\<lambda>full.
     ret_on_error (if full then spoll_grow ra else ret 0) (\<lambda>_.
     on_poller (
     bindp (getp (\<lambda>p. (pl_size p, pl_capacity p))) (\<lambda>(size, capacity).
     with_fds (\<lambda>xs.
     bindp (liftp (scan_fds xs (\<lambda>e. pf_fd e = 0) size capacity)) (\<lambda>r.
       case r of
         None \<Rightarrow> ret (-1)
       | Some i \<Rightarrow>
           bindp (modp (\<lambda>p. p\<lparr>pl_fds := Some (xs[nat i := (xs ! nat i)\<lparr>pf_fd := fd, pf_events := events\<rparr>]),
                              pl_size := size + 1\<rparr>)) (\<lambda>_. ret 0)))))))))))"

definition spoll_remove :: "int \<Rightarrow> (poller option, int) prog" where
  "spoll_remove fd =
     bindp (assertp (\<lambda>s. s \<noteq> None)) (\<lambda>_.
     bindp (on_poller assert_fds) (\<lambda>_.
     bindp (assertp (\<lambda>_. 0 < fd)) (\<lambda>_.
     bindp (on_poller (with_fds (\<lambda>xs. bindp (getp pl_capacity) (\<lambda>capacity.
              liftp (scan_fds xs (\<lambda>e. pf_fd e = fd) 0 capacity))))) (\<lambda>r.
       case r of
         None \<Rightarrow> ret 0
       | Some i \<Rightarrow> bindp (spoll_removeit i) (\<lambda>_. ret 0)))))"

definition spoll_poll :: "'w posix \<Rightarrow> int \<Rightarrow> (poller option \<times> 'w, int) prog" where
  "spoll_poll P timeout =
     bindp (assertp (\<lambda>(s, w). s \<noteq> None)) (\<lambda>_.
     (\<lambda>(s, w).
        case s of None \<Rightarrow> Inl Null_Pointer
        | Some p \<Rightarrow>
          if \<not> (0 \<le> pl_size p \<and> pl_size p \<le> pl_capacity p \<and> 0 \<le> timeout) then Inl Exit_Failure
          else
            (case pl_fds p of
               None \<Rightarrow> Inr (-1, (Some p, w))
             | Some xs \<Rightarrow>
                 (case sys_poll P (take (nat (pl_size p)) xs) timeout w of
                    ((pollres, ys), w') \<Rightarrow>
                      let p' = Some (p\<lparr>pl_fds := Some (ys @ drop (nat (pl_size p)) xs)\<rparr>) in
                      if pollres < 0 then
                        (if px_errno P w' = EINTR then Inr (0, (p', w')) else Inr (-1, (p', w')))
                      else Inr (pollres, (p', w'))))))"

definition spoll_getpolls :: "(poller option, int \<times> pollfd list option) prog" where
  "spoll_getpolls =
     bindp (assertp (\<lambda>s. s \<noteq> None)) (\<lambda>_.
     on_poller (bindp assert_sizes (\<lambda>_. getp (\<lambda>p. (pl_size p, pl_fds p)))))"

fun spoll_clear :: "nat \<Rightarrow> int \<Rightarrow> (poller option, unit) prog" where
  "spoll_clear 0 i = ret ()"
| "spoll_clear (Suc n) i =
     bindp (on_poller (with_fds (\<lambda>xs. liftp (arr_get xs i)))) (\<lambda>e.
     bindp (if pf_fd e \<noteq> 0 then spoll_removeit i else ret ()) (\<lambda>_.
       spoll_clear n (i + 1)))"

text \<open>\<open>spoll_dispose\<close> frees the array and the object.\<close>

definition spoll_dispose :: "(poller option, int) prog" where
  "spoll_dispose =
     bindp (assertp (\<lambda>s. s \<noteq> None)) (\<lambda>_.
     bindp (on_poller (bindp assert_sizes (\<lambda>_. getp pl_capacity))) (\<lambda>capacity.
     bindp (spoll_clear (nat capacity) 0) (\<lambda>_.
     bindp (modp (\<lambda>_. None)) (\<lambda>_. ret 0))))"

section \<open>The invariant\<close>

text \<open>
  A well-formed registry has its entries in front and zeroed cells behind them, both counted
  correctly, positive descriptors, events to wait for, and a capacity of \<open>10 + 5 k\<close> cells.
\<close>

definition poller_of :: "pollfd list \<Rightarrow> nat \<Rightarrow> poller" where
  "poller_of es k =
     \<lparr>pl_fds = Some (es @ replicate k zero_pollfd), pl_size = int (length es),
      pl_capacity = int (length es + k)\<rparr>"

definition good_entry :: "pollfd \<Rightarrow> bool" where
  "good_entry e \<longleftrightarrow> 0 < pf_fd e \<and> pf_events e \<noteq> 0"

definition poller_inv :: "poller \<Rightarrow> bool" where
  "poller_inv p \<longleftrightarrow>
     (\<exists>es k. p = poller_of es k \<and> (\<forall>e \<in> set es. good_entry e) \<and>
        10 \<le> length es + k \<and> (length es + k) mod 5 = 0)"

text \<open>What the registry means: the descriptors with their events, in the order of the array.\<close>

definition poller_entries :: "poller \<Rightarrow> (int \<times> 16 word) list" where
  "poller_entries p =
     (case pl_fds p of None \<Rightarrow> []
      | Some xs \<Rightarrow> map (\<lambda>e. (pf_fd e, pf_events e)) (take (nat (pl_size p)) xs))"

definition poller_cells :: "poller \<Rightarrow> nat" where
  "poller_cells p = nat (pl_capacity p)"

lemma poller_invE:
  assumes "poller_inv p"
  obtains es k where "p = poller_of es k" "\<forall>e \<in> set es. good_entry e"
    "10 \<le> length es + k" "(length es + k) mod 5 = 0"
  using assms by (auto simp: poller_inv_def)

lemma poller_invI:
  "\<forall>e \<in> set es. good_entry e \<Longrightarrow> 10 \<le> length es + k \<Longrightarrow> (length es + k) mod 5 = 0 \<Longrightarrow>
   poller_inv (poller_of es k)"
  unfolding poller_inv_def by (rule exI [of _ es], rule exI [of _ k]) simp

lemma poller_of_sel [simp]:
  "pl_fds (poller_of es k) = Some (es @ replicate k zero_pollfd)"
  "pl_size (poller_of es k) = int (length es)"
  "pl_capacity (poller_of es k) = int (length es + k)"
  by (simp_all add: poller_of_def)

lemma poller_entries_of [simp]:
  "poller_entries (poller_of es k) = map (\<lambda>e. (pf_fd e, pf_events e)) es"
  by (simp add: poller_entries_def)

lemma poller_cells_of [simp]: "poller_cells (poller_of es k) = length es + k"
  by (simp add: poller_cells_def nat_int_add)

lemma asserts_of [simp]:
  "assert_sizes (poller_of es k) = Inr ((), poller_of es k)"
  "assert_fds (poller_of es k) = Inr ((), poller_of es k)"
  by (simp_all add: assert_sizes_def assert_fds_def bindp_def assertp_def)

lemmas poller_unfold =
  bindp_def prog_simps with_fds_def poller_of_def assert_fds_def assert_sizes_def Let_def

subsection \<open>Scanning the array\<close>

lemma arr_get_append [simp]: "arr_get (xs @ y # ys) (int (length xs)) = Inr y"
  by (simp add: arr_get_def)

lemma scan_hit:
  assumes "\<forall>x \<in> set es. \<not> c x" "c e" "int (length pre + length es) < n"
  shows "scan_fds (pre @ es @ e # post) c (int (length pre)) n = Inr (Some (int (length pre + length es)))"
  using assms
proof (induction es arbitrary: pre)
  case Nil
  then show ?case
    by (simp add: scan_fds.simps [of _ _ "int (length pre)"])
next
  case (Cons x es)
  then have "scan_fds ((pre @ [x]) @ es @ e # post) c (int (length (pre @ [x]))) n =
      Inr (Some (int (length (pre @ [x]) + length es)))"
    by (intro Cons.IH) auto
  then show ?case
    using Cons.prems by (subst scan_fds.simps) (simp add: add.commute)
qed

lemma scan_miss:
  assumes "\<forall>x \<in> set es. \<not> c x"
  shows "scan_fds (pre @ es) c (int (length pre)) (int (length pre + length es)) = Inr None"
  using assms
proof (induction es arbitrary: pre)
  case Nil
  then show ?case
    by (subst scan_fds.simps) simp
next
  case (Cons x es)
  then have "scan_fds ((pre @ [x]) @ es) c (int (length (pre @ [x])))
      (int (length (pre @ [x]) + length es)) = Inr None"
    by (intro Cons.IH) auto
  then show ?case
    using Cons.prems by (subst scan_fds.simps) (simp add: add.commute)
qed

subsection \<open>Adding\<close>

definition new_entry :: "int \<Rightarrow> 16 word \<Rightarrow> pollfd" where
  "new_entry fd events = \<lparr>pf_fd = fd, pf_events = events, pf_revents = 0\<rparr>"

lemma zero_pollfd_sel [simp]: "pf_fd zero_pollfd = 0" "pf_events zero_pollfd = 0" "pf_revents zero_pollfd = 0"
  by (simp_all add: zero_pollfd_def)

lemma SPoll_grow_of:
  "SPoll_grow ra (poller_of es k) =
     (if ra (int (length es + k) + 5) then Inr (0, poller_of es (k + 5))
      else Inr (-1, (poller_of es k)\<lparr>pl_fds := None\<rparr>))"
  by (simp add: SPoll_grow_def poller_unfold replicate_add add.commute nat_int_add)

lemma SPoll_add_free:
  assumes "0 < fd" "events \<noteq> 0"
  shows "SPoll_add ra fd events (poller_of es (Suc k)) = Inr (0, poller_of (es @ [new_entry fd events]) k)"
proof -
  have "scan_fds (es @ replicate (Suc k) zero_pollfd) (\<lambda>e. pf_fd e = 0) (int (length es))
      (int (length es + Suc k)) = Inr (Some (int (length es)))"
    using scan_hit [of "[]" "\<lambda>e. pf_fd e = 0" zero_pollfd es "int (length es + Suc k)"
        "replicate k zero_pollfd"] by simp
  then show ?thesis
    using assms by (simp add: SPoll_add_def ret_on_error_def poller_unfold new_entry_def
        nth_append list_update_append)
qed

lemma SPoll_add_of:
  assumes "0 < fd" "events \<noteq> 0"
  shows "SPoll_add ra fd events (poller_of es k) =
    (if k \<noteq> 0 then Inr (0, poller_of (es @ [new_entry fd events]) (k - 1))
     else if ra (int (length es) + 5) then Inr (0, poller_of (es @ [new_entry fd events]) 4)
     else Inr (-1, (poller_of es 0)\<lparr>pl_fds := None\<rparr>))"
proof (cases k)
  case (Suc j)
  then show ?thesis
    using assms by (simp add: SPoll_add_free)
next
  case 0
  have "SPoll_add ra fd events (poller_of es 0) = SPoll_add ra fd events (poller_of es 5)"
    if "ra (int (length es) + 5)"
    using assms that by (simp add: SPoll_add_def ret_on_error_def bindp_def prog_simps SPoll_grow_of)
  moreover have "SPoll_add ra fd events (poller_of es 0) = Inr (-1, (poller_of es 0)\<lparr>pl_fds := None\<rparr>)"
    if "\<not> ra (int (length es) + 5)"
    using assms that by (simp add: SPoll_add_def ret_on_error_def bindp_def prog_simps SPoll_grow_of)
  moreover have "SPoll_add ra fd events (poller_of es 5) = Inr (0, poller_of (es @ [new_entry fd events]) 4)"
    using SPoll_add_free [OF assms, of ra es 4] by (simp add: eval_nat_numeral)
  ultimately show ?thesis
    using 0 by auto
qed

subsection \<open>Removing\<close>

definition remove_nth :: "nat \<Rightarrow> 'a list \<Rightarrow> 'a list" where
  "remove_nth i xs = take i xs @ drop (Suc i) xs"

lemma remove_nth_append [simp]: "remove_nth (length xs) (xs @ y # ys) = xs @ ys"
  by (simp add: remove_nth_def)

lemma SPoll_removeit_of:
  assumes "i < length es"
  shows "SPoll_removeit (int i) (poller_of es k) =
    (if Suc i < length es \<and> k = 0 then Inl Out_Of_Bounds
     else Inr (0, poller_of (remove_nth i es) (Suc k)))"
proof -
  have len: "length (remove_nth i es) = length es - 1"
    using assms by (simp add: remove_nth_def)
  show ?thesis
  proof (cases "Suc i < length es")
    case False
    then have i: "length es = Suc i"
      using assms by simp
    then have "remove_nth i es = take i es"
      by (simp add: remove_nth_def)
    moreover have "(es @ replicate k zero_pollfd)[i := zero_pollfd] = take i es @ replicate (Suc k) zero_pollfd"
      using i by (simp add: upd_conv_take_nth_drop)
    ultimately show ?thesis
      using i assms len
      by (simp add: SPoll_removeit_def poller_unfold arr_get_def arr_set_def)
  next
    case True
    have "arr_move (es @ replicate k zero_pollfd) (int i) (int i + 1) (int (length es) - int i) =
        (if k = 0 then Inl Out_Of_Bounds else Inr (remove_nth i es @ replicate (Suc k) zero_pollfd))"
    proof (cases k)
      case 0
      then show ?thesis
        using True by (simp add: arr_move_def)
    next
      case (Suc j)
      have [simp]: "nat (int (length es) - int i) = length es - i" "nat (int i + 1) = Suc i"
        using assms by linarith+
      have [simp]: "length es - i - (length es - Suc i) = 1"
        using True by simp
      show ?thesis
        using True Suc by (simp add: arr_move_def remove_nth_def take_Cons')
    qed
    then show ?thesis
      using True assms len
      by (auto simp: SPoll_removeit_def poller_unfold arr_get_def)
  qed
qed

text \<open>The first entry for a descriptor, if it has one.\<close>

fun first_for :: "int \<Rightarrow> pollfd list \<Rightarrow> nat option" where
  "first_for fd [] = None"
| "first_for fd (e # es) = (if pf_fd e = fd then Some 0 else map_option Suc (first_for fd es))"

lemma first_for_None: "first_for fd es = None \<longleftrightarrow> (\<forall>e \<in> set es. pf_fd e \<noteq> fd)"
  by (induction es) auto

lemma first_for_append:
  "\<forall>x \<in> set es1. pf_fd x \<noteq> fd \<Longrightarrow> pf_fd e = fd \<Longrightarrow> first_for fd (es1 @ e # es2) = Some (length es1)"
  by (induction es1) auto

lemma first_for_cases:
  obtains "first_for fd es = None" "\<forall>e \<in> set es. pf_fd e \<noteq> fd"
  | es1 e es2 where "first_for fd es = Some (length es1)" "es = es1 @ e # es2" "pf_fd e = fd"
      "\<forall>x \<in> set es1. pf_fd x \<noteq> fd"
proof (cases "\<exists>e \<in> set es. pf_fd e = fd")
  case False
  then show thesis
    by (intro that(1)) (auto simp: first_for_None)
next
  case True
  then obtain es1 e es2 where "es = es1 @ e # es2" "pf_fd e = fd" "\<forall>x \<in> set es1. pf_fd x \<noteq> fd"
    by (rule split_list_first_propE) auto
  then show thesis
    by (intro that(2) [of es1 e es2]) (auto intro: first_for_append)
qed

lemma SPoll_remove_of:
  assumes "0 < fd"
  shows "SPoll_remove fd (poller_of es k) =
    (case first_for fd es of
       None \<Rightarrow> Inr (0, poller_of es k)
     | Some i \<Rightarrow> if Suc i < length es \<and> k = 0 then Inl Out_Of_Bounds
                else Inr (0, poller_of (remove_nth i es) (Suc k)))"
proof (cases rule: first_for_cases [of fd es])
  case 1
  have "\<forall>e \<in> set (es @ replicate k zero_pollfd). pf_fd e \<noteq> fd"
    using 1 assms by (auto simp: set_replicate_conv_if)
  from scan_miss [OF this, of "[]"]
  have "scan_fds (es @ replicate k zero_pollfd) (\<lambda>e. pf_fd e = fd) 0 (int (length es + k)) = Inr None"
    by simp
  then show ?thesis
    using 1 assms by (simp add: SPoll_remove_def bindp_def prog_simps with_fds_def)
next
  case (2 es1 e es2)
  have "scan_fds (es @ replicate k zero_pollfd) (\<lambda>e. pf_fd e = fd) 0 (int (length es + k)) =
      Inr (Some (int (length es1)))"
    using scan_hit [of es1 "\<lambda>e. pf_fd e = fd" e "[]" "int (length es + k)" "es2 @ replicate k zero_pollfd"] 2
    by simp
  then have "SPoll_remove fd (poller_of es k) =
      bindp (SPoll_removeit (int (length es1))) (\<lambda>_. ret 0) (poller_of es k)"
    using assms by (simp add: SPoll_remove_def bindp_def prog_simps with_fds_def)
  also have "\<dots> = SPoll_removeit (int (length es1)) (poller_of es k)"
    using SPoll_removeit_of [of "length es1" es k] 2 by (simp add: bindp_def prog_simps)
  finally show ?thesis
    using SPoll_removeit_of [of "length es1" es k] 2 by simp
qed

section \<open>The contract, for SPoll\<close>

lemma drop_first_entries:
  "map (\<lambda>e. (pf_fd e, pf_events e)) (case first_for fd es of None \<Rightarrow> es | Some i \<Rightarrow> remove_nth i es) =
   drop_first fd (map (\<lambda>e. (pf_fd e, pf_events e)) es)"
proof (cases rule: first_for_cases [of fd es])
  case 1
  then show ?thesis
    by (subst drop_first_notin) auto
next
  case (2 es1 e es2)
  then have "fd \<notin> fst ` set (map (\<lambda>e. (pf_fd e, pf_events e)) es1)"
    by auto
  then show ?thesis
    using 2 by (simp add: drop_first_append)
qed

lemma first_for_removable:
  "removable full fd (map (\<lambda>e. (pf_fd e, pf_events e)) es) \<longleftrightarrow>
     \<not> (full \<and> (\<exists>i. first_for fd es = Some i \<and> Suc i < length es))"
proof (cases rule: first_for_cases [of fd es])
  case 1
  then have "fd \<notin> fst ` set (butlast (map (\<lambda>e. (pf_fd e, pf_events e)) es))"
    by (auto dest!: in_set_butlastD)
  then show ?thesis
    using 1 by (simp add: removable_def)
next
  case (2 es1 e es2)
  then show ?thesis
    by (cases "es2 = []") (auto simp: removable_def butlast_append map_butlast [symmetric])
qed

lemma new_entry_sel [simp]: "pf_fd (new_entry fd ev) = fd" "pf_events (new_entry fd ev) = ev"
  by (simp_all add: new_entry_def)

lemma SPoll_add_law:
  assumes "poller_inv p" "0 < fd" "ev \<noteq> 0" "\<And>n. ra n"
  shows "runs (SPoll_add ra fd ev) p
    (\<lambda>r p'. r = 0 \<and> poller_inv p' \<and> poller_entries p' = poller_entries p @ [(fd, ev)] \<and>
      poller_cells p' = (if length (poller_entries p) = poller_cells p then poller_cells p + 5 else poller_cells p))"
proof -
  from assms(1) obtain es k where p: "p = poller_of es k" "\<forall>e \<in> set es. good_entry e"
    "10 \<le> length es + k" "(length es + k) mod 5 = 0"
    by (rule poller_invE)
  have good: "good_entry (new_entry fd ev)"
    using assms by (simp add: good_entry_def)
  let ?es = "es @ [new_entry fd ev]"
  have "poller_inv (poller_of ?es (k - 1))" if "k \<noteq> 0"
    using p good that by (intro poller_invI) auto
  moreover have "poller_inv (poller_of ?es 4)" if "k = 0"
    using p good that by (intro poller_invI) auto
  ultimately show ?thesis
    using assms by (simp add: runs_def p(1) SPoll_add_of)
qed

lemma set_remove_nth: "set (remove_nth i xs) \<subseteq> set xs"
  by (auto simp: remove_nth_def dest: in_set_takeD in_set_dropD)

lemma SPoll_remove_laws:
  assumes "poller_inv p" "0 < fd"
  shows "removable (length (poller_entries p) = poller_cells p) fd (poller_entries p) \<Longrightarrow>
      runs (SPoll_remove fd) p
        (\<lambda>r p'. r = 0 \<and> poller_inv p' \<and> poller_entries p' = drop_first fd (poller_entries p) \<and>
          poller_cells p' = poller_cells p)"
    and "\<not> removable (length (poller_entries p) = poller_cells p) fd (poller_entries p) \<Longrightarrow> SPoll_remove fd p = Inl Out_Of_Bounds"
proof -
  from assms(1) obtain es k where p: "p = poller_of es k" "\<forall>e \<in> set es. good_entry e"
    "10 \<le> length es + k" "(length es + k) mod 5 = 0"
    by (rule poller_invE)
  show "runs (SPoll_remove fd) p
      (\<lambda>r p'. r = 0 \<and> poller_inv p' \<and> poller_entries p' = drop_first fd (poller_entries p) \<and>
          poller_cells p' = poller_cells p)"
    if rem: "removable (length (poller_entries p) = poller_cells p) fd (poller_entries p)"
  proof (cases "first_for fd es")
    case None
    then show ?thesis
      using assms drop_first_entries [where fd = fd and es = es]
      by (simp add: runs_def p(1) SPoll_remove_of)
  next
    case (Some i)
    then have i: "i < length es"
      by (cases rule: first_for_cases [of fd es]) auto
    have len: "length (remove_nth i es) + Suc k = length es + k"
      using i by (simp add: remove_nth_def)
    have "poller_inv (poller_of (remove_nth i es) (Suc k))"
      using p set_remove_nth [of i es] by (intro poller_invI) (auto simp only: len)
    then show ?thesis
      using Some assms rem len drop_first_entries [where fd = fd and es = es]
      by (auto simp: runs_def p(1) SPoll_remove_of first_for_removable)
  qed
  show "SPoll_remove fd p = Inl Out_Of_Bounds"
    if "\<not> removable (length (poller_entries p) = poller_cells p) fd (poller_entries p)"
    using that assms by (auto simp: p(1) SPoll_remove_of first_for_removable)
qed

interpretation spoll_cpp: watch_list "SPoll_add (\<lambda>_. True)" SPoll_remove poller_entries poller_cells poller_inv
  by unfold_locales (rule SPoll_add_law SPoll_remove_laws; simp)+

section \<open>spoll.c does what SPoll.cpp does\<close>

lemma on_poller_None [simp]: "on_poller m None = Inl Null_Pointer"
  by (simp add: on_poller_def)

lemma on_poller_Some:
  "on_poller m (Some p) = (case m p of Inl f \<Rightarrow> Inl f | Inr (a, p') \<Rightarrow> Inr (a, Some p'))"
  by (simp add: on_poller_def)

lemma on_poller_bindp:
  "bindp (on_poller m) (\<lambda>a. on_poller (f a)) (Some p) = on_poller (bindp m f) (Some p)"
  by (auto simp: on_poller_Some bindp_def split: sum.splits)

lemma bindp_on_poller_cong:
  assumes "m (Some p) = on_poller m' (Some p)" "\<And>a p'. f a (Some p') = on_poller (f' a) (Some p')"
  shows "bindp m f (Some p) = on_poller (bindp m' f') (Some p)"
  using assms by (auto simp: on_poller_Some bindp_def split: sum.splits)

lemma on_poller_ret: "ret a (Some p) = on_poller (ret a) (Some p)"
  by (simp add: on_poller_Some ret_def)

lemma on_poller_assertp: "assertp (\<lambda>_. c) (Some p) = on_poller (assertp (\<lambda>_. c)) (Some p)"
  by (simp add: on_poller_Some assertp_def)

lemma assert_not_null: "bindp (assertp (\<lambda>s. s \<noteq> None)) f (Some p) = f () (Some p)"
  by (simp add: bindp_def assertp_def)

lemma spoll_grow_eq: "spoll_grow ra (Some p) = on_poller (SPoll_grow ra) (Some p)"
  unfolding spoll_grow_def SPoll_grow_def assert_not_null by (rule refl)

lemma spoll_removeit_eq:
  "spoll_removeit i (Some p) = on_poller (bindp (SPoll_removeit i) (\<lambda>_. ret ())) (Some p)"
  unfolding spoll_removeit_def SPoll_removeit_def assert_not_null
  by (auto simp: on_poller_Some bindp_def prog_simps with_fds_def split: sum.splits option.splits)

lemma spoll_add_eq: "spoll_add ra fd ev (Some p) = on_poller (SPoll_add ra fd ev) (Some p)"
  unfolding spoll_add_def SPoll_add_def ret_on_error_def assert_not_null
  by (intro bindp_on_poller_cong on_poller_assertp refl)
     (auto simp: spoll_grow_eq on_poller_ret split: if_splits intro!: bindp_on_poller_cong)

lemma bindp_swap_get: "with_fds (\<lambda>xs. bindp (getp g) (k xs)) = bindp (getp g) (\<lambda>c. with_fds (\<lambda>xs. k xs c))"
  by (auto simp: with_fds_def bindp_def getp_def fun_eq_iff split: option.splits)

lemma with_fds_bindp: "bindp (with_fds k) f = with_fds (\<lambda>xs. bindp (k xs) f)"
  by (auto simp: with_fds_def bindp_def fun_eq_iff split: option.splits)

lemma spoll_remove_eq: "spoll_remove fd (Some p) = on_poller (SPoll_remove fd) (Some p)"
proof -
  let ?scan = "with_fds (\<lambda>xs. bindp (getp pl_capacity) (\<lambda>capacity.
              liftp (scan_fds xs (\<lambda>e. pf_fd e = fd) 0 capacity)))"
  let ?rest = "\<lambda>r. case r of None \<Rightarrow> ret 0 | Some i \<Rightarrow> bindp (SPoll_removeit i) (\<lambda>_. ret (0 :: int))"
  have "SPoll_remove fd = bindp assert_fds (\<lambda>_. bindp (assertp (\<lambda>_. 0 < fd)) (\<lambda>_. bindp ?scan ?rest))"
    by (simp add: SPoll_remove_def bindp_swap_get with_fds_bindp bindp_assoc)
  moreover have "bindp (spoll_removeit i) (\<lambda>_. ret (0 :: int)) (Some q) =
      on_poller (bindp (SPoll_removeit i) (\<lambda>_. ret 0)) (Some q)" for i q
    by (auto simp: bindp_def spoll_removeit_eq on_poller_Some prog_simps split: sum.splits)
  ultimately show ?thesis
    unfolding spoll_remove_def assert_not_null
    by (auto intro!: bindp_on_poller_cong on_poller_assertp simp: on_poller_ret split: option.splits)
qed

lemma spoll_getpolls_eq: "spoll_getpolls (Some p) = on_poller SPoll_getpolls (Some p)"
  unfolding spoll_getpolls_def SPoll_getpolls_def assert_not_null by (rule refl)

lemma spoll_poll_eq:
  "spoll_poll P timeout (Some p, w) =
     (case SPoll_doPoll P timeout (p, w) of
        Inl f \<Rightarrow> Inl f | Inr (r, (p', w')) \<Rightarrow> Inr (r, (Some p', w')))"
  by (auto simp: spoll_poll_def SPoll_doPoll_def bindp_def assertp_def Let_def split: option.splits prod.splits)

lemma spoll_clear_eq: "spoll_clear n i (Some p) = on_poller (SPoll_clear n i) (Some p)"
proof (induction n arbitrary: i p)
  case 0
  then show ?case
    by (simp add: on_poller_ret)
next
  case (Suc n)
  have "SPoll_clear (Suc n) i =
      bindp (with_fds (\<lambda>xs. liftp (arr_get xs i))) (\<lambda>e.
      bindp (bindp (if pf_fd e \<noteq> 0 then SPoll_removeit i else ret 0) (\<lambda>_. ret ())) (\<lambda>_.
        SPoll_clear n (i + 1)))"
    by (simp add: with_fds_bindp bindp_assoc)
  then show ?case
    unfolding spoll_clear.simps
    by (auto intro!: bindp_on_poller_cong simp: Suc spoll_removeit_eq on_poller_ret)
qed

lemma spoll_dispose_eq:
  "spoll_dispose (Some p) = (case SPoll_delete p of Inl f \<Rightarrow> Inl f | Inr _ \<Rightarrow> Inr (0, None))"
  unfolding spoll_dispose_def SPoll_delete_def assert_not_null
  by (auto simp: bindp_def on_poller_Some spoll_clear_eq prog_simps split: sum.splits)

definition on_pointer :: "(poller \<Rightarrow> 'b) \<Rightarrow> 'b \<Rightarrow> poller option \<Rightarrow> 'b" where
  "on_pointer f d s = (case s of None \<Rightarrow> d | Some p \<Rightarrow> f p)"

lemma on_pointer_simps [simp]: "on_pointer f d (Some p) = f p" "on_pointer f d None = d"
  by (simp_all add: on_pointer_def)

lemma on_pointer_inv [elim]:
  assumes "on_pointer poller_inv False s"
  obtains p where "s = Some p" "poller_inv p"
  using assms by (auto simp: on_pointer_def split: option.splits)

lemma runs_pointer:
  "runs (spoll_add ra fd ev) (Some p) Q = runs (SPoll_add ra fd ev) p (\<lambda>a p'. Q a (Some p'))"
  "runs (spoll_remove fd) (Some p) Q = runs (SPoll_remove fd) p (\<lambda>a p'. Q a (Some p'))"
  by (auto simp: runs_def on_poller_Some spoll_add_eq spoll_remove_eq split: sum.splits)

interpretation spoll_c: watch_list "spoll_add (\<lambda>_. True)" spoll_remove
  "on_pointer poller_entries []" "on_pointer poller_cells 0" "on_pointer poller_inv False"
proof (unfold_locales, goal_cases)
  case (1 s fd ev)
  then obtain p where "s = Some p" "poller_inv p"
    by blast
  then show ?case
    using 1 unfolding \<open>s = Some p\<close> runs_pointer on_pointer_simps by (intro spoll_cpp.add_law)
next
  case (2 s fd)
  then obtain p where "s = Some p" "poller_inv p"
    by blast
  then show ?case
    using 2 unfolding \<open>s = Some p\<close> runs_pointer on_pointer_simps by (intro spoll_cpp.remove_law)
next
  case (3 s fd)
  then obtain p where "s = Some p" "poller_inv p"
    by blast
  then show ?case
    using 3 spoll_cpp.remove_overrun [of p fd] by (simp add: spoll_remove_eq on_poller_Some)
qed

section \<open>Properties\<close>

lemma poller_inv_new: "SPoll_new True = Inr p \<Longrightarrow> poller_inv p \<and> poller_entries p = [] \<and> poller_cells p = 10"
  using poller_invI [of "[]" 10] by (auto simp: SPoll_new_def poller_of_def poller_entries_def poller_cells_def)

lemma spoll_create_new: "spoll_create True True = Some p \<longleftrightarrow> SPoll_new True = Inr p"
  by (auto simp: spoll_create_def SPoll_new_def)

text \<open>
  C33: the registry of SPoll.cpp implements an ordered list. From a new object, any sequence of
  calls of \<open>add\<close> and \<open>remove\<close> with positive descriptors and events ends as the same sequence
  on a list that starts with room for ten pairs and grows by five when it is full: additions
  append, a removal takes the first pair of its descriptor, every call returns 0 and the
  array stays well formed. The one exception is stated by the list as well: taking a pair that is
  not the last from a registry with no free cell reads the array past its end.
\<close>

theorem SPoll_refines_list:
  assumes "SPoll_new True = Inr p" "\<forall>op \<in> set ops. watch_valid op"
  shows "case watch_spec 10 ops [] of
      None \<Rightarrow> run_watch (SPoll_add (\<lambda>_. True)) SPoll_remove ops p = Inl Out_Of_Bounds
    | Some es \<Rightarrow> \<exists>p'. run_watch (SPoll_add (\<lambda>_. True)) SPoll_remove ops p = Inr ((), p') \<and>
        poller_inv p' \<and> poller_entries p' = es"
  using spoll_cpp.run_refines [of p ops] poller_inv_new [OF assms(1)] assms(2) by simp

theorem SPoll_refines_list_witness:
  "\<exists>p p'. SPoll_new True = Inr p \<and>
     run_watch (SPoll_add (\<lambda>_. True)) SPoll_remove [Watch_Add 5 1, Watch_Add 7 1, Watch_Remove 5] p = Inr ((), p') \<and>
     poller_entries p' = [(7, 1)]"
proof -
  obtain p where p: "SPoll_new True = Inr p"
    by (simp add: SPoll_new_def)
  have "watch_spec 10 [Watch_Add 5 1, Watch_Add 7 1, Watch_Remove 5] [] = Some [(7, 1)]"
    by (simp add: removable_def)
  with SPoll_refines_list [OF p, of "[Watch_Add 5 1, Watch_Add 7 1, Watch_Remove 5]"] p
  show ?thesis
    by auto
qed

text \<open>
  Removing one descriptor, on any well-formed registry: the call returns 0 with the first
  pair of the descriptor gone (nothing changes when it has none), unless the array is full and
  the pair is not the last. Then \<open>memmove\<close> reads one cell past the end of the array.
\<close>

theorem SPoll_remove_result:
  assumes "poller_inv p" "0 < fd"
  shows "if removable (length (poller_entries p) = poller_cells p) fd (poller_entries p)
    then \<exists>p'. SPoll_remove fd p = Inr (0, p') \<and> poller_inv p' \<and> poller_cells p' = poller_cells p \<and>
      poller_entries p' = drop_first fd (poller_entries p)
    else SPoll_remove fd p = Inl Out_Of_Bounds"
  using spoll_cpp.remove_law [OF assms] spoll_cpp.remove_overrun [OF assms] by (auto simp: runs_Inr)

theorem SPoll_remove_result_witness:
  "SPoll_remove 1 (poller_of (map (\<lambda>i. new_entry (int i) 1) [1..<11]) 0) = Inl Out_Of_Bounds"
proof -
  let ?p = "poller_of (map (\<lambda>i. new_entry (int i) 1) [1..<11]) 0"
  have inv: "poller_inv ?p"
    by (rule poller_invI) (auto simp: good_entry_def)
  have "\<not> removable (length (poller_entries ?p) = poller_cells ?p) 1 (poller_entries ?p)"
    by (simp add: removable_def upt_rec)
  then show ?thesis
    using SPoll_remove_result [OF inv, of 1] by simp
qed

text \<open>
  C37: the obsolete spoll.c and SPoll.cpp compute the same: on any object, well formed or not,
  and whatever \<open>realloc\<close> and \<open>poll\<close> answer, each function of the one has the result, the faults
  and the effect of the other; \<open>spoll_dispose\<close> also frees the object.
\<close>

theorem spoll_equals_SPoll:
  "spoll_add ra fd ev (Some p) = on_poller (SPoll_add ra fd ev) (Some p) \<and>
   spoll_remove fd (Some p) = on_poller (SPoll_remove fd) (Some p) \<and>
   spoll_getpolls (Some p) = on_poller SPoll_getpolls (Some p) \<and>
   spoll_poll P timeout (Some p, w) =
     (case SPoll_doPoll P timeout (p, w) of
        Inl f \<Rightarrow> Inl f | Inr (r, (p', w')) \<Rightarrow> Inr (r, (Some p', w'))) \<and>
   spoll_dispose (Some p) = (case SPoll_delete p of Inl f \<Rightarrow> Inl f | Inr _ \<Rightarrow> Inr (0, None))"
  by (intro conjI spoll_add_eq spoll_remove_eq spoll_getpolls_eq spoll_poll_eq spoll_dispose_eq)

text \<open>
  A failed \<open>realloc\<close> costs the whole registry. When a full array cannot grow, \<open>add\<close> returns
  \<open>-1\<close> but has overwritten the array pointer with null; every later addition or removal ends the
  process through an assertion.
\<close>

theorem SPoll_add_no_memory:
  assumes "poller_inv p" "0 < fd" "ev \<noteq> 0" "length (poller_entries p) = poller_cells p"
    and "\<not> ra (int (poller_cells p) + 5)" "0 < fd'" "ev' \<noteq> 0"
  shows "\<exists>p'. SPoll_add ra fd ev p = Inr (-1, p') \<and> poller_entries p' = [] \<and>
    SPoll_add ra' fd' ev' p' = Inl Exit_Failure \<and> SPoll_remove fd' p' = Inl Exit_Failure"
proof -
  from assms(1) obtain es k where p: "p = poller_of es k"
    by (rule poller_invE)
  then have "k = 0"
    using assms(4) by simp
  then show ?thesis
    using assms p by (simp add: SPoll_add_of) (simp add: SPoll_add_def SPoll_remove_def
        assert_fds_def bindp_def prog_simps poller_entries_def)
qed

theorem SPoll_add_no_memory_witness:
  "\<exists>p'. SPoll_add (\<lambda>_. False) 11 1 (poller_of (map (\<lambda>i. new_entry (int i) 1) [1..<11]) 0) = Inr (-1, p') \<and>
     SPoll_remove 11 p' = Inl Exit_Failure"
proof -
  let ?p = "poller_of (map (\<lambda>i. new_entry (int i) 1) [1..<11]) 0"
  have inv: "poller_inv ?p"
    by (rule poller_invI) (auto simp: good_entry_def)
  show ?thesis
    using SPoll_add_no_memory [OF inv, of 11 1 "\<lambda>_. False" 11 1 "\<lambda>_. True"] by auto
qed

end
