(* ===== verification/Smsg.thy ===== *)
theory Smsg
  imports Poller
begin

text \<open>
  SMsg.cpp, the received message, and the message header of SMessenger.h with the two
  functions of SMessenger.cpp that convert it. A header in memory is its eight bytes; after
  \<open>packhdr\<close> they are the bytes sent.
\<close>

section \<open>SMsg\<close>

text \<open>The field \<open>msgtag\<close> is a \<open>short\<close>; it also holds the code of an error.\<close>

record smsg =
  sm_msgtag :: int
  sm_ip :: "32 word"
  sm_port :: "16 word"
  sm_socket :: int
  sm_msg :: string
  sm_error :: bool

definition SMsg_new :: "int \<Rightarrow> 32 word \<Rightarrow> 16 word \<Rightarrow> int \<Rightarrow> string \<Rightarrow> smsg" where
  "SMsg_new msgtag ip port socket msg =
     \<lparr>sm_msgtag = to_short msgtag, sm_ip = ip, sm_port = port, sm_socket = socket,
      sm_msg = msg, sm_error = False\<rparr>"

definition SMsg_new_error :: "int \<Rightarrow> 32 word \<Rightarrow> 16 word \<Rightarrow> int \<Rightarrow> smsg" where
  "SMsg_new_error errcode ip port socket =
     \<lparr>sm_msgtag = to_short errcode, sm_ip = ip, sm_port = port, sm_socket = socket,
      sm_msg = [], sm_error = True\<rparr>"

definition SMsg_isError :: "smsg \<Rightarrow> bool" where
  "SMsg_isError m = sm_error m"

definition SMsg_getErrCode :: "smsg \<Rightarrow> int" where
  "SMsg_getErrCode m = sm_msgtag m"

definition SMsg_getMsgTag :: "smsg \<Rightarrow> int" where
  "SMsg_getMsgTag m = sm_msgtag m"

definition SMsg_getIP :: "smsg \<Rightarrow> 32 word" where
  "SMsg_getIP m = sm_ip m"

definition SMsg_getPort :: "smsg \<Rightarrow> int" where
  "SMsg_getPort m = uint (sm_port m)"

definition SMsg_getSocket :: "smsg \<Rightarrow> int" where
  "SMsg_getSocket m = sm_socket m"

definition SMsg_getMsg :: "smsg \<Rightarrow> string" where
  "SMsg_getMsg m = sm_msg m"

lemmas SMsg_defs =
  SMsg_new_def SMsg_new_error_def SMsg_isError_def SMsg_getErrCode_def SMsg_getMsgTag_def
  SMsg_getIP_def SMsg_getPort_def SMsg_getSocket_def SMsg_getMsg_def

abbreviation (input) ERRCODE_PEER_DISCONNECTED :: int where "ERRCODE_PEER_DISCONNECTED \<equiv> -1"

section \<open>The header\<close>

record smsg_header =
  hdr_code :: "16 word"
  hdr_port :: "16 word"
  hdr_length :: "32 word"

abbreviation (input) HDRLEN :: nat where "HDRLEN \<equiv> 8"
abbreviation (input) MAX_DATALEN :: int where "MAX_DATALEN \<equiv> 1 * 1024 * 1024"

definition hdr_mem :: "smsg_header \<Rightarrow> string" where
  "hdr_mem h = mem16 (hdr_code h) @ mem16 (hdr_port h) @ mem32 (hdr_length h)"

definition hdr_of_mem :: "string \<Rightarrow> smsg_header" where
  "hdr_of_mem bs =
     \<lparr>hdr_code = val16 (take 2 bs), hdr_port = val16 (take 2 (drop 2 bs)),
      hdr_length = val32 (take 4 (drop 4 bs))\<rparr>"

text \<open>\<open>packhdr\<close>: the result and the header it fills. The tag is a \<open>short\<close>.\<close>

definition packhdr :: "int \<Rightarrow> 16 word \<Rightarrow> int \<Rightarrow> nat \<times> smsg_header" where
  "packhdr msgtag port bytes =
     (let hdr = \<lparr>hdr_code = short_bits msgtag, hdr_port = port, hdr_length = int_bits bytes\<rparr>;
          hdr = hdr\<lparr>hdr_code := htons (hdr_code hdr)\<rparr>;
          hdr = hdr\<lparr>hdr_port := htons (hdr_port hdr)\<rparr>;
          hdr = hdr\<lparr>hdr_length := htonl (hdr_length hdr)\<rparr>
      in (HDRLEN, hdr))"

text \<open>\<open>unpackhdr\<close>: the length, the header in host order, the tag and the port.\<close>

definition unpackhdr :: "smsg_header \<Rightarrow> int \<times> smsg_header \<times> int \<times> 16 word" where
  "unpackhdr hdr =
     (let hdr = hdr\<lparr>hdr_code := ntohs (hdr_code hdr)\<rparr>;
          hdr = hdr\<lparr>hdr_port := ntohs (hdr_port hdr)\<rparr>;
          hdr = hdr\<lparr>hdr_length := ntohl (hdr_length hdr)\<rparr>
      in (bits_int (hdr_length hdr), hdr, bits_short (hdr_code hdr), hdr_port hdr))"

text \<open>A message as it is sent: header and body, as the two \<open>send\<close> methods lay it out.\<close>

definition frame :: "int \<Rightarrow> 16 word \<Rightarrow> string \<Rightarrow> string" where
  "frame msgtag port msg = hdr_mem (snd (packhdr msgtag port (int (length msg)))) @ msg"

section \<open>Properties\<close>

lemma length_hdr_mem [simp]: "length (hdr_mem h) = 8"
  by (simp add: hdr_mem_def)

lemma hdr_of_mem_mem: "hdr_of_mem (hdr_mem h @ r) = h"
  by (simp add: hdr_of_mem_def hdr_mem_def)

lemma hdr_mem_of_mem: "length bs = 8 \<Longrightarrow> hdr_mem (hdr_of_mem bs) = bs"
proof -
  assume len: "length bs = 8"
  have "take 2 bs @ take 2 (drop 2 bs) @ take 4 (drop 4 bs) = bs"
    using len take_add [of 2 2 bs] append_take_drop_id [of 4 bs] by simp
  then show ?thesis
    using len by (simp add: hdr_mem_def hdr_of_mem_def mem_val)
qed

lemma length_frame [simp]: "length (frame t p m) = 8 + length m"
  by (simp add: frame_def)

lemma unpackhdr_packhdr:
  "unpackhdr (snd (packhdr msgtag port bytes)) =
     (to_int bytes, \<lparr>hdr_code = short_bits msgtag, hdr_port = port, hdr_length = int_bits bytes\<rparr>,
      to_short msgtag, port)"
  by (simp add: unpackhdr_def packhdr_def Let_def)

text \<open>
  The message header survives the network. What \<open>unpackhdr\<close> reads from the bytes \<open>packhdr\<close>
  wrote, whatever bytes follow them, is the port, the length for every length an \<open>int\<close> holds,
  and the tag cut to 16 bits; so the tag of a message is preserved exactly for tags from -32768
  to 32767, although the interface takes an \<open>int\<close>.
\<close>

theorem header_roundtrip:
  assumes "- (2 ^ 31) \<le> bytes" "bytes < 2 ^ 31"
  shows "\<exists>h. unpackhdr (hdr_of_mem (hdr_mem (snd (packhdr msgtag port bytes)) @ rest)) =
      (bytes, h, to_short msgtag, port) \<and>
    (to_short msgtag = msgtag \<longleftrightarrow> - (2 ^ 15) \<le> msgtag \<and> msgtag < 2 ^ 15)"
  using assms by (auto simp: hdr_of_mem_mem unpackhdr_packhdr to_int_id to_short_iff)

theorem header_roundtrip_witness:
  "\<exists>h. unpackhdr (hdr_of_mem (hdr_mem (snd (packhdr 65535 10001 300)) @ ''x'')) = (300, h, -1, 10001)"
  using header_roundtrip [of 300 65535 10001 "''x''"] by (auto simp: to_short_def)

text \<open>
  The header on the wire. It is the eight bytes of code, port and length, each most
  significant byte first.
\<close>

theorem header_wire_format:
  "hdr_mem (snd (packhdr msgtag port bytes)) =
     rev (le_bytes 2 (unat (short_bits msgtag))) @ rev (le_bytes 2 (unat port)) @
     rev (le_bytes 4 (unat (int_bits bytes)))"
  by (simp add: hdr_mem_def packhdr_def Let_def mem_hton) (simp add: mem16_def mem32_def)

lemma frame_head:
  "length m < 2 ^ 31 \<Longrightarrow> unpackhdr (hdr_of_mem (take 8 (frame t p m @ r))) =
     (int (length m), \<lparr>hdr_code = short_bits t, hdr_port = p, hdr_length = int_bits (int (length m))\<rparr>,
      to_short t, p)"
  using hdr_of_mem_mem [of _ "[]"]
  by (simp add: frame_def unpackhdr_packhdr to_int_id)

lemma frame_body: "drop 8 (frame t p m @ r) = m @ r"
  by (simp add: frame_def)

end
