(* ===== verification/Framing.thy ===== *)
theory Framing
  imports Smsg
begin

text \<open>
  Messages on a stream. \<open>next_frame\<close> says what the front of a stream of bytes is: the beginning
  of a message, a header that cannot be accepted, or a whole message and the rest. The contract
  of an encoding that a stream can be cut by is the locale \<open>codec\<close>; what it gives is that the
  messages received do not depend on how the bytes were split on their way.
\<close>

section \<open>The contract\<close>

text \<open>All messages at the front of a stream, and what is left; the fuel bounds their number.\<close>

fun drain :: "('b list \<Rightarrow> ('m \<times> 'b list) option) \<Rightarrow> nat \<Rightarrow> 'b list \<Rightarrow> 'm list \<times> 'b list" where
  "drain get 0 s = ([], s)"
| "drain get (Suc n) s =
     (case get s of
        None \<Rightarrow> ([], s)
      | Some (m, r) \<Rightarrow> (case drain get n r of (ms, r') \<Rightarrow> (m # ms, r')))"

text \<open>The same with the bytes coming in pieces, each drained as it comes.\<close>

fun drain_pieces :: "('b list \<Rightarrow> ('m \<times> 'b list) option) \<Rightarrow> 'b list \<Rightarrow> 'b list list \<Rightarrow> 'm list \<times> 'b list" where
  "drain_pieces get s [] = ([], s)"
| "drain_pieces get s (p # ps) =
     (case drain get (length (s @ p)) (s @ p) of
        (ms, r) \<Rightarrow> (case drain_pieces get r ps of (ms', r') \<Rightarrow> (ms @ ms', r')))"

locale codec =
  fixes put :: "'m \<Rightarrow> 'b list"
    and get :: "'b list \<Rightarrow> ('m \<times> 'b list) option"
    and ok :: "'m \<Rightarrow> bool"
  assumes get_put: "ok m \<Longrightarrow> get (put m @ r) = Some (m, r)"
    and get_partial: "ok m \<Longrightarrow> put m = p @ q \<Longrightarrow> q \<noteq> [] \<Longrightarrow> get p = None"
    and put_nonempty: "ok m \<Longrightarrow> put m \<noteq> []"
begin

text \<open>A stream of whole messages followed by the beginning of one.\<close>

definition tail_of :: "'b list \<Rightarrow> bool" where
  "tail_of p \<longleftrightarrow> p = [] \<or> (\<exists>m q. ok m \<and> put m = p @ q \<and> q \<noteq> [])"

lemma get_tail: "get [] = None \<Longrightarrow> tail_of p \<Longrightarrow> get p = None"
  using get_partial by (auto simp: tail_of_def)

lemma length_puts:
  "\<forall>m \<in> set ms. ok m \<Longrightarrow> length ms \<le> length (concat (map put ms))"
proof (induction ms)
  case (Cons m ms)
  then have "1 \<le> length (put m)"
    using put_nonempty [of m] by (cases "put m") auto
  with Cons show ?case
    by simp
qed simp

lemma drain_messages:
  assumes "get [] = None" "\<forall>m \<in> set ms. ok m" "tail_of p" "length ms \<le> n"
  shows "drain get n (concat (map put ms) @ p) = (ms, p)"
  using assms(2,4)
proof (induction ms arbitrary: n)
  case Nil
  then show ?case
    using get_tail [OF assms(1,3)] by (cases n) simp_all
next
  case (Cons m ms)
  then obtain k where k: "n = Suc k" "length ms \<le> k"
    by (cases n) auto
  have "get (concat (map put (m # ms)) @ p) = Some (m, concat (map put ms) @ p)"
    using Cons.prems get_put by simp
  moreover have "drain get k (concat (map put ms) @ p) = (ms, p)"
    using Cons k by simp
  ultimately show ?case
    by (simp add: k)
qed

text \<open>However a stream of messages is cut into pieces, the same messages come out.\<close>

lemma split_prefix:
  assumes "\<forall>m \<in> set ms. ok m" "concat (map put ms) = s @ t"
  shows "\<exists>ms1 ms2 p. ms = ms1 @ ms2 \<and> tail_of p \<and> s = concat (map put ms1) @ p \<and>
    concat (map put ms2) = p @ t"
  using assms
proof (induction ms arbitrary: s)
  case Nil
  then show ?case
    by (auto simp: tail_of_def)
next
  case (Cons m ms)
  show ?case
  proof (cases "length (put m) \<le> length s")
    case True
    have "put m @ concat (map put ms) = s @ t"
      using Cons.prems(2) by simp
    with True have s': "s = put m @ drop (length (put m)) s" "concat (map put ms) = drop (length (put m)) s @ t"
      by (auto simp: append_eq_append_conv_if) (metis append_take_drop_id)
    let ?s' = "drop (length (put m)) s"
    from s'(2) obtain ms1 ms2 p where "ms = ms1 @ ms2" "tail_of p" "?s' = concat (map put ms1) @ p"
      "concat (map put ms2) = p @ t"
      using Cons.IH [of ?s'] Cons.prems(1) by auto
    then show ?thesis
      using s'(1) by (intro exI [of _ "m # ms1"] exI [of _ ms2] exI [of _ p]) simp
  next
    case False
    then have "put m = s @ drop (length s) (put m)" "drop (length s) (put m) \<noteq> []"
      using Cons.prems(2) append_take_drop_id [of "length s" "put m"]
      by (auto simp: append_eq_append_conv_if)
    moreover have "ok m"
      using Cons.prems(1) by simp
    ultimately have "tail_of s"
      unfolding tail_of_def by blast
    then show ?thesis
      using Cons.prems(2) by (intro exI [of _ "[]"] exI [of _ "m # ms"] exI [of _ s]) simp
  qed
qed

lemma drain_any_split:
  assumes "get [] = None" "\<forall>m \<in> set ms. ok m" "tail_of p" "p @ concat pieces = concat (map put ms)"
  shows "drain_pieces get p pieces = (ms, [])"
  using assms(2-4)
proof (induction pieces arbitrary: ms p)
  case Nil
  show ?case
  proof (cases ms)
    case ms: (Cons m ms')
    show ?thesis
    proof (cases "p = []")
      case True
      then show ?thesis
        using Nil ms put_nonempty [of m] by simp
    next
      case False
      have "get p = Some (m, concat (map put ms'))"
        using Nil ms get_put [of m] by simp
      then show ?thesis
        using get_tail [OF assms(1) Nil(2)] by simp
    qed
  qed (use Nil in simp)
next
  case (Cons piece pieces)
  have "concat (map put ms) = (p @ piece) @ concat pieces"
    using Cons.prems(3) by simp
  from split_prefix [OF Cons.prems(1) this] obtain ms1 ms2 q where
    q: "ms = ms1 @ ms2" "tail_of q" "p @ piece = concat (map put ms1) @ q"
      "concat (map put ms2) = q @ concat pieces"
    by blast
  have "length ms1 \<le> length (p @ piece)"
    using length_puts [of ms1] Cons.prems(1) q(1,3) by simp
  then have "drain get (length (p @ piece)) (p @ piece) = (ms1, q)"
    using drain_messages [OF assms(1), of ms1 q] Cons.prems(1) q(1-3) by simp
  moreover have "drain_pieces get q pieces = (ms2, [])"
    using Cons.IH [of ms2 q] Cons.prems(1) q by simp
  ultimately show ?case
    using q(1) by simp
qed

end

section \<open>The frames of SMessenger\<close>

datatype parse = Incomplete | Malformed | Frame int "16 word" string string

text \<open>A header is refused when its length is negative or above the room for the body, \<open>cap\<close>.\<close>

definition next_frame :: "nat \<Rightarrow> string \<Rightarrow> parse" where
  "next_frame cap s =
     (if length s < HDRLEN then Incomplete
      else case unpackhdr (hdr_of_mem (take HDRLEN s)) of (len, hdr, tag, port) \<Rightarrow>
        if len < 0 \<or> int cap < len then Malformed
        else if length s < HDRLEN + nat len then Incomplete
        else Frame tag port (take (nat len) (drop HDRLEN s)) (drop (HDRLEN + nat len) s))"

definition get_frame :: "nat \<Rightarrow> string \<Rightarrow> ((int \<times> 16 word \<times> string) \<times> string) option" where
  "get_frame cap s =
     (case next_frame cap s of Frame tag port body rest \<Rightarrow> Some ((tag, port, body), rest) | _ \<Rightarrow> None)"

definition put_frame :: "int \<times> 16 word \<times> string \<Rightarrow> string" where
  "put_frame = (\<lambda>(tag, port, body). frame tag port body)"

definition frame_ok :: "nat \<Rightarrow> int \<times> 16 word \<times> string \<Rightarrow> bool" where
  "frame_ok cap = (\<lambda>(tag, port, body). to_short tag = tag \<and> length body \<le> cap \<and> length body < 2 ^ 31)"

lemma next_frame_frame:
  "length m \<le> cap \<Longrightarrow> length m < 2 ^ 31 \<Longrightarrow>
   next_frame cap (frame t p m @ r) = Frame (to_short t) p m r"
proof -
  assume m: "length m \<le> cap" "length m < 2 ^ 31"
  note head = frame_head [OF m(2), of t p r]
  have "drop (8 + length m) (frame t p m @ r) = r"
    by simp
  then show ?thesis
    using m(1) unfolding next_frame_def head using frame_body [of t p m "[]"] by (simp add: frame_body)
qed

lemma next_frame_prefix:
  assumes "length m \<le> cap" "length m < 2 ^ 31" "frame t p m = s @ q" "q \<noteq> []"
  shows "next_frame cap s = Incomplete"
proof (cases "length s < 8")
  case False
  have len: "length s + length q = 8 + length m"
    using arg_cong [OF assms(3), of length] by simp
  have "take 8 s = take 8 (frame t p m @ [])"
    using False assms(3) by simp
  then have "unpackhdr (hdr_of_mem (take 8 s)) =
      (int (length m), \<lparr>hdr_code = short_bits t, hdr_port = p, hdr_length = int_bits (int (length m))\<rparr>, to_short t, p)"
    using frame_head [OF assms(2), of t p "[]"] by simp
  moreover have "length s < 8 + length m"
    using assms(4) len by (cases q) simp_all
  ultimately show ?thesis
    using False assms(1) by (simp add: next_frame_def)
qed (simp add: next_frame_def)

interpretation frames: codec put_frame "get_frame cap" "frame_ok cap" for cap
  by unfold_locales
    (auto simp: put_frame_def get_frame_def frame_ok_def next_frame_frame
      dest: next_frame_prefix [of _ cap] arg_cong [of _ _ length])

lemma get_frame_Nil [simp]: "get_frame cap [] = None"
  by (simp add: get_frame_def next_frame_def)

text \<open>
  C30: messages survive being cut up by the network. Any sequence of messages whose tags are 16
  bit numbers and whose bodies fit the receiver comes out of the stream as it was sent, in order,
  however the bytes of the frames were split into pieces on the way, and nothing is left over.
\<close>

theorem frames_any_split:
  assumes "\<forall>m \<in> set ms. frame_ok cap m" "concat pieces = concat (map put_frame ms)"
  shows "drain_pieces (get_frame cap) [] pieces = (ms, [])"
  using assms by (intro frames.drain_any_split) (simp_all add: frames.tail_of_def)

theorem frames_any_split_witness:
  "drain_pieces (get_frame 16) [] [take 5 (frame 7 1 ''ab''), drop 5 (frame 7 1 ''ab'') @ take 9 (frame 8 2 ''xyz''),
     [], drop 9 (frame 8 2 ''xyz'')] = ([(7, 1, ''ab''), (8, 2, ''xyz'')], [])"
  by (rule frames_any_split)
    (simp_all only: put_frame_def concat.simps list.map prod.case append_assoc append_take_drop_id
      append_Nil append_Nil2, simp_all add: frame_ok_def to_short_def)

end
