(* ===== verification/Timing.thy ===== *)
theory Timing
  imports Sbus_Posix
begin

text \<open>
  timing.c: the clock, and dates as text. The time zone database behind \<open>localtime\<close> and
  \<open>mktime\<close> is an argument of the functions that use it; the two conversions of the C library
  that the code drives with fixed formats, \<open>strftime\<close> and \<open>sscanf\<close>, are written out for these
  formats. Dates are taken to have fields that are not negative.
\<close>

section \<open>The clock\<close>

definition timing_current_seconds :: "'w posix \<Rightarrow> ('w, int) prog" where
  "timing_current_seconds P =
     bindp (callp (px_gettimeofday P)) (\<lambda>r.
       case r of None \<Rightarrow> ret (-1) | Some (sec, usec) \<Rightarrow> ret (to_int sec))"

definition timing_current_millis :: "'w posix \<Rightarrow> ('w, int) prog" where
  "timing_current_millis P =
     bindp (callp (px_gettimeofday P)) (\<lambda>r.
       case r of None \<Rightarrow> ret (-1) | Some (sec, usec) \<Rightarrow> ret (sec * 1000 + usec div 1000))"

definition timing_elapsed_time :: "int \<Rightarrow> int \<Rightarrow> int" where
  "timing_elapsed_time t1 t2 = to_int (t2 - t1)"

section \<open>Dates as text\<close>

record tm =
  tm_year :: int
  tm_mon :: int
  tm_mday :: int
  tm_hour :: int
  tm_min :: int
  tm_sec :: int

text \<open>\<open>%m\<close>, \<open>%d\<close>, \<open>%H\<close>, \<open>%M\<close> and \<open>%S\<close> of \<open>strftime\<close>: two digits; \<open>%Y\<close> is the plain year.\<close>

definition two_digits :: "int \<Rightarrow> string" where
  "two_digits n = (if n < 10 then CHR ''0'' # show_dec (nat n) else show_dec (nat n))"

definition month_names :: "string list" where
  "month_names = [''Jan'', ''Feb'', ''Mar'', ''Apr'', ''May'', ''Jun'', ''Jul'', ''Aug'', ''Sep'',
                  ''Oct'', ''Nov'', ''Dec'']"

definition month_abbrev :: "int \<Rightarrow> string" where
  "month_abbrev m = (if 0 \<le> m \<and> m < 12 then month_names ! nat m else ''?'')"

definition iso_text :: "tm \<Rightarrow> string" where
  "iso_text d =
     show_int (tm_year d + 1900) @ ''/'' @ two_digits (tm_mon d + 1) @ ''/'' @ two_digits (tm_mday d) @
     '' '' @ two_digits (tm_hour d) @ '':'' @ two_digits (tm_min d) @ '':'' @ two_digits (tm_sec d)"

definition timing_time2isostr :: "(int \<Rightarrow> tm) \<Rightarrow> int \<Rightarrow> string" where
  "timing_time2isostr localtime t = iso_text (localtime t)"

definition timing_isotime :: "'w posix \<Rightarrow> (int \<Rightarrow> tm) \<Rightarrow> ('w, string) prog" where
  "timing_isotime P localtime =
     bindp (timing_current_seconds P) (\<lambda>t. ret (iso_text (localtime t)))"

definition timing_isotime_compressed :: "'w posix \<Rightarrow> (int \<Rightarrow> tm) \<Rightarrow> ('w, string) prog" where
  "timing_isotime_compressed P localtime =
     bindp (timing_current_seconds P) (\<lambda>t. let d = localtime t in
       ret (show_int (tm_year d + 1900) @ two_digits (tm_mon d + 1) @ two_digits (tm_mday d) @
            two_digits (tm_hour d) @ two_digits (tm_min d) @ two_digits (tm_sec d)))"

definition timing_time2str :: "'w posix \<Rightarrow> (int \<Rightarrow> tm) \<Rightarrow> ('w, string) prog" where
  "timing_time2str P localtime =
     bindp (timing_current_seconds P) (\<lambda>t. let d = localtime t in
       ret (two_digits (tm_hour d) @ '':'' @ two_digits (tm_min d) @ '':'' @ two_digits (tm_sec d) @
            '' '' @ two_digits (tm_mday d) @ ''/'' @ month_abbrev (tm_mon d)))"

section \<open>Reading a date\<close>

text \<open>\<open>sscanf\<close> for formats of numbers with a field width, single characters and white space.\<close>

datatype scan_item = Scan_Num nat | Scan_Char char | Scan_Space

definition is_space :: "char \<Rightarrow> bool" where
  "is_space c \<longleftrightarrow> of_char c = (32 :: nat) \<or> (9 \<le> (of_char c :: nat) \<and> of_char c \<le> (13 :: nat))"

fun scan_digits :: "nat \<Rightarrow> nat \<Rightarrow> string \<Rightarrow> nat \<times> string" where
  "scan_digits 0 v s = (v, s)"
| "scan_digits (Suc w) v [] = (v, [])"
| "scan_digits (Suc w) v (c # cs) =
     (if is_digit c then scan_digits w (10 * v + digit_val c) cs else (v, c # cs))"

definition scan_unsigned :: "nat \<Rightarrow> string \<Rightarrow> (nat \<times> string) option" where
  "scan_unsigned w s = (if w = 0 \<or> s = [] \<or> \<not> is_digit (hd s) then None else Some (scan_digits w 0 s))"

definition scan_num :: "nat \<Rightarrow> string \<Rightarrow> (int \<times> string) option" where
  "scan_num w s =
     (case dropWhile is_space s of
        [] \<Rightarrow> None
      | c # cs \<Rightarrow>
          if c = CHR ''-'' then map_option (\<lambda>(n, r). (- int n, r)) (scan_unsigned (w - 1) cs)
          else if c = CHR ''+'' then map_option (\<lambda>(n, r). (int n, r)) (scan_unsigned (w - 1) cs)
          else map_option (\<lambda>(n, r). (int n, r)) (scan_unsigned w (c # cs)))"

text \<open>The numbers stored, in order, up to the first item that does not match.\<close>

fun scan_format :: "scan_item list \<Rightarrow> string \<Rightarrow> int list" where
  "scan_format [] s = []"
| "scan_format (Scan_Num w # fs) s =
     (case scan_num w s of None \<Rightarrow> [] | Some (n, r) \<Rightarrow> n # scan_format fs r)"
| "scan_format (Scan_Char c # fs) s =
     (case s of [] \<Rightarrow> [] | d # r \<Rightarrow> if d = c then scan_format fs r else [])"
| "scan_format (Scan_Space # fs) s = scan_format fs (dropWhile is_space s)"

definition iso_format :: "scan_item list" where
  "iso_format =
     [Scan_Num 4, Scan_Char CHR ''/'', Scan_Num 2, Scan_Char CHR ''/'', Scan_Num 2, Scan_Space,
      Scan_Num 2, Scan_Char CHR '':'', Scan_Num 2, Scan_Char CHR '':'', Scan_Num 2]"

text \<open>Storing the numbers read: fields that were not reached keep what they had.\<close>

definition store_fields :: "int list \<Rightarrow> tm \<Rightarrow> tm" where
  "store_fields vs d =
     (let f = (\<lambda>i old. if i < length vs then vs ! i else old) in
        \<lparr>tm_year = f 0 (tm_year d), tm_mon = f 1 (tm_mon d), tm_mday = f 2 (tm_mday d),
         tm_hour = f 3 (tm_hour d), tm_min = f 4 (tm_min d), tm_sec = f 5 (tm_sec d)\<rparr>)"

definition timing_isostr2tm :: "string \<Rightarrow> tm \<Rightarrow> int \<times> tm" where
  "timing_isostr2tm date d =
     (let vs = scan_format iso_format date; d = store_fields vs d in
        if length vs \<noteq> 6 then (-1, d)
        else (0, d\<lparr>tm_year := tm_year d - 1900, tm_mon := tm_mon d - 1\<rparr>))"

text \<open>The result and, unless the text is no date, the time stored; \<open>dd\<close> is the local structure.\<close>

definition timing_isostr2time_t :: "(tm \<Rightarrow> int) \<Rightarrow> tm \<Rightarrow> string \<Rightarrow> int \<times> int option" where
  "timing_isostr2time_t mktime dd date =
     (case timing_isostr2tm date dd of (r, d) \<Rightarrow>
        if r < 0 then (-1, None)
        else let t = mktime d in (if t < 0 then -1 else 0, Some t))"

section \<open>Properties\<close>

lemma scan_digits_append:
  assumes "\<And>c. c \<in> set ds \<Longrightarrow> is_digit c" "length ds \<le> w"
    and "length ds = w \<or> r = [] \<or> \<not> is_digit (hd r)"
  shows "scan_digits w v (ds @ r) = (fst (read_digits v ds), r)"
  using assms
proof (induction ds arbitrary: v w)
  case Nil
  then show ?case
    by (cases w; cases r) auto
next
  case (Cons c ds)
  then obtain w' where "w = Suc w'"
    by (cases w) auto
  with Cons show ?case
    by simp
qed

lemma is_digit_not:
  "is_digit c \<Longrightarrow> \<not> is_space c" "is_digit c \<Longrightarrow> c \<noteq> CHR ''-''" "is_digit c \<Longrightarrow> c \<noteq> CHR ''+''"
  by (auto simp: is_digit_def is_space_def)

lemma scan_num_digits:
  assumes "\<And>c. c \<in> set ds \<Longrightarrow> is_digit c" "ds \<noteq> []" "length ds \<le> w"
    and "length ds = w \<or> r = [] \<or> \<not> is_digit (hd r)"
  shows "scan_num w (ds @ r) = Some (int (fst (read_digits 0 ds)), r)"
proof -
  obtain c cs where ds: "ds = c # cs"
    using assms(2) by (cases ds) auto
  then have c: "is_digit c"
    using assms(1) by simp
  have "dropWhile is_space (ds @ r) = ds @ r"
    using is_digit_not(1) [OF c] ds by simp
  moreover have "scan_digits w 0 (ds @ r) = (fst (read_digits 0 ds), r)"
    by (rule scan_digits_append) (use assms in auto)
  then have "scan_unsigned w (ds @ r) = Some (fst (read_digits 0 ds), r)"
    using assms(3) c ds by (simp add: scan_unsigned_def)
  ultimately show ?thesis
    using is_digit_not(2,3) [OF c] ds by (simp add: scan_num_def)
qed

lemma two_digits_shape:
  assumes "0 \<le> n" "n < 100"
  shows "length (two_digits n) = 2" "fst (read_digits 0 (two_digits n)) = nat n"
    "c \<in> set (two_digits n) \<Longrightarrow> is_digit c"
proof -
  have zero: "is_digit CHR ''0''" "digit_val CHR ''0'' = 0"
    by code_simp+
  show "length (two_digits n) = 2"
    using assms
    by (simp add: two_digits_def show_dec.simps [of "nat n"] show_dec.simps [of "nat n div 10"]) linarith
  show "fst (read_digits 0 (two_digits n)) = nat n"
    using zero by (simp add: two_digits_def read_show_dec)
  show "c \<in> set (two_digits n) \<Longrightarrow> is_digit c"
    using zero show_dec_digits by (auto simp: two_digits_def split: if_splits)
qed

lemma scan_two_digits:
  "0 \<le> n \<Longrightarrow> n < 100 \<Longrightarrow> scan_num 2 (two_digits n @ r) = Some (n, r)"
  using scan_num_digits [of "two_digits n" 2 r] two_digits_shape [of n]
  by (cases "two_digits n = []") auto

lemma scan_two_digits_end: "0 \<le> n \<Longrightarrow> n < 100 \<Longrightarrow> scan_num 2 (two_digits n) = Some (n, [])"
  using scan_two_digits [of n "[]"] by simp

lemma scan_year:
  assumes "0 \<le> y" "y < 10000"
  shows "scan_num 4 (show_int y @ CHR ''/'' # r) = Some (y, CHR ''/'' # r)"
proof -
  have "\<not> is_digit CHR ''/''"
    by code_simp
  then show ?thesis
    using scan_num_digits [of "show_dec (nat y)" 4 "CHR ''/'' # r"] assms length_show_dec [of "nat y" 4]
      show_dec_digits
    by (simp add: show_int_def read_show_dec)
qed

lemma two_digits_head:
  assumes "0 \<le> n" "n < 100"
  shows "dropWhile is_space (two_digits n @ r) = two_digits n @ r"
proof -
  obtain c cs where "two_digits n = c # cs"
    using two_digits_shape(1) [OF assms] by (cases "two_digits n") auto
  then show ?thesis
    using is_digit_not(1) [of c] two_digits_shape(3) [OF assms, of c] by simp
qed

text \<open>
  C40: a date written by \<open>timing_time2isostr\<close> is read back by \<open>timing_isostr2tm\<close> as the same date,
  whatever the structure held before, for the years 0 to 9999.
\<close>

theorem iso_date_roundtrip:
  assumes "localtime t = d" "0 \<le> tm_year d + 1900" "tm_year d + 1900 < 10000"
    and "0 \<le> tm_mon d" "tm_mon d < 12" "0 \<le> tm_mday d" "tm_mday d < 100"
    and "0 \<le> tm_hour d" "tm_hour d < 100" "0 \<le> tm_min d" "tm_min d < 100"
    and "0 \<le> tm_sec d" "tm_sec d < 100"
  shows "timing_isostr2tm (timing_time2isostr localtime t) d0 = (0, d)"
proof -
  have "is_space CHR '' ''"
    by code_simp
  then have "scan_format iso_format (iso_text d) =
      [tm_year d + 1900, tm_mon d + 1, tm_mday d, tm_hour d, tm_min d, tm_sec d]"
    using assms
    by (simp add: iso_format_def iso_text_def scan_year scan_two_digits scan_two_digits_end two_digits_head)
  then show ?thesis
    using assms(1) by (simp add: timing_isostr2tm_def timing_time2isostr_def Let_def store_fields_def)
qed

theorem iso_date_roundtrip_witness:
  "timing_isostr2tm (timing_time2isostr (\<lambda>_. \<lparr>tm_year = 104, tm_mon = 1, tm_mday = 29, tm_hour = 23,
       tm_min = 59, tm_sec = 60\<rparr>) 7) \<lparr>tm_year = 0, tm_mon = 0, tm_mday = 0, tm_hour = 0, tm_min = 0, tm_sec = 0\<rparr> =
   (0, \<lparr>tm_year = 104, tm_mon = 1, tm_mday = 29, tm_hour = 23, tm_min = 59, tm_sec = 60\<rparr>)"
  by (rule iso_date_roundtrip) simp_all

text \<open>
  \<open>timing_elapsed_time\<close> is the difference of two times exactly when it fits an \<open>int\<close>, which for
  milliseconds is below 25 days; otherwise it is off by a multiple of \<open>2 ^ 32\<close>.
\<close>

theorem timing_elapsed_exact:
  "(timing_elapsed_time t1 t2 = t2 - t1 \<longleftrightarrow> - (2 ^ 31) \<le> t2 - t1 \<and> t2 - t1 < 2 ^ 31) \<and>
   timing_elapsed_time t1 t2 mod 2 ^ 32 = (t2 - t1) mod 2 ^ 32"
proof -
  have "to_int n mod 2 ^ 32 = n mod 2 ^ 32" for n
    by (simp add: to_int_def mod_diff_left_eq)
  then show ?thesis
    using to_int_range [of "t2 - t1"] to_int_id [of "t2 - t1"] by (auto simp: timing_elapsed_time_def)
qed

end
