(* ===== verification/Messenger.thy ===== *)
theory Messenger
  imports Framing Timing
begin

text \<open>
  SMessenger.cpp: messages over TCP and UDP multicast. The object holds the two sockets, the
  registry of the descriptors it polls and its own address; the state of the system goes along
  with it in \<open>ms_world\<close>. Log lines are not modelled, the system calls made for their arguments
  are. Errors of memory are: the buffers that \<open>recv\<close> takes from the stack with \<open>alloca\<close> are
  counted against the room given by the argument \<open>stack\<close>, in bytes.
\<close>

section \<open>State\<close>

record 'w messenger =
  ms_mcip :: string
  ms_device :: "string option"
  ms_mcport :: "16 word"
  ms_port :: "16 word"
  ms_servsock :: int
  ms_mcsock :: int
  ms_ip :: "32 word"
  ms_sap :: sockaddr_in
  ms_spoll :: poller
  ms_world :: 'w

abbreviation (input) POLL_FLAGS :: "16 word" where "POLL_FLAGS \<equiv> 57"
abbreviation (input) MAX_CONN_TIMEOUT_MS :: int where "MAX_CONN_TIMEOUT_MS \<equiv> 350"

definition on_world :: "('w, 'a) prog \<Rightarrow> ('w messenger, 'a) prog" where
  "on_world = zoom ms_world (\<lambda>w m. m\<lparr>ms_world := w\<rparr>)"

definition on_spoll :: "(poller, 'a) prog \<Rightarrow> ('w messenger, 'a) prog" where
  "on_spoll = zoom ms_spoll (\<lambda>p m. m\<lparr>ms_spoll := p\<rparr>)"

definition on_both :: "(poller \<times> 'w, 'a) prog \<Rightarrow> ('w messenger, 'a) prog" where
  "on_both = zoom (\<lambda>m. (ms_spoll m, ms_world m)) (\<lambda>(p, w) m. m\<lparr>ms_spoll := p, ms_world := w\<rparr>)"

section \<open>Construction\<close>

definition SMessenger_initServer :: "'w posix \<Rightarrow> ('w messenger, int) prog" where
  "SMessenger_initServer P =
     bindp (on_world (stcp_server P ANY_IP_TXT 0)) (\<lambda>fd.
     bindp (modp (\<lambda>m. m\<lparr>ms_servsock := fd\<rparr>)) (\<lambda>_.
       if fd < 0 then ret (-1)
       else
         bindp (on_world (stcp_setNonBlocking P fd)) (\<lambda>_.
         bindp (on_world (stcp_getLocalIP P fd)) (\<lambda>_.
         bindp (on_world (stcp_getLocalPort P fd)) (\<lambda>_.
           ret 0)))))"

definition SMessenger_initMCast :: "'w posix \<Rightarrow> ('w messenger, int) prog" where
  "SMessenger_initMCast P =
     bindp (getp (\<lambda>m. (ms_device m, ms_mcip m, uint (ms_mcport m)))) (\<lambda>(device, mcip, mcport).
     bindp (on_world (sudp_mcast P device mcip mcport)) (\<lambda>fd.
     bindp (modp (\<lambda>m. m\<lparr>ms_mcsock := fd\<rparr>)) (\<lambda>_.
       if fd < 0 then ret (-1)
       else
         ret_on_error (on_spoll (SPoll_add (px_realloc P) fd POLL_FLAGS)) (\<lambda>_.
         bindp (on_world (stcp_setNonBlocking P fd)) (\<lambda>_.
           ret 0)))))"

text \<open>
  The address of the messenger: that of its device, or else the last entry of the array of
  interface addresses, which has as many cells as interfaces were counted.
\<close>

definition own_ip :: "'w posix \<Rightarrow> string option \<Rightarrow> ('w, 32 word) prog" where
  "own_ip P device =
     (case device of
        Some d \<Rightarrow> sockaddr_device2ip P d
      | None \<Rightarrow>
          bindp (sockaddr_interfaceCount P) (\<lambda>ninterfaces.
          bindp (sockaddr_ips P ninterfaces) (\<lambda>(res, ips).
            liftp (arr_get ips (ninterfaces - 1)))))"

definition SMessenger_new ::
    "'w posix \<Rightarrow> bool \<Rightarrow> string option \<Rightarrow> string \<Rightarrow> int \<Rightarrow> 'w \<Rightarrow> fault + 'w messenger" where
  "SMessenger_new P alloc device mcip mcport w =
     (case SPoll_new alloc of
        Inl f \<Rightarrow> Inl f
      | Inr p \<Rightarrow>
          (case
             bindp (SMessenger_initServer P) (\<lambda>r1.
               if r1 < 0 then faultp (Uncaught ''Could not init TCP server'')
               else
             bindp (modp (\<lambda>m. m\<lparr>ms_device := device, ms_mcip := mcip, ms_mcport := word_of_int mcport\<rparr>)) (\<lambda>_.
             bindp (SMessenger_initMCast P) (\<lambda>r2.
               if r2 < 0 then faultp (Uncaught ''Could not init MultiCast'')
               else
             bindp (getp ms_servsock) (\<lambda>servsock.
             bindp (on_world (stcp_getLocalPort P servsock)) (\<lambda>port.
             bindp (modp (\<lambda>m. m\<lparr>ms_port := word_of_int port\<rparr>)) (\<lambda>_.
             bindp (on_world (own_ip P device)) (\<lambda>ip.
               modp (\<lambda>m. m\<lparr>ms_ip := ip,
                 ms_sap := snd (sockaddr_set (sockaddr_int2ip ip) (uint (ms_port m)))\<rparr>))))))))
             \<lparr>ms_mcip = [], ms_device = None, ms_mcport = 0, ms_port = 0, ms_servsock = 0, ms_mcsock = 0,
              ms_ip = 0, ms_sap = zero_sockaddr, ms_spoll = p, ms_world = w\<rparr>
           of Inl f \<Rightarrow> Inl f | Inr (_, m) \<Rightarrow> Inr m))"

definition SMessenger_delete :: "'w posix \<Rightarrow> ('w messenger, unit) prog" where
  "SMessenger_delete P =
     bindp (getp (\<lambda>m. (ms_mcsock m, ms_device m, ms_mcip m, ms_servsock m))) (\<lambda>(mcsock, device, mcip, servsock).
     bindp (on_world (sudp_mclose P mcsock device mcip)) (\<lambda>_.
     bindp (on_world (callp (px_close P servsock))) (\<lambda>_.
       on_spoll SPoll_delete)))"

definition SMessenger_getMulticastSocket :: "'w messenger \<Rightarrow> int" where
  "SMessenger_getMulticastSocket m = ms_mcsock m"

definition SMessenger_getServerSocket :: "'w messenger \<Rightarrow> int" where
  "SMessenger_getServerSocket m = ms_servsock m"

definition SMessenger_getServerIP :: "'w messenger \<Rightarrow> 32 word" where
  "SMessenger_getServerIP m = ms_ip m"

definition SMessenger_getServerPort :: "'w messenger \<Rightarrow> int" where
  "SMessenger_getServerPort m = uint (ms_port m)"

section \<open>Connecting and sending\<close>

definition SMessenger_connect :: "'w posix \<Rightarrow> 32 word \<Rightarrow> 16 word \<Rightarrow> ('w messenger, int) prog" where
  "SMessenger_connect P ip port =
     ret_on_error (on_world (stcp_client P (sockaddr_int2ip ip) (uint port) False)) (\<lambda>fd.
     ret_on_error (on_world (stcp_waitConnection P fd MAX_CONN_TIMEOUT_MS)) (\<lambda>_.
     bindp (on_world (stcp_getLocalIP P fd)) (\<lambda>_.
     bindp (on_world (stcp_getLocalPort P fd)) (\<lambda>_.
     bindp (on_world (stcp_getIP P fd)) (\<lambda>_.
     bindp (on_world (stcp_getPort P fd)) (\<lambda>_.
     ret_on_error (on_spoll (SPoll_add (px_realloc P) fd POLL_FLAGS)) (\<lambda>_.
       ret fd)))))))"

text \<open>A multicast message carries the port of the TCP server.\<close>

definition SMessenger_send :: "'w posix \<Rightarrow> int \<Rightarrow> string \<Rightarrow> ('w messenger, int) prog" where
  "SMessenger_send P msgtag msg =
     (let bytes = int (length msg) in
      if MAX_DATALEN < bytes then ret (-1)
      else
        bindp (getp (\<lambda>m. (ms_port m, ms_mcsock m, ms_mcip m, uint (ms_mcport m)))) (\<lambda>(port, mcsock, mcip, mcport).
        bindp (on_world (sudp_mcsend P mcsock (frame msgtag port msg) mcip mcport)) (\<lambda>sent.
          if sent \<noteq> int HDRLEN + bytes then ret (-1) else ret 0)))"

definition SMessenger_sendTag :: "'w posix \<Rightarrow> int \<Rightarrow> ('w messenger, int) prog" where
  "SMessenger_sendTag P msgtag = SMessenger_send P msgtag []"

text \<open>A message to one peer carries the port of the connection.\<close>

definition SMessenger_sendTo :: "'w posix \<Rightarrow> int \<Rightarrow> int \<Rightarrow> string \<Rightarrow> ('w messenger, int) prog" where
  "SMessenger_sendTo P msgtag socket2peer msg =
     (let bytes = int (length msg) in
      if MAX_DATALEN < bytes then ret (-1)
      else
        bindp (on_world (stcp_getLocalPort P socket2peer)) (\<lambda>tcpPort.
        bindp (on_world (stcp_send P socket2peer (frame msgtag (word_of_int tcpPort) msg))) (\<lambda>sent.
          if sent \<noteq> int HDRLEN + bytes then ret (-1) else ret 0)))"

definition SMessenger_sendTagTo :: "'w posix \<Rightarrow> int \<Rightarrow> int \<Rightarrow> ('w messenger, int) prog" where
  "SMessenger_sendTagTo P msgtag socket2peer = SMessenger_sendTo P msgtag socket2peer []"

section \<open>Accepting connections\<close>

definition SMessenger_acceptConn :: "'w posix \<Rightarrow> int \<Rightarrow> ('w messenger, int) prog" where
  "SMessenger_acceptConn P servsock =
     ret_on_error (on_world (callp (px_accept P servsock))) (\<lambda>fd.
     bindp (on_spoll (SPoll_add (px_realloc P) fd POLL_FLAGS)) (\<lambda>_.
       ret 0))"

definition has_problem :: "16 word \<Rightarrow> bool" where
  "has_problem revents \<longleftrightarrow> has_flag revents POLLHUP \<or> has_flag revents POLLERR \<or> has_flag revents POLLNVAL"

definition SMessenger_listenConn :: "'w posix \<Rightarrow> ('w messenger, int) prog" where
  "SMessenger_listenConn P =
     bindp (getp ms_servsock) (\<lambda>servsock.
     bindp (on_world (callp (sys_poll1 P servsock POLL_FLAGS 0))) (\<lambda>(res, revents).
       if res > 0 then
         (if has_problem revents then
            bindp (on_world (callp (px_close P servsock))) (\<lambda>_. SMessenger_initServer P)
          else if has_flag revents POLLIN then SMessenger_acceptConn P servsock
          else ret 0)
       else ret 0))"

section \<open>Receiving\<close>

text \<open>\<open>usleep(1)\<close> and the result 0: nothing was taken from the socket.\<close>

definition not_ready :: "'w posix \<Rightarrow> int \<Rightarrow> sockaddr_in \<Rightarrow> ('w, int \<times> int \<times> string \<times> sockaddr_in) prog" where
  "not_ready P tag from =
     bindp (modp (px_usleep P 1)) (\<lambda>_. ret (0, tag, [], from))"

definition sender :: "sockaddr_in \<Rightarrow> sockaddr_in option \<Rightarrow> sockaddr_in" where
  "sender from a = (case a of None \<Rightarrow> from | Some b \<Rightarrow> b)"

text \<open>
  \<open>nextMsg\<close> gives its result, the tag, the contents of the buffer and the sender. The header is
  peeked at, then the whole frame; only a frame that is all there is taken out. The three parts
  of the function follow, the last first.
\<close>

definition nextMsg_extract ::
    "'w posix \<Rightarrow> int \<Rightarrow> int \<Rightarrow> smsg_header \<Rightarrow> int \<Rightarrow> sockaddr_in \<Rightarrow> ('w, int \<times> int \<times> string \<times> sockaddr_in) prog" where
  "nextMsg_extract P fd datasize hdr tag from =
     bindp (callp (sys_recvfrom P fd (HDRLEN + nat datasize) False)) (\<lambda>r.
     case r of
       Recv_Error _ \<Rightarrow> ret (-1, tag, [], from)
     | Recv_Data buf a \<Rightarrow>
         if length buf < HDRLEN + nat datasize then ret (-1, tag, [], sender from a)
         else
           let from' = (sender from a)\<lparr>sin_family := AF_INET, sin_port := htons (hdr_port hdr)\<rparr>;
               data = take (nat datasize) (drop HDRLEN buf) in
           if sin_addr from' = 0 then
             bindp (stcp_getIP P fd) (\<lambda>ip.
               ret (datasize + int HDRLEN, tag, data, from'\<lparr>sin_addr := htonl ip\<rparr>))
           else ret (datasize + int HDRLEN, tag, data, from'))"

definition nextMsg_body ::
    "'w posix \<Rightarrow> nat \<Rightarrow> int \<Rightarrow> int \<Rightarrow> int \<Rightarrow> smsg_header \<Rightarrow> int \<Rightarrow> sockaddr_in \<Rightarrow>
     ('w, int \<times> int \<times> string \<times> sockaddr_in) prog" where
  "nextMsg_body P stack fd len datasize hdr tag from =
     (if datasize < 0 then ret (-1, tag, [], from)
      else if len < datasize then ret (-1, tag, [], from)
      else if stack < HDRLEN + nat datasize then faultp Stack_Overflow
      else
        bindp (callp (sys_recvfrom P fd (HDRLEN + nat datasize) True)) (\<lambda>r.
        case r of
          Recv_Error _ \<Rightarrow>
            bindp (getp (px_errno P)) (\<lambda>e.
              if e = EAGAIN then ret (0, tag, [], from) else ret (-1, tag, [], from))
        | Recv_Data buf a \<Rightarrow>
            if length buf < nat datasize + HDRLEN then not_ready P tag (sender from a)
            else nextMsg_extract P fd datasize hdr tag (sender from a)))"

definition SMessenger_nextMsg ::
    "'w posix \<Rightarrow> nat \<Rightarrow> int \<Rightarrow> int \<Rightarrow> ('w, int \<times> int \<times> string \<times> sockaddr_in) prog" where
  "SMessenger_nextMsg P stack fd len =
     (if len \<le> 0 then ret (-1, 0, [], zero_sockaddr)
      else
        bindp (callp (sys_recvfrom P fd HDRLEN True)) (\<lambda>r.
        case r of
          Recv_Error _ \<Rightarrow>
            bindp (getp (px_errno P)) (\<lambda>e.
              if e = EAGAIN then not_ready P 0 zero_sockaddr else ret (-1, 0, [], zero_sockaddr))
        | Recv_Data head a \<Rightarrow>
            let from = sender zero_sockaddr a in
            if 0 < length head \<and> length head < HDRLEN then not_ready P 0 from
            else if length head = 0 then ret (-1, 0, [], from)
            else
              (case unpackhdr (hdr_of_mem head) of (datasize, hdr, tag, portFrom) \<Rightarrow>
                 nextMsg_body P stack fd len datasize hdr tag from)))"

definition SMessenger_socketErrorHandling :: "'w posix \<Rightarrow> int \<Rightarrow> ('w messenger, int) prog" where
  "SMessenger_socketErrorHandling P fd =
     bindp (getp ms_mcsock) (\<lambda>mcsock.
       if fd = mcsock then
         bindp (on_world (callp (px_close P fd))) (\<lambda>_.
         bindp (SMessenger_initMCast P) (\<lambda>_. ret 0))
       else
         bindp (on_spoll (SPoll_remove fd)) (\<lambda>_.
         bindp (on_world (callp (px_close P fd))) (\<lambda>_. ret 0)))"

definition disconnected :: "'w posix \<Rightarrow> int \<Rightarrow> ('w messenger, smsg option + nat) prog" where
  "disconnected P fd =
     bindp (SMessenger_socketErrorHandling P fd) (\<lambda>_.
       ret (Inl (Some (SMsg_new_error ERRCODE_PEER_DISCONNECTED 0 0 fd))))"

text \<open>
  One pass of \<open>recv\<close> over the polled descriptors: the message it returns (\<open>Inl\<close>), or the stack
  that is left for the next pass (\<open>Inr\<close>).
\<close>

fun recv_pass ::
    "'w posix \<Rightarrow> pollfd list \<Rightarrow> nat \<Rightarrow> int \<Rightarrow> nat \<Rightarrow> ('w messenger, smsg option + nat) prog" where
  "recv_pass P fds 0 i stack = ret (Inr stack)"
| "recv_pass P fds (Suc n) i stack =
     bindp (liftp (arr_get fds i)) (\<lambda>e.
       if pf_fd e \<noteq> 0 \<and> pf_revents e \<noteq> 0 then
         (if has_problem (pf_revents e) then disconnected P (pf_fd e)
          else if has_flag (pf_revents e) POLLIN then
            (if int stack < MAX_DATALEN then faultp Stack_Overflow
             else
               let stack' = stack - nat MAX_DATALEN in
               bindp (on_world (SMessenger_nextMsg P stack' (pf_fd e) MAX_DATALEN)) (\<lambda>(res, tag, data, from).
                 if res < 0 then disconnected P (pf_fd e)
                 else if res > 0 then
                   (if pf_fd e > 0 then
                      ret (Inl (Some (SMsg_new tag (sockaddr_getIP from) (word_of_int (sockaddr_getPort from))
                                        (pf_fd e) data)))
                    else recv_pass P fds n (i + 1) stack')
                 else recv_pass P fds n (i + 1) stack'))
          else recv_pass P fds n (i + 1) stack)
       else recv_pass P fds n (i + 1) stack)"

fun recv_loop :: "nat \<Rightarrow> 'w posix \<Rightarrow> int \<Rightarrow> int \<Rightarrow> nat \<Rightarrow> ('w messenger, smsg option) prog" where
  "recv_loop 0 P timeout limit stack = faultp No_Fuel"
| "recv_loop (Suc fuel) P timeout limit stack =
     bindp (on_both (SPoll_doPoll P timeout)) (\<lambda>n.
       if 0 < n then
         bindp (on_world (timing_current_millis P)) (\<lambda>now.
           if now < limit then
             bindp (on_spoll SPoll_getpolls) (\<lambda>(size, fds).
               if size < 0 then ret None
               else
                 bindp (case fds of
                          None \<Rightarrow> if size = 0 then ret (Inr stack) else faultp Null_Pointer
                        | Some xs \<Rightarrow> recv_pass P xs (nat size) 0 stack) (\<lambda>r.
                 case r of
                   Inl res \<Rightarrow> ret res
                 | Inr stack' \<Rightarrow> recv_loop fuel P timeout limit stack'))
           else ret None)
       else ret None)"

definition SMessenger_recv :: "nat \<Rightarrow> 'w posix \<Rightarrow> nat \<Rightarrow> int \<Rightarrow> ('w messenger, smsg option) prog" where
  "SMessenger_recv fuel P stack timeout =
     bindp (SMessenger_listenConn P) (\<lambda>r.
       if r < 0 then ret None
       else
         bindp (on_world (timing_current_millis P)) (\<lambda>now.
           recv_loop fuel P timeout (now + timeout) stack))"

end
