(* ===== verification/Bus.thy ===== *)
theory Bus
  imports Contacts Messenger
begin

text \<open>
  SBus.cpp: the bus. An object holds its name, the messenger, the contacts and the queue of the
  messages the receiving thread has put aside for the client. The members \<open>smessenger\<close> and
  \<open>scontacts\<close> point to objects made by the constructor and never changed, so they are part of the
  record; so are the queued messages, each owned by the queue and then by \<open>recv\<close>, which deletes
  it. The mutex has no effect within one thread; the theory Bus_Threads has it.
\<close>

section \<open>State\<close>

record 'w sbus =
  sb_name :: string
  sb_messenger :: "'w messenger"
  sb_contacts :: contacts
  sb_inq :: "smsg list"
  sb_alive :: bool

abbreviation (input) SBUS_FIND :: int where "SBUS_FIND \<equiv> 0"
abbreviation (input) SBUS_MANAMEIS :: int where "SBUS_MANAMEIS \<equiv> -1"
abbreviation (input) SBUS_NAMETAKEN :: int where "SBUS_NAMETAKEN \<equiv> -2"
abbreviation (input) INVALID_SOCKET :: int where "INVALID_SOCKET \<equiv> -1"
abbreviation (input) WAIT_MS :: int where "WAIT_MS \<equiv> 50"
abbreviation (input) SLEEP_uS :: int where "SLEEP_uS \<equiv> 5000"
abbreviation (input) DEFAULT_MCPORT :: int where "DEFAULT_MCPORT \<equiv> 10001"
abbreviation (input) DEFAULT_MCIP :: string where "DEFAULT_MCIP \<equiv> ''224.0.23.130''"

definition on_messenger :: "('w messenger, 'a) prog \<Rightarrow> ('w sbus, 'a) prog" where
  "on_messenger = zoom sb_messenger (\<lambda>m b. b\<lparr>sb_messenger := m\<rparr>)"

definition on_contacts :: "'a contacts_prog \<Rightarrow> ('w sbus, 'a) prog" where
  "on_contacts = zoom sb_contacts (\<lambda>c b. b\<lparr>sb_contacts := c\<rparr>)"

section \<open>Names\<close>

definition SBus_getName :: "'w sbus \<Rightarrow> string" where
  "SBus_getName b = sb_name b"

text \<open>The name of a bus that was given none, and the \<open>peerName\<close> that \<open>processSMsg\<close> computes.\<close>

definition location_name :: "32 word \<Rightarrow> 16 word \<Rightarrow> string" where
  "location_name ip port = ''sbus://'' @ sockaddr_int2ip ip @ '':'' @ show_int (uint port)"

definition SBus_setDefaultSafeName :: "('w sbus, unit) prog" where
  "SBus_setDefaultSafeName =
     bindp (getp (\<lambda>b. SMessenger_getServerIP (sb_messenger b))) (\<lambda>ip.
     bindp (getp (\<lambda>b. SMessenger_getServerPort (sb_messenger b))) (\<lambda>port.
       modp (\<lambda>b. b\<lparr>sb_name := location_name ip (word_of_int port)\<rparr>)))"

section \<open>Construction\<close>

text \<open>
  The arguments \<open>alloc\<close> and \<open>thread\<close> say whether the messenger's array can be allocated and the
  receiving thread be started.
\<close>

definition SBus_init ::
    "'w posix \<Rightarrow> bool \<Rightarrow> bool \<Rightarrow> string option \<Rightarrow> string \<Rightarrow> int \<Rightarrow> 'w \<Rightarrow> fault + 'w sbus" where
  "SBus_init P alloc thread device mcip mcport w =
     (case SMessenger_new P alloc device mcip mcport w of
        Inl f \<Rightarrow> Inl f
      | Inr m \<Rightarrow>
          (case
             bindp SBus_setDefaultSafeName (\<lambda>_.
             bindp (modp (\<lambda>b. b\<lparr>sb_alive := True\<rparr>)) (\<lambda>_.
               if \<not> thread then faultp (Uncaught ''Cannot start receiving loop thread'') else ret ()))
             \<lparr>sb_name = [], sb_messenger = m, sb_contacts = SContacts_new, sb_inq = [], sb_alive = False\<rparr>
           of Inl f \<Rightarrow> Inl f | Inr (_, b) \<Rightarrow> Inr b))"

definition SBus_new :: "'w posix \<Rightarrow> bool \<Rightarrow> bool \<Rightarrow> 'w \<Rightarrow> fault + 'w sbus" where
  "SBus_new P alloc thread = SBus_init P alloc thread None DEFAULT_MCIP DEFAULT_MCPORT"

definition SBus_new_port :: "'w posix \<Rightarrow> bool \<Rightarrow> bool \<Rightarrow> int \<Rightarrow> 'w \<Rightarrow> fault + 'w sbus" where
  "SBus_new_port P alloc thread port = SBus_init P alloc thread None DEFAULT_MCIP port"

definition SBus_new_device :: "'w posix \<Rightarrow> bool \<Rightarrow> bool \<Rightarrow> string option \<Rightarrow> 'w \<Rightarrow> fault + 'w sbus" where
  "SBus_new_device P alloc thread device = SBus_init P alloc thread device DEFAULT_MCIP DEFAULT_MCPORT"

definition SBus_new_device_port ::
    "'w posix \<Rightarrow> bool \<Rightarrow> bool \<Rightarrow> string option \<Rightarrow> int \<Rightarrow> 'w \<Rightarrow> fault + 'w sbus" where
  "SBus_new_device_port P alloc thread device port = SBus_init P alloc thread device DEFAULT_MCIP port"

definition SBus_new_at ::
    "'w posix \<Rightarrow> bool \<Rightarrow> bool \<Rightarrow> string option \<Rightarrow> string \<Rightarrow> int \<Rightarrow> 'w \<Rightarrow> fault + 'w sbus" where
  "SBus_new_at P alloc thread device mcip mcport = SBus_init P alloc thread device mcip mcport"

text \<open>The destructor calls those of the two members; it does not wait for the receiving thread.\<close>

definition SBus_delete :: "'w posix \<Rightarrow> ('w sbus, unit) prog" where
  "SBus_delete P =
     bindp (modp (\<lambda>b. b\<lparr>sb_alive := False\<rparr>)) (\<lambda>_.
     bindp (on_contacts SContacts_delete) (\<lambda>_.
       on_messenger (SMessenger_delete P)))"

section \<open>Sending\<close>

definition SBus_sendTag :: "'w posix \<Rightarrow> int \<Rightarrow> ('w sbus, int) prog" where
  "SBus_sendTag P msgtag = on_messenger (SMessenger_sendTag P msgtag)"

definition SBus_send :: "'w posix \<Rightarrow> int \<Rightarrow> string \<Rightarrow> ('w sbus, int) prog" where
  "SBus_send P msgtag msg = on_messenger (SMessenger_send P msgtag msg)"

definition SBus_setName :: "'w posix \<Rightarrow> string \<Rightarrow> ('w sbus, int) prog" where
  "SBus_setName P name =
     bindp (modp (\<lambda>b. b\<lparr>sb_name := name\<rparr>)) (\<lambda>_. SBus_send P SBUS_MANAMEIS name)"

text \<open>
  A peer without a socket is connected to. A location with the address \<open>-1\<close> is unknown: then the
  peer is searched by its name.
\<close>

definition reconnect :: "'w posix \<Rightarrow> cxx \<Rightarrow> nat \<Rightarrow> 32 word \<Rightarrow> 16 word \<Rightarrow> ('w sbus, int) prog" where
  "reconnect P x a ip port =
     (if ip \<noteq> -1 then
        bindp (on_messenger (SMessenger_connect P ip port)) (\<lambda>fd.
        if 0 \<le> fd then bindp (on_contacts (SContacts_updateSocket x a fd)) (\<lambda>_. ret fd)
        else ret fd)
      else
        bindp (on_contacts (ask x a SPeerInfo_getName)) (\<lambda>name.
        if name \<noteq> [] then bindp (SBus_send P SBUS_FIND name) (\<lambda>_. ret (-1))
        else ret (-1)))"

definition SBus_peer2Socket :: "'w posix \<Rightarrow> cxx \<Rightarrow> int \<Rightarrow> ('w sbus, int) prog" where
  "SBus_peer2Socket P x peer =
     bindp (on_contacts (getp (\<lambda>c. SContacts_findPeer c peer))) (\<lambda>r.
     case r of
       None \<Rightarrow> ret (-1)
     | Some a \<Rightarrow>
         bindp (on_contacts (ask x a SPeerInfo_getSocket)) (\<lambda>socket.
         if 0 \<le> socket then ret socket
         else
           bindp (on_contacts (ask x a SPeerInfo_getIP)) (\<lambda>ip.
           bindp (on_contacts (ask x a SPeerInfo_getPort)) (\<lambda>port.
             reconnect P x a ip port))))"

definition SBus_sendTagTo :: "'w posix \<Rightarrow> cxx \<Rightarrow> int \<Rightarrow> int \<Rightarrow> ('w sbus, int) prog" where
  "SBus_sendTagTo P x msgtag peer =
     bindp (SBus_peer2Socket P x peer) (\<lambda>socket.
       if socket < 0 then ret (-1) else on_messenger (SMessenger_sendTagTo P msgtag socket))"

definition SBus_sendTo :: "'w posix \<Rightarrow> cxx \<Rightarrow> int \<Rightarrow> int \<Rightarrow> string \<Rightarrow> ('w sbus, int) prog" where
  "SBus_sendTo P x msgtag peer msg =
     bindp (SBus_peer2Socket P x peer) (\<lambda>socket.
       if socket < 0 then ret (-1) else on_messenger (SMessenger_sendTo P msgtag socket msg))"

section \<open>Processing a message\<close>

text \<open>
  The peer a message comes from: the one that has its socket, or else its location, or else a new
  one. The new one is entered with \<open>name\<close>, the name of the bus itself, not the \<open>peerName\<close> made for
  it; and the pointer that \<open>updateSocket\<close> returns is not kept.
\<close>

definition peer_of_message :: "cxx \<Rightarrow> smsg \<Rightarrow> ('w sbus, nat) prog" where
  "peer_of_message x smsg =
     (let socket = SMsg_getSocket smsg; ip = SMsg_getIP smsg; port = word_of_int (SMsg_getPort smsg) in
      bindp (on_contacts (getp (\<lambda>c. SContacts_findFromSocket c socket))) (\<lambda>r.
      case r of
        Some a \<Rightarrow> ret a
      | None \<Rightarrow>
          bindp (on_contacts (getp (\<lambda>c. SContacts_findAddr c ip port))) (\<lambda>r.
          bindp (getp (\<lambda>b. (SMessenger_getMulticastSocket (sb_messenger b), sb_name b))) (\<lambda>(mcsock, name).
          case r of
            None \<Rightarrow>
              on_contacts (SContacts_add x (if socket \<noteq> mcsock then socket else INVALID_SOCKET) ip port name)
          | Some a \<Rightarrow>
              if socket \<noteq> mcsock then bindp (on_contacts (SContacts_updateSocket x a socket)) (\<lambda>_. ret a)
              else ret a))))"

text \<open>
  What a message with a tag of 0 or below does; the result of \<open>processSMsg\<close> is \<open>-1\<close> when the
  message is not for the client.
\<close>

definition process_system :: "'w posix \<Rightarrow> cxx \<Rightarrow> nat \<Rightarrow> int \<Rightarrow> smsg \<Rightarrow> ('w sbus, int) prog" where
  "process_system P x a peer smsg =
     bindp (getp sb_name) (\<lambda>name.
     let msgtag = SMsg_getMsgTag smsg; msg = SMsg_getMsg smsg in
     if msgtag = SBUS_FIND then
       bindp (if name = msg then SBus_sendTo P x SBUS_MANAMEIS peer name else ret 0) (\<lambda>_. ret (-1))
     else if msgtag = SBUS_MANAMEIS then
       bindp (on_contacts (SContacts_updateName x a msg)) (\<lambda>_.
       bindp (if name = msg then SBus_sendTo P x SBUS_NAMETAKEN peer name else ret 0) (\<lambda>_. ret peer))
     else if msgtag = SBUS_NAMETAKEN then
       bindp (on_contacts (SContacts_updateName x a msg)) (\<lambda>_. ret peer)
     else ret peer)"

text \<open>The arguments of the log lines are evaluated, so they count as activity of the peer.\<close>

definition process_data :: "'w posix \<Rightarrow> cxx \<Rightarrow> smsg \<Rightarrow> ('w sbus, int) prog" where
  "process_data P x smsg =
     bindp (peer_of_message x smsg) (\<lambda>a.
     bindp (on_contacts (ask x a SPeerInfo_getPeer)) (\<lambda>peer.
     bindp (on_contacts (ask x a SPeerInfo_getSocket)) (\<lambda>_.
       if SMsg_getMsgTag smsg \<le> 0 then process_system P x a peer smsg else ret peer)))"

definition process_error :: "cxx \<Rightarrow> int \<Rightarrow> ('w sbus, int) prog" where
  "process_error x socket =
     bindp (on_contacts (getp (\<lambda>c. SContacts_findFromSocket c socket))) (\<lambda>r.
     case r of
       None \<Rightarrow> ret (-1)
     | Some a \<Rightarrow>
         bindp (on_contacts (SContacts_updateSocket x a INVALID_SOCKET)) (\<lambda>a'.
         bindp (on_contacts (ask x a' SPeerInfo_getPeer)) (\<lambda>_. ret (-1))))"

definition SBus_processSMsg :: "'w posix \<Rightarrow> cxx \<Rightarrow> smsg \<Rightarrow> ('w sbus, int) prog" where
  "SBus_processSMsg P x smsg =
     (if \<not> SMsg_isError smsg then
        bindp (getp (\<lambda>b. (SMessenger_getServerIP (sb_messenger b), SMessenger_getServerPort (sb_messenger b))))
          (\<lambda>(server_ip, server_port).
            if SMsg_getIP smsg = server_ip \<and> SMsg_getPort smsg = server_port then ret (-1)
            else process_data P x smsg)
      else process_error x (SMsg_getSocket smsg))"

section \<open>Receiving\<close>

text \<open>One round of the receiving thread, and its loop, on fuel: it ends when \<open>alive\<close> is false.\<close>

definition SBus_inRound :: "nat \<Rightarrow> 'w posix \<Rightarrow> nat \<Rightarrow> ('w sbus, unit) prog" where
  "SBus_inRound fuel P stack =
     bindp (on_messenger (SMessenger_recv fuel P stack WAIT_MS)) (\<lambda>r.
       case r of None \<Rightarrow> ret () | Some m \<Rightarrow> modp (\<lambda>b. b\<lparr>sb_inq := sb_inq b @ [m]\<rparr>))"

fun SBus_inLoop :: "nat \<Rightarrow> nat \<Rightarrow> 'w posix \<Rightarrow> nat \<Rightarrow> ('w sbus, unit) prog" where
  "SBus_inLoop 0 fuel P stack = faultp No_Fuel"
| "SBus_inLoop (Suc n) fuel P stack =
     bindp (SBus_inRound fuel P stack) (\<lambda>_.
     bindp (getp sb_alive) (\<lambda>alive. if alive then SBus_inLoop n fuel P stack else ret ()))"

definition SBus_getPending :: "'w sbus \<Rightarrow> int" where
  "SBus_getPending b = int (length (sb_inq b))"

text \<open>
  \<open>recv\<close>: the result, and what it stores through its arguments: the tag, the peer, the message.
  Each turn of the loop either sleeps, when the queue is empty, or takes the first message.
\<close>

fun SBus_recv :: "nat \<Rightarrow> 'w posix \<Rightarrow> cxx \<Rightarrow> ('w sbus, int \<times> int \<times> int \<times> string) prog" where
  "SBus_recv 0 P x = faultp No_Fuel"
| "SBus_recv (Suc n) P x =
     bindp (getp sb_inq) (\<lambda>q.
     case q of
       [] \<Rightarrow>
         bindp (on_messenger (on_world (modp (px_usleep P SLEEP_uS)))) (\<lambda>_. SBus_recv n P x)
     | m # q' \<Rightarrow>
         bindp (modp (\<lambda>b. b\<lparr>sb_inq := q'\<rparr>)) (\<lambda>_.
         bindp (SBus_processSMsg P x m) (\<lambda>peer.
         if 0 \<le> peer then
           ret (int (length (SMsg_getMsg m)), SMsg_getMsgTag m, peer, SMsg_getMsg m)
         else SBus_recv n P x)))"

end
