(* ===== verification/Contacts_Laws.thy ===== *)
theory Contacts_Laws
  imports Contacts
begin

text \<open>
  The laws of the contacts table. The core of a state is all of it but the activity times, with
  the hash maps read as functions; an invariant on cores says that every pointer a map holds is
  that of a live object which is filed under its own number. Every operation is described by
  what it does to the core.
\<close>

section \<open>The core of a state\<close>

fun still :: "cell \<Rightarrow> cell" where
  "still (Live p) = Live (touched 0 p)"
| "still (Freed p) = Freed (touched 0 p)"

record core =
  co_last :: int
  co_peers :: "int \<Rightarrow> nat option"
  co_addr :: "string \<Rightarrow> nat option"
  co_name :: "string \<Rightarrow> nat option"
  co_sock :: "int \<Rightarrow> nat option"
  co_heap :: "nat \<Rightarrow> cell option"
  co_next :: nat

definition core_of :: "contacts \<Rightarrow> core" where
  "core_of c =
     \<lparr>co_last = ct_lastPeerId c, co_peers = hm_find (ct_peers c), co_addr = hm_find (ct_addr2peer c),
      co_name = hm_find (ct_name2peer c), co_sock = hm_find (ct_socket2peer c),
      co_heap = (\<lambda>a. map_option still (ct_heap c a)), co_next = ct_next c\<rparr>"

lemma core_of_sel [simp]:
  "co_last (core_of c) = ct_lastPeerId c" "co_peers (core_of c) = hm_find (ct_peers c)"
  "co_addr (core_of c) = hm_find (ct_addr2peer c)" "co_name (core_of c) = hm_find (ct_name2peer c)"
  "co_sock (core_of c) = hm_find (ct_socket2peer c)" "co_next (core_of c) = ct_next c"
  by (simp_all add: core_of_def)

fun cell_info :: "cell \<Rightarrow> peerinfo" where
  "cell_info (Live p) = p"
| "cell_info (Freed p) = p"

abbreviation second :: "int \<Rightarrow> bool" where
  "second t \<equiv> -1 \<le> t \<and> t < 2147483647"

definition clock_ok :: "cxx \<Rightarrow> bool" where
  "clock_ok x \<longleftrightarrow> (\<forall>n. second (cx_clock x n))"

definition sane :: "contacts \<Rightarrow> bool" where
  "sane c \<longleftrightarrow>
     hm_inv (ct_peers c) \<and> hm_inv (ct_addr2peer c) \<and> hm_inv (ct_name2peer c) \<and>
     hm_inv (ct_socket2peer c) \<and> second (ct_lastCleanUp c) \<and>
     (\<forall>a cell. ct_heap c a = Some cell \<longrightarrow> second (pi_lastActivity (cell_info cell)))"

text \<open>
  A later state with a given core that has touched no object but \<open>a\<close>.
\<close>

definition later :: "nat \<Rightarrow> contacts \<Rightarrow> core \<Rightarrow> contacts \<Rightarrow> bool" where
  "later a c t c' \<longleftrightarrow>
     sane c' \<and> core_of c' = t \<and> (\<forall>b. b \<noteq> a \<longrightarrow> ct_heap c' b = ct_heap c b) \<and>
     ct_lastCleanUp c' = ct_lastCleanUp c \<and> ct_tick c \<le> ct_tick c'"

lemma later_refl: "sane c \<Longrightarrow> later a c (core_of c) c"
  by (simp add: later_def)

lemma later_trans: "later a c t c' \<Longrightarrow> later a c' t' c'' \<Longrightarrow> later a c t' c''"
  by (simp add: later_def)

lemma laterD:
  assumes "later a c t c'"
  shows "sane c'" "core_of c' = t" "b \<noteq> a \<Longrightarrow> ct_heap c' b = ct_heap c b"
    "ct_lastCleanUp c' = ct_lastCleanUp c" "ct_tick c \<le> ct_tick c'"
  using assms by (auto simp: later_def)

section \<open>Rules for the primitive steps\<close>

lemma runs_current_seconds [runs_simps]:
  "runs (current_seconds x) c Q = Q (cx_clock x (ct_tick c)) (c\<lparr>ct_tick := Suc (ct_tick c)\<rparr>)"
  by (simp add: current_seconds_def runs_simps)

lemma runs_load: "ct_heap c a = Some (Live p) \<Longrightarrow> runs (load x a) c Q = Q p c"
  by (simp add: load_def runs_simps read_cell_def)

lemma core_heap_live:
  "co_heap (core_of c) a = Some (Live p) \<longleftrightarrow> (\<exists>q. ct_heap c a = Some (Live q) \<and> p = touched 0 q)"
  by (auto simp: core_of_def elim: still.elims)

definition plain_getter :: "(int \<Rightarrow> peerinfo \<Rightarrow> 'a \<times> peerinfo) \<Rightarrow> (peerinfo \<Rightarrow> 'a) \<Rightarrow> bool" where
  "plain_getter g f \<longleftrightarrow> (\<forall>now p. g now p = (f p, touched now p) \<and> f (touched now p) = f p)"

lemma plain_getters:
  "plain_getter SPeerInfo_getPeer pi_peer" "plain_getter SPeerInfo_getIP pi_ip"
  "plain_getter SPeerInfo_getPort pi_port" "plain_getter SPeerInfo_getSocket pi_socket"
  "plain_getter SPeerInfo_getName pi_name"
  "plain_getter SPeerInfo_getAddr (\<lambda>p. ipnport2addr (pi_ip p) (pi_port p))"
  by (simp_all add: plain_getter_def SPeerInfo_getters)

lemma ask_live:
  assumes "plain_getter g f" "ct_heap c a = Some (Live p)"
  shows "ask x a g c =
    Inr (f p, c\<lparr>ct_tick := Suc (ct_tick c),
               ct_heap := (ct_heap c)(a \<mapsto> Live (touched (cx_clock x (ct_tick c)) p))\<rparr>)"
  using assms
  by (simp add: ask_def current_seconds_def load_def read_cell_def store_def plain_getter_def
      bindp_def prog_simps)

lemma runs_ask:
  assumes "plain_getter g f" "co_heap (core_of c) a = Some (Live p)" "sane c" "clock_ok x"
    and "\<And>c'. later a c (core_of c) c' \<Longrightarrow> Q (f p) c'"
  shows "runs (ask x a g) c Q"
proof -
  obtain q where q: "ct_heap c a = Some (Live q)" "p = touched 0 q"
    using assms(2) by (auto simp: core_heap_live)
  let ?c = "c\<lparr>ct_tick := Suc (ct_tick c),
               ct_heap := (ct_heap c)(a \<mapsto> Live (touched (cx_clock x (ct_tick c)) q))\<rparr>"
  have "later a c (core_of c) ?c"
    using assms(3, 4) q by (auto simp: later_def sane_def core_of_def fun_eq_iff clock_ok_def)
  then have "Q (f p) ?c"
    by (rule assms(5))
  moreover have "f p = f q"
    using assms(1) q by (simp add: plain_getter_def)
  ultimately show ?thesis
    by (simp add: runs_def ask_live [OF assms(1) q(1)])
qed

lemma runs_erase_found:
  assumes "cx_erase_end x \<or> hm_find m k \<noteq> None" "hm_inv m"
  shows "\<exists>m'. erase_found x k m = Inr m' \<and> hm_inv m' \<and> hm_find m' = (hm_find m)(k := None)"
  using assms
  by (cases "hm_find m k") (auto simp: erase_found_def hm_laws fun_eq_iff intro: exI [of _ m])

lemma runs_erase_peer:
  assumes "cx_erase_end x \<or> co_peers (core_of c) k \<noteq> None" "sane c"
    and "\<And>c'. later a c ((core_of c)\<lparr>co_peers := (co_peers (core_of c))(k := None)\<rparr>) c' \<Longrightarrow> Q () c'"
  shows "runs (erase_peer x k) c Q"
proof -
  obtain m' where "erase_found x k (ct_peers c) = Inr m'" "hm_inv m'"
    "hm_find m' = (hm_find (ct_peers c))(k := None)"
    using runs_erase_found [of x "ct_peers c" k] assms(1, 2) by (auto simp: sane_def)
  then show ?thesis
    using assms(2)
    by (auto simp: erase_peer_def runs_simps later_def sane_def core_of_def intro!: assms(3))
qed

lemma runs_erase_addr:
  assumes "cx_erase_end x \<or> co_addr (core_of c) k \<noteq> None" "sane c"
    and "\<And>c'. later a c ((core_of c)\<lparr>co_addr := (co_addr (core_of c))(k := None)\<rparr>) c' \<Longrightarrow> Q () c'"
  shows "runs (erase_addr x k) c Q"
proof -
  obtain m' where "erase_found x k (ct_addr2peer c) = Inr m'" "hm_inv m'"
    "hm_find m' = (hm_find (ct_addr2peer c))(k := None)"
    using runs_erase_found [of x "ct_addr2peer c" k] assms(1, 2) by (auto simp: sane_def)
  then show ?thesis
    using assms(2)
    by (auto simp: erase_addr_def runs_simps later_def sane_def core_of_def intro!: assms(3))
qed

lemma runs_erase_name:
  assumes "cx_erase_end x \<or> co_name (core_of c) k \<noteq> None" "sane c"
    and "\<And>c'. later a c ((core_of c)\<lparr>co_name := (co_name (core_of c))(k := None)\<rparr>) c' \<Longrightarrow> Q () c'"
  shows "runs (erase_name x k) c Q"
proof -
  obtain m' where "erase_found x k (ct_name2peer c) = Inr m'" "hm_inv m'"
    "hm_find m' = (hm_find (ct_name2peer c))(k := None)"
    using runs_erase_found [of x "ct_name2peer c" k] assms(1, 2) by (auto simp: sane_def)
  then show ?thesis
    using assms(2)
    by (auto simp: erase_name_def runs_simps later_def sane_def core_of_def intro!: assms(3))
qed

lemma runs_erase_socket:
  assumes "cx_erase_end x \<or> co_sock (core_of c) k \<noteq> None" "sane c"
    and "\<And>c'. later a c ((core_of c)\<lparr>co_sock := (co_sock (core_of c))(k := None)\<rparr>) c' \<Longrightarrow> Q () c'"
  shows "runs (erase_socket x k) c Q"
proof -
  obtain m' where "erase_found x k (ct_socket2peer c) = Inr m'" "hm_inv m'"
    "hm_find m' = (hm_find (ct_socket2peer c))(k := None)"
    using runs_erase_found [of x "ct_socket2peer c" k] assms(1, 2) by (auto simp: sane_def)
  then show ?thesis
    using assms(2)
    by (auto simp: erase_socket_def runs_simps later_def sane_def core_of_def intro!: assms(3))
qed

lemma runs_delete:
  assumes "co_heap (core_of c) a = Some (Live p)" "sane c"
    and "\<And>c'. later a c ((core_of c)\<lparr>co_heap := (co_heap (core_of c))(a \<mapsto> Freed p)\<rparr>) c' \<Longrightarrow> Q () c'"
  shows "runs (delete_peerinfo a) c Q"
proof -
  obtain q where q: "ct_heap c a = Some (Live q)" "p = touched 0 q"
    using assms(1) by (auto simp: core_heap_live)
  have act: "second (pi_lastActivity q)"
    using assms(2) q(1) by (fastforce simp: sane_def)
  let ?c = "c\<lparr>ct_heap := (ct_heap c)(a \<mapsto> Freed q)\<rparr>"
  have "later a c ((core_of c)\<lparr>co_heap := (co_heap (core_of c))(a \<mapsto> Freed p)\<rparr>) ?c"
    using assms(2) q act by (auto simp: later_def sane_def core_of_def fun_eq_iff)
  then show ?thesis
    using assms(3) q by (simp add: runs_def delete_peerinfo_def free_cell_def)
qed

lemma runs_new:
  assumes "sane c" "clock_ok x"
    and "\<And>c'. later (ct_next c) c
           ((core_of c)\<lparr>co_heap := (co_heap (core_of c))(ct_next c \<mapsto> Live (SPeerInfo_new 0 peer socket ip port name)),
                       co_next := Suc (ct_next c)\<rparr>) c' \<Longrightarrow> Q (ct_next c) c'"
  shows "runs (new_peerinfo x peer socket ip port name) c Q"
proof -
  let ?now = "cx_clock x (ct_tick c)"
  let ?c = "c\<lparr>ct_tick := Suc (ct_tick c),
      ct_heap := (ct_heap c)(ct_next c \<mapsto> Live (SPeerInfo_new ?now peer socket ip port name)),
      ct_next := Suc (ct_next c)\<rparr>"
  have "later (ct_next c) c
      ((core_of c)\<lparr>co_heap := (co_heap (core_of c))(ct_next c \<mapsto> Live (SPeerInfo_new 0 peer socket ip port name)),
                  co_next := Suc (ct_next c)\<rparr>) ?c"
    using assms(1, 2)
    by (auto simp: later_def sane_def core_of_def fun_eq_iff clock_ok_def SPeerInfo_new_def touched_def)
  then show ?thesis
    using assms(3) by (simp add: new_peerinfo_def runs_simps)
qed

section \<open>The invariant of a core\<close>

definition core_ok :: "core \<Rightarrow> bool" where
  "core_ok t \<longleftrightarrow>
     0 \<le> co_last t \<and> co_last t \<le> 2147483647 \<and>
     (\<forall>a. co_heap t a \<noteq> None \<longrightarrow> a < co_next t) \<and>
     (\<forall>k a. co_peers t k = Some a \<longrightarrow>
        0 < k \<and> k \<le> co_last t \<and> (\<exists>p. co_heap t a = Some (Live p) \<and> pi_peer p = k)) \<and>
     (\<forall>s a. co_addr t s = Some a \<longleftrightarrow>
        (\<exists>p. co_heap t a = Some (Live p) \<and> co_peers t (pi_peer p) = Some a \<and> pi_addr p = s)) \<and>
     (\<forall>s a. co_name t s = Some a \<longrightarrow>
        (\<exists>p. co_heap t a = Some (Live p) \<and> co_peers t (pi_peer p) = Some a \<and> pi_name p = s)) \<and>
     (\<forall>s a. co_sock t s = Some a \<longrightarrow>
        (\<exists>p. co_heap t a = Some (Live p) \<and> co_peers t (pi_peer p) = Some a \<and> pi_socket p = s))"

definition unindexed :: "peerinfo \<Rightarrow> core \<Rightarrow> core" where
  "unindexed p t =
     t\<lparr>co_peers := (co_peers t)(pi_peer p := None), co_addr := (co_addr t)(pi_addr p := None),
       co_name := (co_name t)(pi_name p := None), co_sock := (co_sock t)(pi_socket p := None)\<rparr>"

definition indexed :: "nat \<Rightarrow> peerinfo \<Rightarrow> core \<Rightarrow> core" where
  "indexed a p t =
     t\<lparr>co_peers := (co_peers t)(pi_peer p \<mapsto> a), co_addr := (co_addr t)(pi_addr p \<mapsto> a),
       co_name := (co_name t)(pi_name p \<mapsto> a), co_sock := (co_sock t)(pi_socket p \<mapsto> a)\<rparr>"

definition freed :: "nat \<Rightarrow> peerinfo \<Rightarrow> core \<Rightarrow> core" where
  "freed a p t = t\<lparr>co_heap := (co_heap t)(a \<mapsto> Freed p)\<rparr>"

definition allocated :: "peerinfo \<Rightarrow> core \<Rightarrow> core" where
  "allocated p t = t\<lparr>co_heap := (co_heap t)(co_next t \<mapsto> Live p), co_next := Suc (co_next t)\<rparr>"

lemma core_steps_sel [simp]:
  "co_last (unindexed p t) = co_last t" "co_heap (unindexed p t) = co_heap t"
  "co_next (unindexed p t) = co_next t"
  "co_peers (unindexed p t) = (co_peers t)(pi_peer p := None)"
  "co_addr (unindexed p t) = (co_addr t)(pi_addr p := None)"
  "co_name (unindexed p t) = (co_name t)(pi_name p := None)"
  "co_sock (unindexed p t) = (co_sock t)(pi_socket p := None)"
  "co_last (indexed a p t) = co_last t" "co_heap (indexed a p t) = co_heap t"
  "co_next (indexed a p t) = co_next t"
  "co_peers (indexed a p t) = (co_peers t)(pi_peer p \<mapsto> a)"
  "co_addr (indexed a p t) = (co_addr t)(pi_addr p \<mapsto> a)"
  "co_name (indexed a p t) = (co_name t)(pi_name p \<mapsto> a)"
  "co_sock (indexed a p t) = (co_sock t)(pi_socket p \<mapsto> a)"
  "co_last (freed a p t) = co_last t" "co_heap (freed a p t) = (co_heap t)(a \<mapsto> Freed p)"
  "co_next (freed a p t) = co_next t" "co_peers (freed a p t) = co_peers t"
  "co_addr (freed a p t) = co_addr t" "co_name (freed a p t) = co_name t"
  "co_sock (freed a p t) = co_sock t"
  "co_last (allocated p t) = co_last t"
  "co_heap (allocated p t) = (co_heap t)(co_next t \<mapsto> Live p)"
  "co_next (allocated p t) = Suc (co_next t)" "co_peers (allocated p t) = co_peers t"
  "co_addr (allocated p t) = co_addr t" "co_name (allocated p t) = co_name t"
  "co_sock (allocated p t) = co_sock t"
  by (simp_all add: unindexed_def indexed_def freed_def allocated_def)

text \<open>The peer filed under number \<open>k\<close>.\<close>

definition filed :: "core \<Rightarrow> nat \<Rightarrow> peerinfo \<Rightarrow> bool" where
  "filed t a p \<longleftrightarrow> co_heap t a = Some (Live p) \<and> co_peers t (pi_peer p) = Some a"

text \<open>No map holds the pointer \<open>a\<close>.\<close>

definition unreferenced :: "core \<Rightarrow> nat \<Rightarrow> bool" where
  "unreferenced t a \<longleftrightarrow>
     (\<forall>k. co_peers t k \<noteq> Some a) \<and> (\<forall>k. co_addr t k \<noteq> Some a) \<and>
     (\<forall>k. co_name t k \<noteq> Some a) \<and> (\<forall>k. co_sock t k \<noteq> Some a)"

lemma core_okD:
  assumes "core_ok t"
  shows "0 \<le> co_last t" "co_last t \<le> 2147483647"
    "co_heap t a = Some cell \<Longrightarrow> a < co_next t"
    "co_peers t k = Some a \<Longrightarrow> 0 < k \<and> k \<le> co_last t \<and> (\<exists>p. filed t a p \<and> pi_peer p = k)"
    "co_addr t s = Some a \<longleftrightarrow> (\<exists>p. filed t a p \<and> pi_addr p = s)"
    "co_name t n = Some a \<Longrightarrow> \<exists>p. filed t a p \<and> pi_name p = n"
    "co_sock t m = Some a \<Longrightarrow> \<exists>p. filed t a p \<and> pi_socket p = m"
  using assms unfolding core_ok_def filed_def by (blast | fastforce)+

lemma core_okI:
  assumes "0 \<le> co_last t" "co_last t \<le> 2147483647"
    "\<And>a cell. co_heap t a = Some cell \<Longrightarrow> a < co_next t"
    "\<And>k a. co_peers t k = Some a \<Longrightarrow> 0 < k \<and> k \<le> co_last t \<and> (\<exists>p. filed t a p \<and> pi_peer p = k)"
    "\<And>s a. co_addr t s = Some a \<longleftrightarrow> (\<exists>p. filed t a p \<and> pi_addr p = s)"
    "\<And>n a. co_name t n = Some a \<Longrightarrow> \<exists>p. filed t a p \<and> pi_name p = n"
    "\<And>m a. co_sock t m = Some a \<Longrightarrow> \<exists>p. filed t a p \<and> pi_socket p = m"
  shows "core_ok t"
  using assms unfolding core_ok_def filed_def by (auto; blast)

lemma filed_unique: "filed t a p \<Longrightarrow> filed t a q \<Longrightarrow> p = q"
  by (simp add: filed_def)

lemma filed_same_peer: "filed t a p \<Longrightarrow> filed t b q \<Longrightarrow> pi_peer p = pi_peer q \<Longrightarrow> a = b"
  by (simp add: filed_def)

lemma filed_unindexed:
  "filed t a p \<Longrightarrow> filed (unindexed p t) b q \<longleftrightarrow> filed t b q \<and> b \<noteq> a"
  by (auto simp: filed_def)

lemma unindexed_ok:
  assumes ok: "core_ok t" and p: "filed t a p"
  shows "core_ok (unindexed p t)"
proof (rule core_okI)
  fix s b
  have "co_addr t (pi_addr p) = Some a"
    using core_okD(5) [OF ok] p by blast
  then have "co_addr t s = Some b \<and> s \<noteq> pi_addr p \<longleftrightarrow> (\<exists>q. filed t b q \<and> b \<noteq> a \<and> pi_addr q = s)"
    using core_okD(5) [OF ok, of s b] p by (metis filed_unique option.inject)
  then show "co_addr (unindexed p t) s = Some b \<longleftrightarrow> (\<exists>q. filed (unindexed p t) b q \<and> pi_addr q = s)"
    by (auto simp: filed_unindexed [OF p])
next
  fix n b
  assume "co_name (unindexed p t) n = Some b"
  then have n: "co_name t n = Some b" "n \<noteq> pi_name p"
    by (auto split: if_splits)
  then show "\<exists>q. filed (unindexed p t) b q \<and> pi_name q = n"
    using core_okD(6) [OF ok n(1)] p by (auto simp: filed_unindexed [OF p] dest: filed_unique)
next
  fix n b
  assume "co_sock (unindexed p t) n = Some b"
  then have n: "co_sock t n = Some b" "n \<noteq> pi_socket p"
    by (auto split: if_splits)
  then show "\<exists>q. filed (unindexed p t) b q \<and> pi_socket q = n"
    using core_okD(7) [OF ok n(1)] p by (auto simp: filed_unindexed [OF p] dest: filed_unique)
next
  fix k b
  assume "co_peers (unindexed p t) k = Some b"
  then have k: "co_peers t k = Some b" "k \<noteq> pi_peer p"
    by (auto split: if_splits)
  then show "0 < k \<and> k \<le> co_last (unindexed p t) \<and> (\<exists>q. filed (unindexed p t) b q \<and> pi_peer q = k)"
    using core_okD(4) [OF ok k(1)] p
    by (auto simp: filed_unindexed [OF p] dest: filed_unique)
qed (use core_okD(1-3) [OF ok] in auto)

lemma unindexed_unreferenced:
  assumes ok: "core_ok t" and p: "filed t a p"
  shows "unreferenced (unindexed p t) a"
  unfolding unreferenced_def
  using core_okD(4-7) [OF unindexed_ok [OF ok p]] filed_unindexed [OF p] by blast

lemma filed_freed: "unreferenced t a \<Longrightarrow> filed (freed a p t) b q \<longleftrightarrow> filed t b q"
  by (auto simp: filed_def unreferenced_def)

lemma freed_ok:
  assumes ok: "core_ok t" and un: "unreferenced t a" and a: "co_heap t a \<noteq> None"
  shows "core_ok (freed a p t)"
proof (rule core_okI)
  fix b cell
  show "co_heap (freed a p t) b = Some cell \<Longrightarrow> b < co_next (freed a p t)"
    using a core_okD(3) [OF ok] by (auto split: if_splits)
qed (use core_okD [OF ok] in \<open>simp_all add: filed_freed [OF un]\<close>)

lemma filed_indexed:
  assumes "core_ok t" "co_peers t (pi_peer p) = None"
  shows "filed (indexed (co_next t) p (allocated p t)) b q \<longleftrightarrow> filed t b q \<or> b = co_next t \<and> q = p"
proof -
  have "filed t b q \<Longrightarrow> b < co_next t \<and> pi_peer q \<noteq> pi_peer p"
    using core_okD(3) [OF assms(1)] assms(2) by (auto simp: filed_def)
  then show ?thesis
    by (auto simp: filed_def)
qed

lemma indexed_ok:
  assumes ok: "core_ok t" and new: "co_peers t (pi_peer p) = None" "co_addr t (pi_addr p) = None"
    and id: "0 < pi_peer p" "pi_peer p \<le> co_last t"
  shows "core_ok (indexed (co_next t) p (allocated p t))"
proof (rule core_okI)
  fix s b
  have "\<not> (\<exists>q. filed t b q \<and> pi_addr q = pi_addr p)"
    using core_okD(5) [OF ok, of "pi_addr p" b] new by simp
  moreover have "\<not> filed t (co_next t) q" for q
    using core_okD(3) [OF ok, of "co_next t"] by (auto simp: filed_def)
  ultimately show "co_addr (indexed (co_next t) p (allocated p t)) s = Some b \<longleftrightarrow>
      (\<exists>q. filed (indexed (co_next t) p (allocated p t)) b q \<and> pi_addr q = s)"
    using core_okD(5) [OF ok, of s b]
    by (auto simp: filed_indexed [OF ok new(1)])
next
  fix b cell
  show "co_heap (indexed (co_next t) p (allocated p t)) b = Some cell \<Longrightarrow>
      b < co_next (indexed (co_next t) p (allocated p t))"
    using core_okD(3) [OF ok, of b] by (auto split: if_splits)
next
  fix k b
  assume "co_peers (indexed (co_next t) p (allocated p t)) k = Some b"
  then show "0 < k \<and> k \<le> co_last (indexed (co_next t) p (allocated p t)) \<and>
      (\<exists>q. filed (indexed (co_next t) p (allocated p t)) b q \<and> pi_peer q = k)"
    using core_okD(4) [OF ok, of k b] id
    by (auto simp: filed_indexed [OF ok new(1)] split: if_splits)
next
  fix n b
  assume "co_name (indexed (co_next t) p (allocated p t)) n = Some b"
  then show "\<exists>q. filed (indexed (co_next t) p (allocated p t)) b q \<and> pi_name q = n"
    using core_okD(6) [OF ok, of n b]
    by (auto simp: filed_indexed [OF ok new(1)] split: if_splits)
next
  fix n b
  assume "co_sock (indexed (co_next t) p (allocated p t)) n = Some b"
  then show "\<exists>q. filed (indexed (co_next t) p (allocated p t)) b q \<and> pi_socket q = n"
    using core_okD(7) [OF ok, of n b]
    by (auto simp: filed_indexed [OF ok new(1)] split: if_splits)
qed (use core_okD(1,2) [OF ok] in auto)

section \<open>Sequences of steps\<close>

text \<open>
  The rules above, from a state that is already later than some \<open>c0\<close>: a chain of them describes
  an operation by what it does to the core.
\<close>

lemma step_ask:
  assumes "later a c0 t c" "plain_getter g f" "co_heap t a = Some (Live p)" "clock_ok x"
    and "\<And>c'. later a c0 t c' \<Longrightarrow> Q (f p) c'"
  shows "runs (ask x a g) c Q"
  using assms laterD [OF assms(1)] later_trans [OF assms(1)] by (intro runs_ask) auto

lemma step_erase_peer:
  assumes "later a c0 t c" "cx_erase_end x \<or> co_peers t k \<noteq> None"
    and "\<And>c'. later a c0 (t\<lparr>co_peers := (co_peers t)(k := None)\<rparr>) c' \<Longrightarrow> Q () c'"
  shows "runs (erase_peer x k) c Q"
  using assms laterD [OF assms(1)] later_trans [OF assms(1)]
  by (intro runs_erase_peer [where a = a]) auto

lemma step_erase_addr:
  assumes "later a c0 t c" "cx_erase_end x \<or> co_addr t k \<noteq> None"
    and "\<And>c'. later a c0 (t\<lparr>co_addr := (co_addr t)(k := None)\<rparr>) c' \<Longrightarrow> Q () c'"
  shows "runs (erase_addr x k) c Q"
  using assms laterD [OF assms(1)] later_trans [OF assms(1)]
  by (intro runs_erase_addr [where a = a]) auto

lemma step_erase_name:
  assumes "later a c0 t c" "cx_erase_end x \<or> co_name t k \<noteq> None"
    and "\<And>c'. later a c0 (t\<lparr>co_name := (co_name t)(k := None)\<rparr>) c' \<Longrightarrow> Q () c'"
  shows "runs (erase_name x k) c Q"
  using assms laterD [OF assms(1)] later_trans [OF assms(1)]
  by (intro runs_erase_name [where a = a]) auto

lemma step_erase_socket:
  assumes "later a c0 t c" "cx_erase_end x \<or> co_sock t k \<noteq> None"
    and "\<And>c'. later a c0 (t\<lparr>co_sock := (co_sock t)(k := None)\<rparr>) c' \<Longrightarrow> Q () c'"
  shows "runs (erase_socket x k) c Q"
  using assms laterD [OF assms(1)] later_trans [OF assms(1)]
  by (intro runs_erase_socket [where a = a]) auto

lemma step_delete:
  assumes "later a c0 t c" "co_heap t a = Some (Live p)"
    and "\<And>c'. later a c0 (freed a p t) c' \<Longrightarrow> Q () c'"
  shows "runs (delete_peerinfo a) c Q"
  using assms laterD [OF assms(1)] later_trans [OF assms(1)]
  by (intro runs_delete [where p = p]) (auto simp: freed_def)

text \<open>Storing a pointer in one of the maps.\<close>

lemma step_set:
  assumes "later a c0 t c"
  shows "later a c0 (t\<lparr>co_peers := (co_peers t)(k \<mapsto> b)\<rparr>) (c\<lparr>ct_peers := hm_set k b (ct_peers c)\<rparr>)"
    and "later a c0 (t\<lparr>co_addr := (co_addr t)(s \<mapsto> b)\<rparr>) (c\<lparr>ct_addr2peer := hm_set s b (ct_addr2peer c)\<rparr>)"
    and "later a c0 (t\<lparr>co_name := (co_name t)(s \<mapsto> b)\<rparr>) (c\<lparr>ct_name2peer := hm_set s b (ct_name2peer c)\<rparr>)"
    and "later a c0 (t\<lparr>co_sock := (co_sock t)(k \<mapsto> b)\<rparr>) (c\<lparr>ct_socket2peer := hm_set k b (ct_socket2peer c)\<rparr>)"
    and "later a c0 (t\<lparr>co_peers := (co_peers t)(k := None)\<rparr>) (c\<lparr>ct_peers := hm_erase k (ct_peers c)\<rparr>)"
  using assms by (auto simp: later_def sane_def core_of_def hm_laws)

lemma runs_erase:
  assumes l: "later a c0 t c" and ok: "core_ok t" and p: "filed t a p" and x: "clock_ok x"
    and e: "cx_erase_end x \<or> co_name t (pi_name p) \<noteq> None \<and> co_sock t (pi_socket p) \<noteq> None"
    and Q: "\<And>c'. later a c0 (freed a p (unindexed p t)) c' \<Longrightarrow> Q () c'"
  shows "runs (SContacts_erase x a) c Q"
proof -
  have live: "co_heap t a = Some (Live p)" "co_peers t (pi_peer p) \<noteq> None" "co_addr t (pi_addr p) \<noteq> None"
    using p core_okD(5) [OF ok, of "pi_addr p" a] by (auto simp: filed_def)
  have Q': "later a c0 (freed a p (t\<lparr>co_peers := (co_peers t)(pi_peer p := None),
      co_addr := (co_addr t)(pi_addr p := None), co_name := (co_name t)(pi_name p := None),
      co_sock := (co_sock t)(pi_socket p := None)\<rparr>)) c' \<Longrightarrow> Q () c'" for c'
    using Q by (simp add: unindexed_def)
  show ?thesis
    unfolding SContacts_erase_def runs_simps
    apply (rule step_ask [OF l plain_getters(1) live(1) x])
    apply (erule step_erase_peer, use live in simp)
    apply (erule step_ask [OF _ plain_getters(6) _ x], simp add: live)
    apply (erule step_erase_addr, use live in simp)
    apply (erule step_ask [OF _ plain_getters(5) _ x], simp add: live)
    apply (erule step_erase_name, use e in force)
    apply (erule step_ask [OF _ plain_getters(4) _ x], simp add: live)
    apply (erule step_erase_socket, use e in force)
    apply (erule step_delete, simp add: live)
    apply (rule Q', simp)
    done
qed

lemma runs_index_peer:
  assumes l: "later a c0 t c" and live: "co_heap t a = Some (Live p)" and x: "clock_ok x"
    and Q: "\<And>c'. later a c0 (indexed a p t) c' \<Longrightarrow> Q () c'"
  shows "runs (index_peer x a) c Q"
proof -
  have Q': "later a c0 (t\<lparr>co_peers := (co_peers t)(pi_peer p \<mapsto> a),
      co_addr := (co_addr t)(pi_addr p \<mapsto> a), co_name := (co_name t)(pi_name p \<mapsto> a),
      co_sock := (co_sock t)(pi_socket p \<mapsto> a)\<rparr>) c' \<Longrightarrow> Q () c'" for c'
    using Q by (simp add: indexed_def)
  show ?thesis
    unfolding index_peer_def runs_simps
    apply (rule step_ask [OF l plain_getters(1) live x])
    apply (drule step_set(1) [where k = "pi_peer p" and b = a])
    apply (erule step_ask [OF _ plain_getters(6) _ x], simp add: live)
    apply (drule step_set(2) [where s = "pi_addr p" and b = a])
    apply (erule step_ask [OF _ plain_getters(5) _ x], simp add: live)
    apply (drule step_set(3) [where s = "pi_name p" and b = a])
    apply (erule step_ask [OF _ plain_getters(4) _ x], simp add: live)
    apply (drule step_set(4) [where k = "pi_socket p" and b = a])
    apply (rule Q', simp)
    done
qed

section \<open>Showing the table\<close>

text \<open>The object at \<open>a\<close> carries a reading of the clock taken at step \<open>n\<close> or after.\<close>

definition refreshed :: "cxx \<Rightarrow> nat \<Rightarrow> contacts \<Rightarrow> nat \<Rightarrow> bool" where
  "refreshed x n c a \<longleftrightarrow>
     (\<exists>p m. ct_heap c a = Some (Live p) \<and> n \<le> m \<and> m < ct_tick c \<and> pi_lastActivity p = cx_clock x m)"

lemma refreshed_mono: "refreshed x n c a \<Longrightarrow> m \<le> n \<Longrightarrow> refreshed x m c a"
  unfolding refreshed_def by (blast intro: order_trans)

text \<open>A later state that differs in times only.\<close>

definition quiet :: "cxx \<Rightarrow> contacts \<Rightarrow> contacts \<Rightarrow> bool" where
  "quiet x c c' \<longleftrightarrow>
     sane c' \<and> core_of c' = core_of c \<and> ct_peers c' = ct_peers c \<and>
     ct_lastCleanUp c' = ct_lastCleanUp c \<and> ct_tick c \<le> ct_tick c' \<and>
     (\<forall>n a. refreshed x n c a \<longrightarrow> refreshed x n c' a)"

lemma quiet_refl: "sane c \<Longrightarrow> quiet x c c"
  by (simp add: quiet_def)

lemma quiet_trans: "quiet x c c' \<Longrightarrow> quiet x c' c'' \<Longrightarrow> quiet x c c''"
  by (auto simp: quiet_def)

lemma quietD:
  assumes "quiet x c c'"
  shows "sane c'" "core_of c' = core_of c" "ct_peers c' = ct_peers c" "ct_tick c \<le> ct_tick c'"
    "refreshed x n c a \<Longrightarrow> refreshed x n c' a" "ct_lastCleanUp c' = ct_lastCleanUp c"
  using assms by (auto simp: quiet_def)

lemma runs_ask_quiet:
  assumes "plain_getter g f" "co_heap (core_of c) a = Some (Live p)" "sane c" "clock_ok x"
    and "\<And>c'. quiet x c c' \<Longrightarrow> (\<forall>n \<le> ct_tick c. refreshed x n c' a) \<Longrightarrow> Q (f p) c'"
  shows "runs (ask x a g) c Q"
proof -
  obtain q where q: "ct_heap c a = Some (Live q)" "p = touched 0 q"
    using assms(2) by (auto simp: core_heap_live)
  let ?c = "c\<lparr>ct_tick := Suc (ct_tick c),
               ct_heap := (ct_heap c)(a \<mapsto> Live (touched (cx_clock x (ct_tick c)) q))\<rparr>"
  have fresh: "refreshed x n ?c a" if "n \<le> ct_tick c" for n
    using that by (auto simp: refreshed_def intro!: exI [of _ "ct_tick c"])
  have "refreshed x n ?c b" if "refreshed x n c b" for n b
  proof (cases "b = a")
    case True
    then show ?thesis
      using that fresh [of n] by (auto simp: refreshed_def)
  next
    case False
    then show ?thesis
      using that by (auto simp: refreshed_def less_Suc_eq)
  qed
  then have "quiet x c ?c"
    using assms(3, 4) q by (auto simp: quiet_def sane_def core_of_def fun_eq_iff clock_ok_def)
  then have "Q (f p) ?c"
    using fresh by (intro assms(5)) auto
  moreover have "f p = f q"
    using assms(1) q by (simp add: plain_getter_def)
  ultimately show ?thesis
    by (simp add: runs_def ask_live [OF assms(1) q(1)])
qed

lemma step_ask_quiet:
  assumes "quiet x c0 c" "plain_getter g f" "co_heap (core_of c0) a = Some (Live p)" "clock_ok x"
    and "\<And>c'. quiet x c0 c' \<Longrightarrow> (\<forall>n \<le> ct_tick c0. refreshed x n c' a) \<Longrightarrow> Q (f p) c'"
  shows "runs (ask x a g) c Q"
proof (rule runs_ask_quiet [OF assms(2)])
  fix c'
  assume "quiet x c c'" "\<forall>n \<le> ct_tick c. refreshed x n c' a"
  then show "Q (f p) c'"
    using quietD(4) [OF assms(1)] by (intro assms(5) quiet_trans [OF assms(1)]) auto
qed (use assms quietD [OF assms(1)] in auto)

lemma runs_show_loop:
  assumes "\<forall>(k, a) \<in> set es. \<exists>p. co_heap (core_of c) a = Some (Live p)" "sane c" "clock_ok x"
  shows "runs (show_loop x es) c
    (\<lambda>_ c'. quiet x c c' \<and> (\<forall>n \<le> ct_tick c. \<forall>(k, a) \<in> set es. refreshed x n c' a))"
  using assms(1,2)
proof (induction es arbitrary: c)
  case Nil
  then show ?case
    by (simp add: runs_simps quiet_refl)
next
  case (Cons e es)
  obtain k a where e: "e = (k, a)"
    by fastforce
  obtain p where p: "co_heap (core_of c) a = Some (Live p)"
    using Cons.prems(1) e by auto
  have rest: "runs (show_loop x es) c'
      (\<lambda>_ c'. quiet x c c' \<and> (\<forall>n \<le> ct_tick c. \<forall>(k, a) \<in> set (e # es). refreshed x n c' a))"
    if c': "quiet x c c'" "\<forall>n \<le> ct_tick c. refreshed x n c' a" for c'
  proof (rule runs_mono)
    show "runs (show_loop x es) c'
        (\<lambda>_ c''. quiet x c' c'' \<and> (\<forall>n \<le> ct_tick c'. \<forall>(k, a) \<in> set es. refreshed x n c'' a))"
      using Cons.prems(1) quietD [OF c'(1)] by (intro Cons.IH) auto
  next
    fix u c''
    assume "quiet x c' c'' \<and> (\<forall>n \<le> ct_tick c'. \<forall>(k, a) \<in> set es. refreshed x n c'' a)"
    then show "quiet x c c'' \<and> (\<forall>n \<le> ct_tick c. \<forall>(k, a) \<in> set (e # es). refreshed x n c'' a)"
      using c' quietD(4) [OF c'(1)] quietD(5) [of x c' c''] e by (auto intro: quiet_trans)
  qed
  show ?case
    unfolding e show_loop.simps runs_simps
    apply (rule step_ask_quiet [OF quiet_refl plain_getters(1) p assms(3)], rule Cons.prems)
    apply (erule step_ask_quiet [OF _ plain_getters(4) p assms(3)])
    apply (erule step_ask_quiet [OF _ plain_getters(6) p assms(3)])
    apply (erule step_ask_quiet [OF _ plain_getters(5) p assms(3)])
    apply (erule rest [unfolded e], assumption)
    done
qed

lemma peers_entry: "sane c \<Longrightarrow> (k, a) \<in> set (ct_peers c) \<longleftrightarrow> hm_find (ct_peers c) k = Some a"
  by (simp add: sane_def hm.entries_find)

lemma runs_show:
  assumes "sane c" "core_ok (core_of c)" "clock_ok x"
  shows "runs (SContacts_show x) c
    (\<lambda>_ c'. quiet x c c' \<and> (\<forall>k a. hm_find (ct_peers c) k = Some a \<longrightarrow> refreshed x (ct_tick c) c' a))"
proof -
  note entry = peers_entry [OF assms(1)]
  have "\<forall>(k, a) \<in> set (ct_peers c). \<exists>p. co_heap (core_of c) a = Some (Live p)"
    using core_okD(4) [OF assms(2)] by (force simp: entry filed_def)
  from runs_show_loop [OF this assms(1,3)] show ?thesis
    unfolding SContacts_show_def runs_simps entry [symmetric] by (rule runs_mono) auto
qed

section \<open>Cleaning up\<close>

fun idle_peers :: "int \<Rightarrow> (nat \<Rightarrow> cell option) \<Rightarrow> (int \<times> nat) list \<Rightarrow> peerinfo list" where
  "idle_peers now h [] = []"
| "idle_peers now h ((k, a) # es) =
     (case h a of
        Some (Live p) \<Rightarrow>
          if MAX_ALLOWED_PEERINFO_IDLE_S < now - pi_lastActivity p
          then touched 0 p # idle_peers now h es else idle_peers now h es
      | _ \<Rightarrow> idle_peers now h es)"

definition stale :: "cxx \<Rightarrow> contacts \<Rightarrow> peerinfo list" where
  "stale x c =
     (let now = cx_clock x (ct_tick c) in
        if MIN_CLEANUP_PERIOD_S < now - ct_lastCleanUp c
        then idle_peers now (ct_heap c) (ct_peers c) else [])"

lemma idle_peers_cong:
  "\<forall>(k, a) \<in> set es. h a = h' a \<Longrightarrow> idle_peers now h es = idle_peers now h' es"
  by (induction es) (auto split: option.splits cell.splits)

lemma int_minus_second: "second a \<Longrightarrow> second b \<Longrightarrow> int_minus a b = Inr (a - b)"
  by (simp add: int_minus_def)

lemma runs_cleanup_loop:
  assumes "\<forall>(k, a) \<in> set es. \<exists>p. filed (core_of c) a p \<and> pi_peer p = k" "distinct (map fst es)"
    and "sane c" "core_ok (core_of c)" "clock_ok x" "second now"
    and "idle_peers now (ct_heap c) es = [] \<or> cx_iter x \<and> cx_erase_end x"
  shows "runs (cleanup_loop x now es) c
    (\<lambda>_ c'. sane c' \<and> core_of c' = fold unindexed (idle_peers now (ct_heap c) es) (core_of c) \<and>
            core_ok (core_of c') \<and> ct_lastCleanUp c' = ct_lastCleanUp c \<and> ct_tick c \<le> ct_tick c')"
  using assms(1-4,7)
proof (induction es arbitrary: c)
  case Nil
  then show ?case
    by (simp add: runs_simps)
next
  case (Cons e es)
  obtain k a where e: "e = (k, a)"
    by fastforce
  obtain p where p: "filed (core_of c) a p" "pi_peer p = k"
    using Cons.prems(1) e by auto
  then obtain q where q: "ct_heap c a = Some (Live q)" "p = touched 0 q"
    by (auto simp: core_heap_live filed_def)
  have "second (pi_lastActivity q)"
    using Cons.prems(3) q(1) by (fastforce simp: sane_def)
  then have minus: "int_minus now (pi_lastActivity q) = Inr (now - pi_lastActivity q)"
    using assms(6) by (simp add: int_minus_second)
  show ?case
  proof (cases "MAX_ALLOWED_PEERINFO_IDLE_S < now - pi_lastActivity q")
    case False
    have "runs (cleanup_loop x now es) c
        (\<lambda>_ c'. sane c' \<and> core_of c' = fold unindexed (idle_peers now (ct_heap c) es) (core_of c) \<and>
            core_ok (core_of c') \<and> ct_lastCleanUp c' = ct_lastCleanUp c \<and> ct_tick c \<le> ct_tick c')"
      using Cons.prems False e q(1) by (intro Cons.IH) auto
    then show ?thesis
      using False q(1) e minus by (simp add: runs_simps runs_load SPeerInfo_getLastActivity_def)
  next
    case True
    then have forgiving: "cx_iter x" "cx_erase_end x"
      using Cons.prems(5) e q(1) by auto
    have live: "co_heap (core_of c) a = Some (Live p)" "co_addr (core_of c) (pi_addr p) \<noteq> None"
      using p core_okD(5) [OF Cons.prems(4), of "pi_addr p" a] unfolding filed_def by auto
    have tail: "runs (cleanup_loop x now es) c'
        (\<lambda>_ c'. sane c' \<and> core_of c' = fold unindexed (idle_peers now (ct_heap c) (e # es)) (core_of c) \<and>
            core_ok (core_of c') \<and> ct_lastCleanUp c' = ct_lastCleanUp c \<and> ct_tick c \<le> ct_tick c')"
      if l: "later a c (unindexed p (core_of c)) c'" for c'
    proof -
      have other: "b \<noteq> a" "\<exists>r. filed (core_of c') b r \<and> pi_peer r = j" if "(j, b) \<in> set es" for j b
      proof -
        note mem = that
        obtain r where r: "filed (core_of c) b r" "pi_peer r = j"
          using bspec [OF Cons.prems(1), of "(j, b)"] mem by auto
        moreover have "j \<noteq> k"
          using Cons.prems(2) that e by force
        ultimately show "b \<noteq> a"
          using p filed_unique by blast
        then show "\<exists>r. filed (core_of c') b r \<and> pi_peer r = j"
          using r by (auto simp: laterD(2) [OF l] filed_unindexed [OF p(1)])
      qed
      have same: "idle_peers now (ct_heap c') es = idle_peers now (ct_heap c) es"
        using other laterD(3) [OF l] by (intro idle_peers_cong) auto
      have "runs (cleanup_loop x now es) c'
        (\<lambda>_ c''. sane c'' \<and> core_of c'' = fold unindexed (idle_peers now (ct_heap c') es) (core_of c') \<and>
            core_ok (core_of c'') \<and> ct_lastCleanUp c'' = ct_lastCleanUp c' \<and> ct_tick c' \<le> ct_tick c'')"
        using Cons.prems(2) other laterD [OF l] forgiving unindexed_ok [OF Cons.prems(4) p(1)]
        by (intro Cons.IH) auto
      then show ?thesis
        by (rule runs_mono) (use True q e same laterD [OF l] in auto)
    qed
    have order: "(core_of c)\<lparr>co_addr := (hm_find (ct_addr2peer c))(pi_addr p := None),
        co_name := (hm_find (ct_name2peer c))(pi_name p := None),
        co_sock := (hm_find (ct_socket2peer c))(pi_socket p := None),
        co_peers := (hm_find (ct_peers c))(k := None)\<rparr> = unindexed p (core_of c)"
      by (rule core.equality) (simp_all add: p(2))
    show ?thesis
      unfolding e cleanup_loop.simps runs_bindp runs_load [OF q(1)] runs_liftp
        SPeerInfo_getLastActivity_def minus sum.case if_P [OF True] if_P [OF forgiving(1)]
      apply (rule step_ask [OF later_refl plain_getters(6) live(1) assms(5)], rule Cons.prems)
      apply (erule step_erase_addr, use live in simp)
      apply (erule step_ask [OF _ plain_getters(5) _ assms(5)], simp add: live)
      apply (erule step_erase_name, simp add: forgiving)
      apply (erule step_ask [OF _ plain_getters(4) _ assms(5)], simp add: live)
      apply (erule step_erase_socket, simp add: forgiving)
      apply (drule step_set(5) [where k = k])
      apply (simp only: runs_basic)
      apply (rule tail [unfolded e], simp add: order)
      done
  qed
qed

definition purged :: "peerinfo list \<Rightarrow> core \<Rightarrow> core" where
  "purged ps t = fold unindexed ps t"

definition contacts_ok :: "contacts \<Rightarrow> bool" where
  "contacts_ok c \<longleftrightarrow> sane c \<and> core_ok (core_of c)"

lemma contacts_okD:
  "contacts_ok c \<Longrightarrow> sane c" "contacts_ok c \<Longrightarrow> core_ok (core_of c)"
  by (simp_all add: contacts_ok_def)

lemma contacts_ok_new: "contacts_ok SContacts_new"
  by (simp add: contacts_ok_def SContacts_new_def sane_def core_ok_def core_of_def hm_laws)

lemma runs_doCleanUp:
  assumes ok: "contacts_ok c" and x: "clock_ok x"
    and idle: "stale x c = [] \<or> cx_iter x \<and> cx_erase_end x"
  shows "runs (SContacts_doCleanUp x) c
    (\<lambda>_ c'. contacts_ok c' \<and> core_of c' = purged (stale x c) (core_of c) \<and> ct_tick c \<le> ct_tick c')"
proof -
  let ?now = "cx_clock x (ct_tick c)"
  have s: "sane c" "core_ok (core_of c)" "second ?now" "second (ct_lastCleanUp c)"
    using ok x by (auto simp: contacts_ok_def sane_def clock_ok_def)
  let ?c = "c\<lparr>ct_tick := Suc (ct_tick c)\<rparr>"
  let ?d = "?c\<lparr>ct_lastCleanUp := ?now\<rparr>"
  have c: "sane ?c" "core_of ?c = core_of c" "sane ?d" "core_of ?d = core_of c"
    using s by (simp_all add: sane_def core_of_def)
  show ?thesis
  proof (cases "MIN_CLEANUP_PERIOD_S < ?now - ct_lastCleanUp c")
    case True
    have "distinct (map fst (ct_peers c))"
      using s(1) by (simp add: sane_def hm_inv_def)
    moreover have "\<forall>(k, a) \<in> set (ct_peers c). \<exists>p. filed (core_of ?d) a p \<and> pi_peer p = k"
      using core_okD(4) [OF s(2)] peers_entry [OF s(1)] c by auto
    ultimately have "runs (cleanup_loop x ?now (ct_peers c)) ?d
      (\<lambda>_ c'. sane c' \<and> core_of c' = fold unindexed (idle_peers ?now (ct_heap ?d) (ct_peers c)) (core_of ?d) \<and>
            core_ok (core_of c') \<and> ct_lastCleanUp c' = ct_lastCleanUp ?d \<and> ct_tick ?d \<le> ct_tick c')"
      using s c x idle True by (intro runs_cleanup_loop) (auto simp: stale_def)
    then have "runs (cleanup_loop x ?now (ct_peers c)) ?d
      (\<lambda>_ c'. contacts_ok c' \<and> core_of c' = purged (stale x c) (core_of c) \<and> ct_tick c \<le> ct_tick c')"
      by (rule runs_mono) (use c True in \<open>auto simp: contacts_ok_def purged_def stale_def\<close>)
    then show ?thesis
      using True s by (simp add: SContacts_doCleanUp_def runs_simps int_minus_second)
  next
    case False
    then show ?thesis
      using s c
      by (simp add: SContacts_doCleanUp_def runs_simps int_minus_second stale_def purged_def contacts_ok_def)
  qed
qed

lemma purged_sel [simp]:
  "co_last (purged ps t) = co_last t" "co_heap (purged ps t) = co_heap t"
  "co_next (purged ps t) = co_next t"
  unfolding purged_def by (induction ps arbitrary: t) simp_all

lemma purged_None:
  "co_addr t s = None \<Longrightarrow> co_addr (purged ps t) s = None"
  "co_name t n = None \<Longrightarrow> co_name (purged ps t) n = None"
  "co_peers t k = None \<Longrightarrow> co_peers (purged ps t) k = None"
  unfolding purged_def by (induction ps arbitrary: t) simp_all

text \<open>
  Entering a new object, as the last part of \<open>add\<close>, \<open>updateSocket\<close> and \<open>updateName\<close>, and the
  \<open>show\<close> that follows.
\<close>

definition entered :: "peerinfo \<Rightarrow> core \<Rightarrow> core" where
  "entered p t = indexed (co_next t) p (allocated p t)"

lemma entered_sel [simp]:
  "co_last (entered p t) = co_last t" "co_next (entered p t) = Suc (co_next t)"
  "co_heap (entered p t) = (co_heap t)(co_next t \<mapsto> Live p)"
  "co_peers (entered p t) = (co_peers t)(pi_peer p \<mapsto> co_next t)"
  "co_addr (entered p t) = (co_addr t)(pi_addr p \<mapsto> co_next t)"
  "co_name (entered p t) = (co_name t)(pi_name p \<mapsto> co_next t)"
  "co_sock (entered p t) = (co_sock t)(pi_socket p \<mapsto> co_next t)"
  by (simp_all add: entered_def)

lemma runs_enter:
  assumes s: "sane c" "core_of c = t" "core_ok t" "clock_ok x"
    and new: "co_peers t k = None" "co_addr t (ipnport2addr ip port) = None" "0 < k" "k \<le> co_last t"
    and Q: "\<And>c'. contacts_ok c' \<Longrightarrow> core_of c' = entered (SPeerInfo_new 0 k socket ip port name) t \<Longrightarrow>
       ct_tick c \<le> ct_tick c' \<Longrightarrow> (\<forall>j b. hm_find (ct_peers c') j = Some b \<longrightarrow> refreshed x (ct_tick c) c' b) \<Longrightarrow>
       Q (co_next t) c'"
  shows "runs (bindp (new_peerinfo x k socket ip port name) (\<lambda>b.
     bindp (index_peer x b) (\<lambda>_. bindp (SContacts_show x) (\<lambda>_. ret b)))) c Q"
proof -
  let ?p = "SPeerInfo_new 0 k socket ip port name"
  have p: "pi_peer ?p = k" "pi_addr ?p = ipnport2addr ip port"
    by (simp_all add: SPeerInfo_new_def)
  have ok: "core_ok (entered ?p t)"
    unfolding entered_def using new p by (intro indexed_ok s) simp_all
  have next_t: "ct_next c = co_next t" "(core_of c) = t"
    using s(2) by auto
  have shown: "runs (SContacts_show x) c' (\<lambda>_ s'. Q (co_next t) s')"
    if l: "later (co_next t) c (entered ?p t) c'" for c'
  proof (rule runs_mono [OF runs_show [OF laterD(1) [OF l] _ s(4)]])
    show "core_ok (core_of c')"
      using ok by (simp add: laterD(2) [OF l])
    fix u c''
    assume c'': "quiet x c' c'' \<and> (\<forall>k a. hm_find (ct_peers c') k = Some a \<longrightarrow> refreshed x (ct_tick c') c'' a)"
    then have "\<forall>j b. hm_find (ct_peers c'') j = Some b \<longrightarrow> refreshed x (ct_tick c) c'' b"
      using refreshed_mono [OF _ laterD(5) [OF l]] quietD(3) [of x c' c''] by auto
    then show "Q (co_next t) c''"
      using c'' laterD [OF l] ok quietD [of x c' c''] by (intro Q) (auto simp: contacts_ok_def)
  qed
  show ?thesis
    unfolding runs_simps
  proof (rule runs_new [OF s(1) s(4)])
    fix c'
    assume "later (ct_next c) c ((core_of c)\<lparr>co_heap := (co_heap (core_of c))(ct_next c \<mapsto> Live ?p),
                       co_next := Suc (ct_next c)\<rparr>) c'"
    then have l: "later (co_next t) c (allocated ?p t) c'"
      by (simp add: next_t allocated_def)
    show "runs (index_peer x (ct_next c)) c' (\<lambda>a s'. runs (SContacts_show x) s' (\<lambda>a. Q (ct_next c)))"
      unfolding next_t
      by (rule runs_index_peer [OF l _ s(4)], simp, rule shown, simp add: entered_def)
  qed
qed

end
