(* ===== verification/Peer_Registry.thy ===== *)
theory Peer_Registry
  imports Peer_Info
begin

text \<open>
  The abstract contacts table: what the class SContacts promises, without pointers. A directory
  maps peer numbers to what is known of the peer, and locations, names and sockets to peer
  numbers. The locale \<open>registry\<close> is the contract the bus relies on.
\<close>

section \<open>Directories\<close>

record directory =
  d_last :: int
  d_peer :: "int \<Rightarrow> peerinfo option"
  d_addr :: "32 word \<times> 16 word \<Rightarrow> int option"
  d_name :: "string \<Rightarrow> int option"
  d_sock :: "int \<Rightarrow> int option"

definition empty_directory :: directory where
  "empty_directory =
     \<lparr>d_last = 0, d_peer = Map.empty, d_addr = Map.empty, d_name = Map.empty, d_sock = Map.empty\<rparr>"

definition dir_remove :: "peerinfo \<Rightarrow> directory \<Rightarrow> directory" where
  "dir_remove p d =
     d\<lparr>d_peer := (d_peer d)(pi_peer p := None), d_addr := (d_addr d)((pi_ip p, pi_port p) := None),
       d_name := (d_name d)(pi_name p := None), d_sock := (d_sock d)(pi_socket p := None)\<rparr>"

definition dir_enter :: "peerinfo \<Rightarrow> directory \<Rightarrow> directory" where
  "dir_enter p d =
     d\<lparr>d_peer := (d_peer d)(pi_peer p \<mapsto> p), d_addr := (d_addr d)((pi_ip p, pi_port p) \<mapsto> pi_peer p),
       d_name := (d_name d)(pi_name p \<mapsto> pi_peer p), d_sock := (d_sock d)(pi_socket p \<mapsto> pi_peer p)\<rparr>"

text \<open>
  A peer that is known by its location, or else by its name, is not added again. A new one gets
  the next number, once the peers \<open>ps\<close> that have been idle too long are dropped.
\<close>

definition dir_known :: "32 word \<Rightarrow> 16 word \<Rightarrow> string \<Rightarrow> directory \<Rightarrow> int option" where
  "dir_known ip port name d =
     (case d_addr d (ip, port) of Some k \<Rightarrow> Some k | None \<Rightarrow> d_name d name)"

definition dir_add ::
  "peerinfo list \<Rightarrow> int \<Rightarrow> 32 word \<Rightarrow> 16 word \<Rightarrow> string \<Rightarrow> directory \<Rightarrow> int \<times> directory" where
  "dir_add ps socket ip port name d =
     (case dir_known ip port name d of
        Some k \<Rightarrow> (k, d)
      | None \<Rightarrow>
          let k = d_last d + 1 in
            (k, dir_enter (SPeerInfo_new 0 k socket ip port name) ((fold dir_remove ps d)\<lparr>d_last := k\<rparr>)))"

definition dir_replace :: "peerinfo \<Rightarrow> peerinfo \<Rightarrow> directory \<Rightarrow> directory" where
  "dir_replace p p' d = dir_enter p' (dir_remove p d)"

lemma dir_enter_sel [simp]:
  "d_last (dir_enter p d) = d_last d" "d_peer (dir_enter p d) = (d_peer d)(pi_peer p \<mapsto> p)"
  "d_addr (dir_enter p d) = (d_addr d)((pi_ip p, pi_port p) \<mapsto> pi_peer p)"
  "d_name (dir_enter p d) = (d_name d)(pi_name p \<mapsto> pi_peer p)"
  "d_sock (dir_enter p d) = (d_sock d)(pi_socket p \<mapsto> pi_peer p)"
  by (simp_all add: dir_enter_def)

lemma dir_remove_sel [simp]:
  "d_last (dir_remove p d) = d_last d" "d_peer (dir_remove p d) = (d_peer d)(pi_peer p := None)"
  "d_addr (dir_remove p d) = (d_addr d)((pi_ip p, pi_port p) := None)"
  "d_name (dir_remove p d) = (d_name d)(pi_name p := None)"
  "d_sock (dir_remove p d) = (d_sock d)(pi_socket p := None)"
  by (simp_all add: dir_remove_def)

lemma dir_replace_sel [simp]: "d_last (dir_replace p p' d) = d_last d"
  by (simp add: dir_replace_def)

lemma d_last_fold_remove [simp]: "d_last (fold dir_remove ps d) = d_last d"
  by (induction ps arbitrary: d) simp_all

lemma fold_remove_None:
  "d_addr d l = None \<Longrightarrow> d_addr (fold dir_remove ps d) l = None"
  "d_sock d s = None \<Longrightarrow> d_sock (fold dir_remove ps d) s = None"
  by (induction ps arbitrary: d) simp_all

lemma d_last_add: "d_last d \<le> d_last (snd (dir_add ps socket ip port name d))"
  "d_last (snd (dir_add ps socket ip port name d)) \<le> d_last d + 1"
  by (auto simp: dir_add_def Let_def split: option.splits)

text \<open>
  A directory is consistent: peer numbers are positive and not above the last one given, and the
  three indices lead to peers that have the location, name or socket asked for; the location
  index is complete.
\<close>

definition dir_ok :: "directory \<Rightarrow> bool" where
  "dir_ok d \<longleftrightarrow>
     (\<forall>k p. d_peer d k = Some p \<longrightarrow> 0 < k \<and> k \<le> d_last d \<and> pi_peer p = k) \<and>
     (\<forall>ip port k. d_addr d (ip, port) = Some k \<longleftrightarrow>
        (\<exists>p. d_peer d k = Some p \<and> pi_ip p = ip \<and> pi_port p = port)) \<and>
     (\<forall>n k. d_name d n = Some k \<longrightarrow> (\<exists>p. d_peer d k = Some p \<and> pi_name p = n)) \<and>
     (\<forall>s k. d_sock d s = Some k \<longrightarrow> (\<exists>p. d_peer d k = Some p \<and> pi_socket p = s))"

section \<open>The contract\<close>

datatype book_op =
    Add_Peer int "32 word" "16 word" string
  | Set_Socket int int
  | Set_Name int string

definition run_op ::
  "('s \<Rightarrow> int \<Rightarrow> 'a option) \<Rightarrow> (int \<Rightarrow> 32 word \<Rightarrow> 16 word \<Rightarrow> string \<Rightarrow> ('s, 'a) prog) \<Rightarrow>
   ('a \<Rightarrow> int \<Rightarrow> ('s, 'a) prog) \<Rightarrow> ('a \<Rightarrow> string \<Rightarrow> ('s, 'a) prog) \<Rightarrow> book_op \<Rightarrow> ('s, unit) prog" where
  "run_op fd add set_socket set_name oper =
     (case oper of
        Add_Peer socket ip port name \<Rightarrow> bindp (add socket ip port name) (\<lambda>_. ret ())
      | Set_Socket k socket \<Rightarrow>
          bindp (getp (\<lambda>s. fd s k)) (\<lambda>r. case r of
            None \<Rightarrow> ret () | Some a \<Rightarrow> bindp (set_socket a socket) (\<lambda>_. ret ()))
      | Set_Name k name \<Rightarrow>
          bindp (getp (\<lambda>s. fd s k)) (\<lambda>r. case r of
            None \<Rightarrow> ret () | Some a \<Rightarrow> bindp (set_name a name) (\<lambda>_. ret ())))"

fun run_ops ::
  "('s \<Rightarrow> int \<Rightarrow> 'a option) \<Rightarrow> (int \<Rightarrow> 32 word \<Rightarrow> 16 word \<Rightarrow> string \<Rightarrow> ('s, 'a) prog) \<Rightarrow>
   ('a \<Rightarrow> int \<Rightarrow> ('s, 'a) prog) \<Rightarrow> ('a \<Rightarrow> string \<Rightarrow> ('s, 'a) prog) \<Rightarrow> book_op list \<Rightarrow> ('s, unit) prog" where
  "run_ops fd add set_socket set_name [] = ret ()"
| "run_ops fd add set_socket set_name (oper # ops) =
     bindp (run_op fd add set_socket set_name oper) (\<lambda>_. run_ops fd add set_socket set_name ops)"

locale registry =
  fixes inv :: "'s \<Rightarrow> bool"
    and dir :: "'s \<Rightarrow> directory"
    and names :: "'s \<Rightarrow> 'a \<Rightarrow> int \<Rightarrow> bool"
    and drops :: "'s \<Rightarrow> peerinfo list"
    and find :: "'s \<Rightarrow> int \<Rightarrow> 'a option"
    and add :: "int \<Rightarrow> 32 word \<Rightarrow> 16 word \<Rightarrow> string \<Rightarrow> ('s, 'a) prog"
    and set_socket :: "'a \<Rightarrow> int \<Rightarrow> ('s, 'a) prog"
    and set_name :: "'a \<Rightarrow> string \<Rightarrow> ('s, 'a) prog"
  assumes dir_inv: "inv s \<Longrightarrow> dir_ok (dir s)"
    and find_names: "inv s \<Longrightarrow> find s k = Some a \<longleftrightarrow> names s a k"
    and names_dir: "inv s \<Longrightarrow> d_peer (dir s) k \<noteq> None \<longleftrightarrow> (\<exists>a. names s a k)"
    and add_law: "inv s \<Longrightarrow> d_last (dir s) < 2147483647 \<Longrightarrow>
      runs (add socket ip port name) s (\<lambda>a s'. inv s' \<and>
        (\<exists>k. names s' a k \<and> (k, dir s') = dir_add (drops s) socket ip port name (dir s)))"
    and set_socket_law: "inv s \<Longrightarrow> names s a k \<Longrightarrow> d_peer (dir s) k = Some p \<Longrightarrow>
      runs (set_socket a socket) s (\<lambda>b s'. inv s' \<and> names s' b k \<and>
        dir s' = dir_replace p (p\<lparr>pi_socket := socket\<rparr>) (dir s))"
    and set_name_law: "inv s \<Longrightarrow> names s a k \<Longrightarrow> d_peer (dir s) k = Some p \<Longrightarrow>
      runs (set_name a name) s (\<lambda>b s'. inv s' \<and> names s' b k \<and>
        dir s' = dir_replace p (p\<lparr>pi_name := name\<rparr>) (dir s))"
begin

lemma runs_op:
  assumes "inv s" "d_last (dir s) < 2147483647"
  shows "runs (run_op find add set_socket set_name oper) s
    (\<lambda>_ s'. inv s' \<and> d_last (dir s') \<le> d_last (dir s) + 1)"
proof (cases oper)
  case (Add_Peer socket ip port name)
  have "runs (add socket ip port name) s (\<lambda>_ s'. inv s' \<and> d_last (dir s') \<le> d_last (dir s) + 1)"
    using add_law [OF assms, of socket ip port name]
    by (rule runs_mono) (metis d_last_add(2) snd_conv)
  then show ?thesis
    by (simp add: run_op_def Add_Peer runs_simps)
next
  case (Set_Socket k socket)
  show ?thesis
  proof (cases "find s k")
    case None
    then show ?thesis
      by (simp add: run_op_def Set_Socket runs_simps assms)
  next
    case (Some a)
    then have a: "names s a k"
      using find_names assms(1) by blast
    then obtain p where "d_peer (dir s) k = Some p"
      using names_dir assms(1) by blast
    from runs_mono [OF set_socket_law [OF assms(1) a this]]
    have "runs (set_socket a socket) s (\<lambda>_ s'. inv s' \<and> d_last (dir s') \<le> d_last (dir s) + 1)"
      by simp
    then show ?thesis
      using Some by (simp add: run_op_def Set_Socket runs_simps)
  qed
next
  case (Set_Name k name)
  show ?thesis
  proof (cases "find s k")
    case None
    then show ?thesis
      by (simp add: run_op_def Set_Name runs_simps assms)
  next
    case (Some a)
    then have a: "names s a k"
      using find_names assms(1) by blast
    then obtain p where "d_peer (dir s) k = Some p"
      using names_dir assms(1) by blast
    from runs_mono [OF set_name_law [OF assms(1) a this]]
    have "runs (set_name a name) s (\<lambda>_ s'. inv s' \<and> d_last (dir s') \<le> d_last (dir s) + 1)"
      by simp
    then show ?thesis
      using Some by (simp add: run_op_def Set_Name runs_simps)
  qed
qed

lemma runs_ops:
  "inv s \<Longrightarrow> d_last (dir s) + int (length ops) \<le> 2147483647 \<Longrightarrow>
   runs (run_ops find add set_socket set_name ops) s (\<lambda>_ s'. inv s')"
proof (induction ops arbitrary: s)
  case Nil
  then show ?case
    by (simp add: runs_simps)
next
  case (Cons oper ops)
  have "runs (run_op find add set_socket set_name oper) s
      (\<lambda>_ s'. inv s' \<and> d_last (dir s') \<le> d_last (dir s) + 1)"
    using Cons.prems by (intro runs_op) auto
  then show ?case
    unfolding run_ops.simps runs_bindp
    by (rule runs_mono) (use Cons in auto)
qed

lemma runs_ops_consistent:
  "inv s \<Longrightarrow> d_last (dir s) + int (length ops) \<le> 2147483647 \<Longrightarrow>
   runs (run_ops find add set_socket set_name ops) s (\<lambda>_ s'. dir_ok (dir s'))"
  by (rule runs_mono [OF runs_ops]) (auto intro: dir_inv)

text \<open>A peer that was just added is known: adding its location again changes nothing.\<close>

lemma add_again:
  assumes "inv s" "d_last (dir s) + 2 \<le> 2147483647"
  shows "runs (add socket ip port name) s (\<lambda>a s'. runs (add socket' ip port name) s' (\<lambda>b s''.
    dir s'' = dir s' \<and> (\<exists>k. names s' a k \<and> names s'' b k)))"
proof (rule runs_mono)
  show "runs (add socket ip port name) s (\<lambda>a s'. inv s' \<and>
        (\<exists>k. names s' a k \<and> (k, dir s') = dir_add (drops s) socket ip port name (dir s)))"
    using assms by (intro add_law) auto
next
  fix a s'
  assume s': "inv s' \<and> (\<exists>k. names s' a k \<and> (k, dir s') = dir_add (drops s) socket ip port name (dir s))"
  then obtain k where k: "names s' a k" "(k, dir s') = dir_add (drops s) socket ip port name (dir s)"
    by blast
  have known: "dir_known ip port name (dir s') = Some k"
    using k(2) by (auto simp: dir_add_def dir_known_def Let_def SPeerInfo_new_def split: option.splits)
  have "d_last (dir s') < 2147483647"
    using d_last_add(2) [of "drops s" socket ip port name "dir s"] assms(2)
    unfolding k(2) [symmetric] snd_conv by linarith
  then have "runs (add socket' ip port name) s' (\<lambda>b s''. inv s'' \<and>
        (\<exists>j. names s'' b j \<and> (j, dir s'') = dir_add (drops s') socket' ip port name (dir s')))"
    using s' by (intro add_law) auto
  then show "runs (add socket' ip port name) s' (\<lambda>b s''.
      dir s'' = dir s' \<and> (\<exists>k. names s' a k \<and> names s'' b k))"
    by (rule runs_mono) (use known k(1) in \<open>auto simp: dir_add_def\<close>)
qed

end

end
