(* ===== verification/Contact_Book.thy ===== *)
theory Contact_Book
  imports Contacts_Laws Peer_Registry
begin

text \<open>
  The contacts table implements the directory of Peer_Registry, where the C++ runtime forgives
  what the code does outside the language; and what it does where it does not.
\<close>

section \<open>The directory of a table\<close>

definition who :: "core \<Rightarrow> nat \<Rightarrow> peerinfo option" where
  "who t a = (case co_heap t a of Some (Live p) \<Rightarrow> Some p | _ \<Rightarrow> None)"

definition dir_of :: "core \<Rightarrow> directory" where
  "dir_of t =
     \<lparr>d_last = co_last t,
      d_peer = (\<lambda>k. Option.bind (co_peers t k) (who t)),
      d_addr = (\<lambda>(ip, port). map_option pi_peer (Option.bind (co_addr t (ipnport2addr ip port)) (who t))),
      d_name = (\<lambda>n. map_option pi_peer (Option.bind (co_name t n) (who t))),
      d_sock = (\<lambda>s. map_option pi_peer (Option.bind (co_sock t s) (who t)))\<rparr>"

definition contacts_directory :: "contacts \<Rightarrow> directory" where
  "contacts_directory c = dir_of (core_of c)"

text \<open>A pointer that is that of the peer filed under number \<open>k\<close>.\<close>

definition points_to :: "contacts \<Rightarrow> nat \<Rightarrow> int \<Rightarrow> bool" where
  "points_to c a k \<longleftrightarrow> (\<exists>p. filed (core_of c) a p \<and> pi_peer p = k)"

text \<open>
  A runtime on which a freed object keeps its contents, an erased iterator can be advanced and
  erasing \<open>end()\<close> does nothing.
\<close>

definition forgiving :: "cxx \<Rightarrow> bool" where
  "forgiving x \<longleftrightarrow>
     clock_ok x \<and> cx_iter x \<and> cx_erase_end x \<and> (\<forall>p. cx_dangling x p = Some p)"

lemma addr_eq: "ipnport2addr ip port = ipnport2addr ip' port' \<longleftrightarrow> ip = ip' \<and> port = port'"
  using ipnport2addr_inj_aux by blast

lemma dir_of_sel [simp]: "d_last (dir_of t) = co_last t"
  by (simp add: dir_of_def)

lemma who_filed: "filed t a p \<Longrightarrow> who t a = Some p"
  by (simp add: who_def filed_def)

lemma who_steps [simp]: "who (unindexed p t) = who t"
  by (simp add: who_def fun_eq_iff)

lemma dir_unindexed: "dir_of (unindexed p t) = dir_remove p (dir_of t)"
  by (rule directory.equality) (auto simp: dir_of_def dir_remove_def fun_eq_iff addr_eq)

lemma bind_who_freed:
  "r \<noteq> Some a \<Longrightarrow> Option.bind r (who (freed a p t)) = Option.bind r (who t)"
  by (cases r) (auto simp: who_def)

lemma dir_freed: "unreferenced t a \<Longrightarrow> dir_of (freed a p t) = dir_of t"
  by (rule directory.equality) (auto simp: dir_of_def unreferenced_def bind_who_freed fun_eq_iff)

lemma core_ok_next:
  assumes "core_ok t"
  shows "unreferenced t (co_next t)"
  using core_okD(3) [OF assms, of "co_next t"] core_okD(4-7) [OF assms]
  unfolding unreferenced_def filed_def by (metis less_irrefl)

lemma bind_who_entered:
  "r \<noteq> Some (co_next t) \<Longrightarrow> Option.bind r (who (entered p t)) = Option.bind r (who t)"
  by (cases r) (auto simp: who_def)

lemma who_entered: "who (entered p t) (co_next t) = Some p"
  by (simp add: who_def)

lemma dir_entered: "core_ok t \<Longrightarrow> dir_of (entered p t) = dir_enter p (dir_of t)"
  using core_ok_next [of t]
  by (intro directory.equality)
    (auto simp: dir_of_def dir_enter_def unreferenced_def bind_who_entered who_entered fun_eq_iff addr_eq)

lemma dir_purged: "dir_of (purged ps t) = fold dir_remove ps (dir_of t)"
  unfolding purged_def by (induction ps arbitrary: t) (simp_all add: dir_unindexed)

lemma who_last [simp]: "who (t\<lparr>co_last := k\<rparr>) = who t"
  by (rule ext) (simp add: who_def)

lemma dir_last: "dir_of (t\<lparr>co_last := k\<rparr>) = (dir_of t)\<lparr>d_last := k\<rparr>"
  by (simp add: dir_of_def)

lemma dir_of_peer:
  assumes "core_ok t"
  shows "d_peer (dir_of t) k = Some p \<longleftrightarrow> (\<exists>a. filed t a p \<and> pi_peer p = k)"
  using core_okD(4) [OF assms, of k]
  by (cases "co_peers t k") (auto simp: dir_of_def filed_def who_def split: option.splits cell.splits)

lemma dir_of_indices:
  assumes ok: "core_ok t"
  shows "d_addr (dir_of t) (ip, port) = Some k \<longleftrightarrow>
      (\<exists>a p. co_addr t (ipnport2addr ip port) = Some a \<and> filed t a p \<and> pi_peer p = k)"
    and "d_name (dir_of t) n = Some k \<longleftrightarrow> (\<exists>a p. co_name t n = Some a \<and> filed t a p \<and> pi_peer p = k)"
    and "d_sock (dir_of t) s = Some k \<longleftrightarrow> (\<exists>a p. co_sock t s = Some a \<and> filed t a p \<and> pi_peer p = k)"
  using core_okD(5) [OF ok, of "ipnport2addr ip port"] core_okD(6) [OF ok, of n] core_okD(7) [OF ok, of s]
  by (fastforce simp: dir_of_def who_filed bind_eq_Some_conv dest: filed_unique)+

lemma dir_of_None:
  assumes ok: "core_ok t"
  shows "d_addr (dir_of t) (ip, port) = None \<longleftrightarrow> co_addr t (ipnport2addr ip port) = None"
    and "d_name (dir_of t) n = None \<longleftrightarrow> co_name t n = None"
proof -
  show "d_addr (dir_of t) (ip, port) = None \<longleftrightarrow> co_addr t (ipnport2addr ip port) = None"
  proof (cases "co_addr t (ipnport2addr ip port)")
    case (Some a)
    then obtain p where "filed t a p"
      using core_okD(5) [OF ok] by blast
    with Some show ?thesis
      by (simp add: dir_of_def who_filed)
  qed (simp add: dir_of_def)
  show "d_name (dir_of t) n = None \<longleftrightarrow> co_name t n = None"
  proof (cases "co_name t n")
    case (Some a)
    then obtain p where "filed t a p"
      using core_okD(6) [OF ok] by blast
    with Some show ?thesis
      by (simp add: dir_of_def who_filed)
  qed (simp add: dir_of_def)
qed

lemma dir_of_ok:
  assumes ok: "core_ok t"
  shows "dir_ok (dir_of t)"
  unfolding dir_ok_def dir_of_peer [OF ok] dir_of_indices [OF ok] dir_of_sel
  using core_okD(4-7) [OF ok]
  by (fastforce simp: filed_def addr_eq)

section \<open>The operations\<close>

lemma last_ok:
  assumes "core_ok t" "co_last t \<le> k" "k \<le> 2147483647"
  shows "core_ok (t\<lparr>co_last := k\<rparr>)"
  using assms unfolding core_ok_def by (simp, fastforce)

lemma purged_ok:
  assumes "contacts_ok c" "clock_ok x" "cx_iter x" "cx_erase_end x"
  shows "core_ok (purged (stale x c) (core_of c))"
  using runs_doCleanUp [OF assms(1,2)] assms(3,4) by (auto simp: runs_Inr contacts_ok_def)

lemma contacts_ok_last:
  "contacts_ok c \<Longrightarrow> ct_lastPeerId c < 2147483647 \<Longrightarrow> k = ct_lastPeerId c + 1 \<Longrightarrow>
   contacts_ok (c\<lparr>ct_lastPeerId := k\<rparr>) \<and> core_of (c\<lparr>ct_lastPeerId := k\<rparr>) = (core_of c)\<lparr>co_last := k\<rparr>"
  using last_ok [of "core_of c" k] by (auto simp: contacts_ok_def sane_def core_of_def)

lemma runs_add:
  assumes ok: "contacts_ok c" and x: "clock_ok x"
    and idle: "stale x c = [] \<or> cx_iter x \<and> cx_erase_end x"
    and room: "ct_lastPeerId c < 2147483647"
    and new: "SContacts_findAddr c ip port = None" "SContacts_findName c name = None"
  shows "runs (SContacts_add x socket ip port name) c (\<lambda>a c'. contacts_ok c' \<and>
    a = ct_next c \<and>
    core_of c' = entered (SPeerInfo_new 0 (ct_lastPeerId c + 1) socket ip port name)
      ((purged (stale x c) (core_of c))\<lparr>co_last := ct_lastPeerId c + 1\<rparr>) \<and>
    (\<forall>j b. hm_find (ct_peers c') j = Some b \<longrightarrow> refreshed x (ct_tick c) c' b))"
proof -
  let ?k = "ct_lastPeerId c + 1"
  let ?t = "(purged (stale x c) (core_of c))\<lparr>co_last := ?k\<rparr>"
  have tail: "runs (bindp (new_peerinfo x ?k socket ip port name) (\<lambda>b.
      bindp (index_peer x b) (\<lambda>_. bindp (SContacts_show x) (\<lambda>_. ret b)))) (d\<lparr>ct_lastPeerId := ?k\<rparr>)
      (\<lambda>a c'. contacts_ok c' \<and> a = ct_next c \<and>
        core_of c' = entered (SPeerInfo_new 0 ?k socket ip port name) ?t \<and>
        (\<forall>j b. hm_find (ct_peers c') j = Some b \<longrightarrow> refreshed x (ct_tick c) c' b))"
    if d: "contacts_ok d" "core_of d = purged (stale x c) (core_of c)" "ct_tick c \<le> ct_tick d" for d
  proof -
    have last: "ct_lastPeerId d = ct_lastPeerId c"
      using arg_cong [OF d(2), of co_last] by simp
    have d': "contacts_ok (d\<lparr>ct_lastPeerId := ?k\<rparr>)" "core_of (d\<lparr>ct_lastPeerId := ?k\<rparr>) = ?t"
      using contacts_ok_last [OF d(1), of ?k] room last d(2) by auto
    have pos: "0 \<le> ct_lastPeerId c" and unused: "co_peers (core_of c) ?k = None"
      using core_okD(1) [OF contacts_okD(2) [OF ok]] core_okD(4) [OF contacts_okD(2) [OF ok], of ?k]
      by (auto intro: ccontr)
    show ?thesis
      using ok d' x room new pos unused
      by (intro runs_enter [where t = ?t])
        (auto simp: contacts_ok_def SContacts_findAddr_def purged_None intro: refreshed_mono [OF _ d(3)])
  qed
  have cleanup: "runs (SContacts_doCleanUp x) c
    (\<lambda>_ c'. contacts_ok c' \<and> core_of c' = purged (stale x c) (core_of c) \<and> ct_tick c \<le> ct_tick c')"
    using runs_doCleanUp [OF ok x idle] .
  have "runs (SContacts_doCleanUp x) c (\<lambda>_ d. runs (bindp (getp ct_lastPeerId) (\<lambda>last.
       if last = INT_MAX then faultp Int_Overflow
       else bindp (modp (\<lambda>c. c\<lparr>ct_lastPeerId := last + 1\<rparr>)) (\<lambda>_.
     bindp (new_peerinfo x (last + 1) socket ip port name) (\<lambda>a.
     bindp (index_peer x a) (\<lambda>_. bindp (SContacts_show x) (\<lambda>_. ret a)))))) d
     (\<lambda>a c'. contacts_ok c' \<and> a = ct_next c \<and>
        core_of c' = entered (SPeerInfo_new 0 ?k socket ip port name) ?t \<and>
        (\<forall>j b. hm_find (ct_peers c') j = Some b \<longrightarrow> refreshed x (ct_tick c) c' b)))"
  proof (rule runs_mono [OF cleanup])
    fix u d
    assume d: "contacts_ok d \<and> core_of d = purged (stale x c) (core_of c) \<and> ct_tick c \<le> ct_tick d"
    then have "ct_lastPeerId d = ct_lastPeerId c"
      by (metis core_of_sel(1) purged_sel(1))
    then show "runs (bindp (getp ct_lastPeerId) (\<lambda>last.
       if last = INT_MAX then faultp Int_Overflow
       else bindp (modp (\<lambda>c. c\<lparr>ct_lastPeerId := last + 1\<rparr>)) (\<lambda>_.
     bindp (new_peerinfo x (last + 1) socket ip port name) (\<lambda>a.
     bindp (index_peer x a) (\<lambda>_. bindp (SContacts_show x) (\<lambda>_. ret a)))))) d
     (\<lambda>a c'. contacts_ok c' \<and> a = ct_next c \<and>
        core_of c' = entered (SPeerInfo_new 0 ?k socket ip port name) ?t \<and>
        (\<forall>j b. hm_find (ct_peers c') j = Some b \<longrightarrow> refreshed x (ct_tick c) c' b))"
      unfolding runs_bindp [of "getp ct_lastPeerId"] runs_basic(3)
      using room tail [of d] d
      by (simp add: runs_bindp [of "modp _"] runs_basic)
  qed
  then show ?thesis
    using new by (simp add: SContacts_add_def runs_bindp [of "getp _"] runs_basic runs_bindp [of "SContacts_doCleanUp _"])
qed

lemma runs_add_known:
  "SContacts_findAddr c ip port = Some a \<Longrightarrow> SContacts_add x socket ip port name c = Inr (a, c)"
  "SContacts_findAddr c ip port = None \<Longrightarrow> SContacts_findName c name = Some a \<Longrightarrow>
   SContacts_add x socket ip port name c = Inr (a, c)"
  by (simp_all add: SContacts_add_def bindp_def getp_def ret_def)

lemma runs_updateSocket:
  assumes ok: "contacts_ok c" and x: "clock_ok x" and p: "filed (core_of c) a p"
    and e: "cx_erase_end x \<or> co_name (core_of c) (pi_name p) \<noteq> None \<and> co_sock (core_of c) (pi_socket p) \<noteq> None"
    and old: "\<And>q. touched 0 q = p \<Longrightarrow> \<exists>r. cx_dangling x q = Some r \<and> pi_name r = pi_name p"
  shows "runs (SContacts_updateSocket x a socket) c (\<lambda>b c'. contacts_ok c' \<and> b = ct_next c \<and>
    core_of c' = entered (SPeerInfo_new 0 (pi_peer p) socket (pi_ip p) (pi_port p) (pi_name p))
      (freed a p (unindexed p (core_of c))))"
proof -
  have live: "co_heap (core_of c) a = Some (Live p)"
    using p by (simp add: filed_def)
  note ok' = contacts_okD [OF ok]
  let ?t = "freed a p (unindexed p (core_of c))"
  have t: "core_ok ?t"
    using live by (intro freed_ok unindexed_ok [OF _ p] unindexed_unreferenced [OF _ p] ok') simp
  have range: "0 < pi_peer p" "pi_peer p \<le> ct_lastPeerId c"
    using core_okD(4) [OF ok'(2), of "pi_peer p" a] p by (auto simp: filed_def)
  have tail: "runs (load x a) d (\<lambda>old s'. runs (bindp (new_peerinfo x (pi_peer p) socket (pi_ip p) (pi_port p) (pi_name old)) (\<lambda>b.
     bindp (index_peer x b) (\<lambda>_. bindp (SContacts_show x) (\<lambda>_. ret b)))) s'
     (\<lambda>b c'. contacts_ok c' \<and> b = ct_next c \<and>
       core_of c' = entered (SPeerInfo_new 0 (pi_peer p) socket (pi_ip p) (pi_port p) (pi_name p)) ?t))"
    if d: "later a c ?t d" for d
  proof -
    have "map_option still (ct_heap d a) = Some (Freed p)"
      using arg_cong [OF laterD(2) [OF d], of "\<lambda>t. co_heap t a"] by (simp add: core_of_def)
    then obtain q where q: "ct_heap d a = Some (Freed q)" "touched 0 q = p"
      by (auto elim: still.elims)
    from old [OF q(2)] obtain r where r: "cx_dangling x q = Some r" "pi_name r = pi_name p"
      by blast
    have "runs (bindp (new_peerinfo x (pi_peer p) socket (pi_ip p) (pi_port p) (pi_name p)) (\<lambda>b.
     bindp (index_peer x b) (\<lambda>_. bindp (SContacts_show x) (\<lambda>_. ret b)))) d
     (\<lambda>b c'. contacts_ok c' \<and> b = ct_next c \<and>
       core_of c' = entered (SPeerInfo_new 0 (pi_peer p) socket (pi_ip p) (pi_port p) (pi_name p)) ?t)"
      using range by (intro runs_enter [OF laterD(1,2) [OF d] t x]) simp_all
    then show ?thesis
      using q r by (simp add: load_def runs_def bindp_def getp_def read_cell_def)
  qed
  show ?thesis
    unfolding SContacts_updateSocket_def runs_bindp [of "ask _ _ _"] runs_bindp [of "SContacts_erase _ _"]
      runs_bindp [of "load _ _"]
    apply (rule step_ask [OF later_refl [OF ok'(1)] plain_getters(1) live x])
    apply (erule step_ask [OF _ plain_getters(2) live x])
    apply (erule step_ask [OF _ plain_getters(3) live x])
    apply (erule step_ask [OF _ plain_getters(5) live x])
    apply (erule runs_erase [OF _ ok'(2) p x e])
    apply (erule tail)
    done
qed

lemma runs_updateName:
  assumes ok: "contacts_ok c" and x: "clock_ok x" and p: "filed (core_of c) a p"
    and e: "cx_erase_end x \<or> co_name (core_of c) (pi_name p) \<noteq> None \<and> co_sock (core_of c) (pi_socket p) \<noteq> None"
  shows "runs (SContacts_updateName x a name) c (\<lambda>b c'. contacts_ok c' \<and> b = ct_next c \<and>
    core_of c' = entered (SPeerInfo_new 0 (pi_peer p) (pi_socket p) (pi_ip p) (pi_port p) name)
      (freed a p (unindexed p (core_of c))))"
proof -
  have live: "co_heap (core_of c) a = Some (Live p)"
    using p by (simp add: filed_def)
  note ok' = contacts_okD [OF ok]
  let ?t = "freed a p (unindexed p (core_of c))"
  have t: "core_ok ?t"
    using live by (intro freed_ok unindexed_ok [OF _ p] unindexed_unreferenced [OF _ p] ok') simp
  have range: "0 < pi_peer p" "pi_peer p \<le> ct_lastPeerId c"
    using core_okD(4) [OF ok'(2), of "pi_peer p" a] p by (auto simp: filed_def)
  have tail: "runs (bindp (new_peerinfo x (pi_peer p) (pi_socket p) (pi_ip p) (pi_port p) name) (\<lambda>b.
     bindp (index_peer x b) (\<lambda>_. bindp (SContacts_show x) (\<lambda>_. ret b)))) d
     (\<lambda>b c'. contacts_ok c' \<and> b = ct_next c \<and>
       core_of c' = entered (SPeerInfo_new 0 (pi_peer p) (pi_socket p) (pi_ip p) (pi_port p) name) ?t)"
    if d: "later a c ?t d" for d
    using range by (intro runs_enter [OF laterD(1,2) [OF d] t x]) simp_all
  show ?thesis
    unfolding SContacts_updateName_def runs_bindp [of "ask _ _ _"] runs_bindp [of "SContacts_erase _ _"]
    apply (rule step_ask [OF later_refl [OF ok'(1)] plain_getters(1) live x])
    apply (erule step_ask [OF _ plain_getters(4) live x])
    apply (erule step_ask [OF _ plain_getters(2) live x])
    apply (erule step_ask [OF _ plain_getters(3) live x])
    apply (erule runs_erase [OF _ ok'(2) p x e])
    apply (erule tail)
    done
qed

section \<open>The contract\<close>

definition book_ok :: "cxx \<Rightarrow> contacts \<Rightarrow> bool" where
  "book_ok x c \<longleftrightarrow> forgiving x \<and> contacts_ok c"

lemma entered_points_to:
  "contacts_ok c' \<Longrightarrow> core_of c' = entered p t \<Longrightarrow> points_to c' (co_next t) (pi_peer p)"
  by (auto simp: points_to_def filed_def)

lemma known_iff:
  assumes "contacts_ok c"
  shows "dir_known ip port name (contacts_directory c) = None \<longleftrightarrow>
    SContacts_findAddr c ip port = None \<and> SContacts_findName c name = None"
  unfolding contacts_directory_def dir_known_def SContacts_findAddr_def SContacts_findName_def
  using dir_of_None(1) [OF contacts_okD(2) [OF assms], of ip port]
    dir_of_None(2) [OF contacts_okD(2) [OF assms], of name]
  by (cases "d_addr (dir_of (core_of c)) (ip, port)") simp_all

lemma found_points_to:
  assumes ok: "contacts_ok c"
  shows "SContacts_findAddr c ip port = Some a \<Longrightarrow>
      \<exists>k. points_to c a k \<and> d_addr (contacts_directory c) (ip, port) = Some k"
    and "SContacts_findName c name = Some a \<Longrightarrow>
      \<exists>k. points_to c a k \<and> d_name (contacts_directory c) name = Some k"
    and "SContacts_findPeer c k = Some a \<longleftrightarrow> points_to c a k"
proof -
  note core = contacts_okD(2) [OF ok]
  show "SContacts_findAddr c ip port = Some a \<Longrightarrow>
      \<exists>k. points_to c a k \<and> d_addr (contacts_directory c) (ip, port) = Some k"
    using core_okD(5) [OF core, of "ipnport2addr ip port" a] dir_of_indices(1) [OF core]
    by (auto simp: points_to_def contacts_directory_def SContacts_findAddr_def)
  show "SContacts_findName c name = Some a \<Longrightarrow>
      \<exists>k. points_to c a k \<and> d_name (contacts_directory c) name = Some k"
    using core_okD(6) [OF core, of name a] dir_of_indices(2) [OF core]
    by (auto simp: points_to_def contacts_directory_def SContacts_findName_def)
  show "SContacts_findPeer c k = Some a \<longleftrightarrow> points_to c a k"
    using core_okD(4) [OF core, of k a]
    by (auto simp: points_to_def filed_def SContacts_findPeer_def)
qed

lemma add_refines:
  assumes ok: "book_ok x c" and room: "ct_lastPeerId c < 2147483647"
  shows "runs (SContacts_add x socket ip port name) c (\<lambda>a c'. book_ok x c' \<and>
    (\<exists>k. points_to c' a k \<and>
         (k, contacts_directory c') = dir_add (stale x c) socket ip port name (contacts_directory c)))"
proof -
  have c: "contacts_ok c" "forgiving x"
    using ok by (auto simp: book_ok_def)
  note core = contacts_okD(2) [OF c(1)]
  show ?thesis
  proof (cases "SContacts_findAddr c ip port")
    case (Some a)
    from found_points_to(1) [OF c(1) Some] obtain k where
      "points_to c a k" "d_addr (contacts_directory c) (ip, port) = Some k"
      by blast
    then show ?thesis
      using ok by (auto simp: runs_def runs_add_known(1) [OF Some] dir_add_def dir_known_def)
  next
    case addr: None
    then have unknown: "d_addr (contacts_directory c) (ip, port) = None"
      using dir_of_None(1) [OF core] by (simp add: SContacts_findAddr_def contacts_directory_def)
    show ?thesis
    proof (cases "SContacts_findName c name")
      case (Some a)
      from found_points_to(2) [OF c(1) Some] obtain k where
        "points_to c a k" "d_name (contacts_directory c) name = Some k"
        by blast
      then show ?thesis
        using ok unknown by (auto simp: runs_def runs_add_known(2) [OF addr Some] dir_add_def dir_known_def)
    next
      case name: None
      let ?k = "ct_lastPeerId c + 1"
      let ?p = "SPeerInfo_new 0 ?k socket ip port name"
      let ?t = "(purged (stale x c) (core_of c))\<lparr>co_last := ?k\<rparr>"
      have forgiving: "clock_ok x" "cx_iter x" "cx_erase_end x"
        using c(2) by (simp_all add: forgiving_def)
      have t: "core_ok ?t"
        using purged_ok [OF c(1) forgiving] room by (intro last_ok) auto
      have known: "dir_known ip port name (contacts_directory c) = None"
        using known_iff [OF c(1)] addr name by blast
      show ?thesis
      proof (rule runs_mono [OF runs_add [OF c(1) forgiving(1) _ room addr name]])
        show "stale x c = [] \<or> cx_iter x \<and> cx_erase_end x"
          using forgiving by blast
        fix a c'
        assume c': "contacts_ok c' \<and> a = ct_next c \<and> core_of c' = entered ?p ?t \<and>
          (\<forall>j b. hm_find (ct_peers c') j = Some b \<longrightarrow> refreshed x (ct_tick c) c' b)"
        then have dir: "contacts_directory c' =
            dir_enter ?p ((fold dir_remove (stale x c) (contacts_directory c))\<lparr>d_last := ?k\<rparr>)"
          by (simp add: contacts_directory_def dir_entered [OF t] dir_last dir_purged)
        have "points_to c' a ?k"
          using entered_points_to [of c' ?p ?t] c' by (simp add: SPeerInfo_new_def)
        then show "book_ok x c' \<and> (\<exists>k. points_to c' a k \<and>
            (k, contacts_directory c') = dir_add (stale x c) socket ip port name (contacts_directory c))"
          using c' c(2) dir known
          by (auto simp: book_ok_def dir_add_def Let_def contacts_directory_def)
      qed
    qed
  qed
qed

lemma replaced:
  assumes ok: "contacts_ok c" and p: "filed (core_of c) a p"
    and c': "contacts_ok c'" "core_of c' = entered p' (freed a p (unindexed p (core_of c)))"
  shows "contacts_directory c' = dir_replace p p' (contacts_directory c)"
    and "points_to c' (ct_next c) (pi_peer p')"
proof -
  note core = contacts_okD(2) [OF ok]
  have un: "unreferenced (unindexed p (core_of c)) a"
    using unindexed_unreferenced [OF core p] .
  have "core_ok (freed a p (unindexed p (core_of c)))"
    using unindexed_ok [OF core p] un p by (intro freed_ok) (simp_all add: filed_def)
  then show "contacts_directory c' = dir_replace p p' (contacts_directory c)"
    by (simp add: contacts_directory_def c'(2) dir_entered dir_freed [OF un] dir_unindexed dir_replace_def)
  show "points_to c' (ct_next c) (pi_peer p')"
    using entered_points_to [OF c'] by simp
qed

lemma peer_of:
  assumes "contacts_ok c" "points_to c a k" "d_peer (contacts_directory c) k = Some p"
  shows "filed (core_of c) a p" "pi_peer p = k" "pi_lastActivity p = 0"
proof -
  note core = contacts_okD(2) [OF assms(1)]
  obtain q where q: "filed (core_of c) a q" "pi_peer q = k"
    using assms(2) by (auto simp: points_to_def)
  obtain b where b: "filed (core_of c) b p" "pi_peer p = k"
    using assms(3) dir_of_peer [OF core] by (auto simp: contacts_directory_def)
  then show p: "filed (core_of c) a p" "pi_peer p = k"
    using q filed_same_peer filed_unique by metis+
  then show "pi_lastActivity p = 0"
    by (auto simp: filed_def core_heap_live)
qed

lemma SPeerInfo_new_eq:
  "pi_lastActivity p = 0 \<Longrightarrow>
     SPeerInfo_new 0 (pi_peer p) socket (pi_ip p) (pi_port p) (pi_name p) = p\<lparr>pi_socket := socket\<rparr>"
  "pi_lastActivity p = 0 \<Longrightarrow>
     SPeerInfo_new 0 (pi_peer p) (pi_socket p) (pi_ip p) (pi_port p) name = p\<lparr>pi_name := name\<rparr>"
  by (auto simp: SPeerInfo_new_def intro: peerinfo.equality)

lemma touched_name: "touched 0 q = p \<Longrightarrow> pi_name q = pi_name p"
  by auto

lemma updateSocket_refines:
  assumes ok: "book_ok x c" and a: "points_to c a k" "d_peer (contacts_directory c) k = Some p"
  shows "runs (SContacts_updateSocket x a socket) c (\<lambda>b c'. book_ok x c' \<and> points_to c' b k \<and>
    contacts_directory c' = dir_replace p (p\<lparr>pi_socket := socket\<rparr>) (contacts_directory c))"
proof -
  have c: "contacts_ok c" "forgiving x"
    using ok by (auto simp: book_ok_def)
  note p = peer_of [OF c(1) a]
  have r: "runs (SContacts_updateSocket x a socket) c (\<lambda>b c'. contacts_ok c' \<and> b = ct_next c \<and>
    core_of c' = entered (p\<lparr>pi_socket := socket\<rparr>) (freed a p (unindexed p (core_of c))))"
    unfolding SPeerInfo_new_eq(1) [OF p(3), symmetric]
    using c p by (intro runs_updateSocket) (auto simp: forgiving_def)
  have "points_to c' (ct_next c) k" if "contacts_ok c'"
      "core_of c' = entered (p\<lparr>pi_socket := socket\<rparr>) (freed a p (unindexed p (core_of c)))" for c'
    using replaced(2) [OF c(1) p(1) that] p(2) by simp
  then show ?thesis
    using replaced(1) [OF c(1) p(1)] c(2)
    by (intro runs_mono [OF r]) (auto simp: book_ok_def)
qed

lemma updateName_refines:
  assumes ok: "book_ok x c" and a: "points_to c a k" "d_peer (contacts_directory c) k = Some p"
  shows "runs (SContacts_updateName x a name) c (\<lambda>b c'. book_ok x c' \<and> points_to c' b k \<and>
    contacts_directory c' = dir_replace p (p\<lparr>pi_name := name\<rparr>) (contacts_directory c))"
proof -
  have c: "contacts_ok c" "forgiving x"
    using ok by (auto simp: book_ok_def)
  note p = peer_of [OF c(1) a]
  have r: "runs (SContacts_updateName x a name) c (\<lambda>b c'. contacts_ok c' \<and> b = ct_next c \<and>
    core_of c' = entered (p\<lparr>pi_name := name\<rparr>) (freed a p (unindexed p (core_of c))))"
    unfolding SPeerInfo_new_eq(2) [OF p(3), symmetric]
    using c p by (intro runs_updateName) (auto simp: forgiving_def)
  have "points_to c' (ct_next c) k" if "contacts_ok c'"
      "core_of c' = entered (p\<lparr>pi_name := name\<rparr>) (freed a p (unindexed p (core_of c)))" for c'
    using replaced(2) [OF c(1) p(1) that] p(2) by simp
  then show ?thesis
    using replaced(1) [OF c(1) p(1)] c(2)
    by (intro runs_mono [OF r]) (auto simp: book_ok_def)
qed

interpretation book: registry "book_ok x" contacts_directory points_to "stale x" SContacts_findPeer
  "SContacts_add x" "SContacts_updateSocket x" "SContacts_updateName x" for x
proof unfold_locales
  fix s k
  assume "book_ok x s"
  then have s: "contacts_ok s" "core_ok (core_of s)"
    by (auto simp: book_ok_def contacts_ok_def)
  show "dir_ok (contacts_directory s)"
    using s(2) by (simp add: contacts_directory_def dir_of_ok)
  show "SContacts_findPeer s k = Some a \<longleftrightarrow> points_to s a k" for a
    using found_points_to(3) [OF s(1)] .
  show "d_peer (contacts_directory s) k \<noteq> None \<longleftrightarrow> (\<exists>a. points_to s a k)"
    using dir_of_peer [OF s(2)] by (auto simp: contacts_directory_def points_to_def)
next
  fix s socket ip port name
  assume "book_ok x s" "d_last (contacts_directory s) < 2147483647"
  then show "runs (SContacts_add x socket ip port name) s (\<lambda>a s'. book_ok x s' \<and>
        (\<exists>k. points_to s' a k \<and>
          (k, contacts_directory s') = dir_add (stale x s) socket ip port name (contacts_directory s)))"
    by (intro add_refines) (simp_all add: contacts_directory_def)
qed (use updateSocket_refines updateName_refines in blast)+

section \<open>Where the runtime does not forgive\<close>

lemma erase_found_no_end:
  "\<not> cx_erase_end x \<Longrightarrow> hm_find m k = None \<Longrightarrow> erase_found x k m = Inl Bad_Iterator"
  by (simp add: erase_found_def)

lemma erase_or_fail:
  assumes "later a c0 t c" "\<not> cx_erase_end x"
  shows "co_addr t s = None \<Longrightarrow> fails (erase_addr x s) c Bad_Iterator"
    and "co_name t s = None \<Longrightarrow> fails (erase_name x s) c Bad_Iterator"
    and "co_sock t k = None \<Longrightarrow> fails (erase_socket x k) c Bad_Iterator"
  using assms
  by (auto simp: later_def fails_def erase_addr_def erase_name_def erase_socket_def bindp_def getp_def
      erase_found_no_end)

lemma cleanup_loop_fails:
  assumes "\<forall>(k, a) \<in> set es. \<exists>p. filed (core_of c) a p \<and> pi_peer p = k"
    and ok: "contacts_ok c" and x: "clock_ok x" "\<not> cx_iter x" and "second now"
    and "idle_peers now (ct_heap c) es \<noteq> []"
  shows "fails (cleanup_loop x now es) c Bad_Iterator"
  using assms(1,6)
proof (induction es)
  case (Cons e es)
  obtain k a where e: "e = (k, a)"
    by fastforce
  obtain p where p: "filed (core_of c) a p"
    using Cons.prems(1) e by auto
  then obtain q where q: "ct_heap c a = Some (Live q)" "p = touched 0 q"
    by (auto simp: core_heap_live filed_def)
  have minus: "int_minus now (pi_lastActivity q) = Inr (now - pi_lastActivity q)"
    using ok q(1) assms(5) by (intro int_minus_second) (fastforce simp: contacts_ok_def sane_def)+
  have step: "fails (cleanup_loop x now (e # es)) c Bad_Iterator \<longleftrightarrow>
      fails (if MAX_ALLOWED_PEERINFO_IDLE_S < now - pi_lastActivity q then
         bindp (ask x a SPeerInfo_getAddr) (\<lambda>addr. bindp (erase_addr x addr) (\<lambda>_.
         bindp (ask x a SPeerInfo_getName) (\<lambda>name. bindp (erase_name x name) (\<lambda>_.
         bindp (ask x a SPeerInfo_getSocket) (\<lambda>socket. bindp (erase_socket x socket) (\<lambda>_.
         bindp (modp (\<lambda>c. c\<lparr>ct_peers := hm_erase k (ct_peers c)\<rparr>)) (\<lambda>_.
           if cx_iter x then cleanup_loop x now es else faultp Bad_Iterator)))))))
       else cleanup_loop x now es) c Bad_Iterator"
    using q(1) minus
    by (simp add: e fails_def load_def read_cell_def bindp_def getp_def SPeerInfo_getLastActivity_def)
  show ?case
  proof (cases "MAX_ALLOWED_PEERINFO_IDLE_S < now - pi_lastActivity q")
    case False
    then have "fails (cleanup_loop x now es) c Bad_Iterator"
      using Cons.prems q(1) e by (intro Cons.IH) auto
    then show ?thesis
      using False step by simp
  next
    case True
    have live: "co_heap (core_of c) a = Some (Live p)" "co_addr (core_of c) (pi_addr p) \<noteq> None"
      using p core_okD(5) [OF contacts_okD(2) [OF ok], of "pi_addr p" a] unfolding filed_def by auto
    note l0 = later_refl [OF contacts_okD(1) [OF ok], of a]
    have last: "fails (bindp (modp (\<lambda>c. c\<lparr>ct_peers := hm_erase k (ct_peers c)\<rparr>)) (\<lambda>_.
        if cx_iter x then cleanup_loop x now es else faultp Bad_Iterator)) d Bad_Iterator" for d
      using x(2) by (simp add: fails_def bindp_def modp_def faultp_def)
    have socket: "fails (bindp (erase_socket x s) (\<lambda>_. bindp (modp (\<lambda>c. c\<lparr>ct_peers := hm_erase k (ct_peers c)\<rparr>)) (\<lambda>_.
        if cx_iter x then cleanup_loop x now es else faultp Bad_Iterator))) d Bad_Iterator"
      if l: "later a c t d" for s t d
    proof (cases "cx_erase_end x \<or> co_sock t s \<noteq> None")
      case True
      then show ?thesis
        by (intro fails_after step_erase_socket [OF l] last)
    qed (use erase_or_fail(3) [OF l] in \<open>auto simp: fails_bindp\<close>)
    have name: "fails (bindp (erase_name x n) (\<lambda>_. bindp (ask x a SPeerInfo_getSocket) (\<lambda>socket.
        bindp (erase_socket x socket) (\<lambda>_. bindp (modp (\<lambda>c. c\<lparr>ct_peers := hm_erase k (ct_peers c)\<rparr>)) (\<lambda>_.
        if cx_iter x then cleanup_loop x now es else faultp Bad_Iterator))))) d Bad_Iterator"
      if l: "later a c t d" "co_heap t a = Some (Live p)" for n t d
    proof (cases "cx_erase_end x \<or> co_name t n \<noteq> None")
      case True
      show ?thesis
        apply (rule fails_after, rule step_erase_name [OF l(1) True])
        apply (rule fails_after, erule step_ask [OF _ plain_getters(4) _ x(1)], simp add: l(2))
        apply (erule socket)
        done
    qed (use erase_or_fail(2) [OF l(1)] in \<open>auto simp: fails_bindp\<close>)
    have "fails (bindp (ask x a SPeerInfo_getAddr) (\<lambda>addr. bindp (erase_addr x addr) (\<lambda>_.
         bindp (ask x a SPeerInfo_getName) (\<lambda>name. bindp (erase_name x name) (\<lambda>_.
         bindp (ask x a SPeerInfo_getSocket) (\<lambda>socket. bindp (erase_socket x socket) (\<lambda>_.
         bindp (modp (\<lambda>c. c\<lparr>ct_peers := hm_erase k (ct_peers c)\<rparr>)) (\<lambda>_.
           if cx_iter x then cleanup_loop x now es else faultp Bad_Iterator)))))))) c Bad_Iterator"
      apply (rule fails_after, rule step_ask [OF l0 plain_getters(6) live(1) x(1)])
      apply (rule fails_after, erule step_erase_addr, use live in simp)
      apply (rule fails_after, erule step_ask [OF _ plain_getters(5) _ x(1)], simp add: live)
      apply (erule name, simp add: live)
      done
    then show ?thesis
      using True step by simp
  qed
qed simp

lemma doCleanUp_fails:
  assumes ok: "contacts_ok c" and x: "clock_ok x" "\<not> cx_iter x" and stale: "stale x c \<noteq> []"
  shows "SContacts_doCleanUp x c = Inl Bad_Iterator"
proof -
  let ?now = "cx_clock x (ct_tick c)"
  have s: "sane c" "core_ok (core_of c)" "second ?now" "second (ct_lastCleanUp c)"
    using ok x by (auto simp: contacts_ok_def sane_def clock_ok_def)
  let ?d = "c\<lparr>ct_tick := Suc (ct_tick c), ct_lastCleanUp := ?now\<rparr>"
  have d: "contacts_ok ?d" "core_of ?d = core_of c"
    using s by (auto simp: contacts_ok_def sane_def core_of_def)
  have due: "MIN_CLEANUP_PERIOD_S < ?now - ct_lastCleanUp c"
    using stale by (auto simp: stale_def Let_def split: if_splits)
  have "\<forall>(k, a) \<in> set (ct_peers c). \<exists>p. filed (core_of ?d) a p \<and> pi_peer p = k"
    using core_okD(4) [OF s(2)] peers_entry [OF s(1)] d(2) by auto
  then have "fails (cleanup_loop x ?now (ct_peers c)) ?d Bad_Iterator"
    using stale due s(3) by (intro cleanup_loop_fails d x) (auto simp: stale_def Let_def)
  then show ?thesis
    using due s
    by (simp add: SContacts_doCleanUp_def bindp_def current_seconds_def callp_def getp_def modp_def
        int_minus_second fails_def)
qed

lemma add_stale_fails:
  assumes "contacts_ok c" "clock_ok x" "\<not> cx_iter x" "stale x c \<noteq> []"
    and "SContacts_findAddr c ip port = None" "SContacts_findName c name = None"
  shows "SContacts_add x socket ip port name c = Inl Bad_Iterator"
  using doCleanUp_fails [OF assms(1-4)] assms(5,6)
  by (simp add: SContacts_add_def bindp_def getp_def)

lemma updateSocket_fails:
  assumes ok: "contacts_ok c" and x: "clock_ok x" "cx_erase_end x" "cx_dangling x = (\<lambda>_. None)"
    and p: "filed (core_of c) a p"
  shows "SContacts_updateSocket x a socket c = Inl Use_After_Free"
proof -
  have live: "co_heap (core_of c) a = Some (Live p)"
    using p by (simp add: filed_def)
  note ok' = contacts_okD [OF ok]
  have load: "fails (load x a) d Use_After_Free" if d: "later a c (freed a p (unindexed p (core_of c))) d" for d
  proof -
    have "map_option still (ct_heap d a) = Some (Freed p)"
      using arg_cong [OF laterD(2) [OF d], of "\<lambda>t. co_heap t a"] by (simp add: core_of_def)
    then obtain q where "ct_heap d a = Some (Freed q)"
      by (auto elim: still.elims)
    then show ?thesis
      by (simp add: fails_def load_def bindp_def getp_def read_cell_def x(3))
  qed
  have "fails (SContacts_updateSocket x a socket) c Use_After_Free"
    unfolding SContacts_updateSocket_def
    apply (rule fails_after, rule step_ask [OF later_refl [OF ok'(1)] plain_getters(1) live x(1)])
    apply (rule fails_after, erule step_ask [OF _ plain_getters(2) live x(1)])
    apply (rule fails_after, erule step_ask [OF _ plain_getters(3) live x(1)])
    apply (rule fails_after, erule step_ask [OF _ plain_getters(5) live x(1)])
    apply (rule fails_after, erule runs_erase [OF _ ok'(2) p x(1)], simp add: x(2))
    apply (drule load, simp add: fails_bindp)
    done
  then show ?thesis
    by (simp add: fails_def)
qed

section \<open>The destructor\<close>

lemma delete_all_live:
  assumes "distinct (map snd es)" "\<forall>(k, a) \<in> set es. \<exists>p. ct_heap c a = Some (Live p)"
  shows "\<exists>c'. delete_all es c = Inr ((), c') \<and>
    c' = c\<lparr>ct_heap := (\<lambda>a. if a \<in> snd ` set es then map_option (\<lambda>cell. Freed (cell_info cell)) (ct_heap c a)
                          else ct_heap c a)\<rparr>"
  using assms
proof (induction es arbitrary: c)
  case (Cons e es)
  obtain k a where e: "e = (k, a)"
    by fastforce
  obtain p where p: "ct_heap c a = Some (Live p)"
    using Cons.prems(2) e by auto
  let ?c = "c\<lparr>ct_heap := (ct_heap c)(a \<mapsto> Freed p)\<rparr>"
  have a: "a \<notin> snd ` set es"
    using Cons.prems(1) e by simp
  have "\<forall>(k, b) \<in> set es. \<exists>p. ct_heap ?c b = Some (Live p)"
    using Cons.prems(2) a by force
  from Cons.IH [OF _ this] Cons.prems(1) a p
  show ?case
    by (auto simp: e bindp_def delete_peerinfo_def free_cell_def fun_eq_iff)
qed simp

lemma distinct_peers:
  assumes "contacts_ok c"
  shows "distinct (map snd (ct_peers c))"
proof -
  note ok = contacts_okD [OF assms]
  have "distinct (map fst (ct_peers c))"
    using ok(1) by (simp add: sane_def hm_inv_def)
  moreover have "j = k" if "(j, a) \<in> set (ct_peers c)" "(k, a) \<in> set (ct_peers c)" for j k a
    using core_okD(4) [OF ok(2)] that filed_unique by (metis core_of_sel(2) peers_entry [OF ok(1)])
  ultimately show ?thesis
    by (force simp: distinct_map inj_on_def)
qed

section \<open>A sample table\<close>

text \<open>
  One peer, numbered 1, at a location of its own; a runtime that forgives and one that does not.
  The clocks stand still: at 0 for the first \<open>n\<close> readings, later at \<open>t\<close>.
\<close>

definition sample_peer :: peerinfo where
  "sample_peer = SPeerInfo_new 0 1 7 0x0A000001 4000 ''alice''"

definition sample_contacts :: contacts where
  "sample_contacts =
     \<lparr>ct_lastPeerId = 1, ct_peers = [(1, 0)], ct_addr2peer = [(pi_addr sample_peer, 0)],
      ct_name2peer = [(''alice'', 0)], ct_socket2peer = [(7, 0)], ct_lastCleanUp = -1,
      ct_heap = [0 \<mapsto> Live sample_peer], ct_next = 1, ct_tick = 0\<rparr>"

definition sample_cxx :: "bool \<Rightarrow> int \<Rightarrow> cxx" where
  "sample_cxx ok t =
     \<lparr>cx_dangling = (\<lambda>p. if ok then Some p else None), cx_iter = ok, cx_erase_end = True,
      cx_clock = (\<lambda>_. t)\<rparr>"

lemma sample_peer_sel [simp]:
  "pi_peer sample_peer = 1" "pi_socket sample_peer = 7" "pi_name sample_peer = ''alice''"
  "pi_lastActivity sample_peer = 0" "pi_ip sample_peer = 0x0A000001" "pi_port sample_peer = 4000"
  "touched 0 sample_peer = sample_peer"
  by (simp_all add: sample_peer_def SPeerInfo_new_def touched_def)

lemma sample_contacts_core:
  "core_of sample_contacts =
     \<lparr>co_last = 1, co_peers = [1 \<mapsto> 0], co_addr = [pi_addr sample_peer \<mapsto> 0], co_name = [''alice'' \<mapsto> 0],
      co_sock = [7 \<mapsto> 0], co_heap = [0 \<mapsto> Live sample_peer], co_next = 1\<rparr>"
  by (simp add: core_of_def sample_contacts_def hm_find_def fun_eq_iff)

lemma sample_contacts_ok: "contacts_ok sample_contacts"
proof -
  have "core_ok (core_of sample_contacts)"
    unfolding sample_contacts_core
    by (rule core_okI) (auto simp: filed_def split: if_splits)
  moreover have "sane sample_contacts"
    by (simp add: sane_def sample_contacts_def hm_inv_def)
  ultimately show ?thesis
    by (simp add: contacts_ok_def)
qed

lemma sample_last: "ct_lastPeerId sample_contacts = 1" "ct_tick sample_contacts = 0"
  by (simp_all add: sample_contacts_def)

lemma sample_points_to: "points_to sample_contacts 0 1"
  by (simp add: points_to_def filed_def sample_contacts_core)

lemma sample_cxx_ok:
  "second t \<Longrightarrow> forgiving (sample_cxx True t)" "second t \<Longrightarrow> clock_ok (sample_cxx b t)"
  "\<not> cx_iter (sample_cxx False t)" "cx_erase_end (sample_cxx b t)"
  "cx_dangling (sample_cxx False t) = (\<lambda>_. None)"
  by (simp_all add: sample_cxx_def forgiving_def clock_ok_def)

lemma sample_stale: "stale (sample_cxx b 10000) sample_contacts = [sample_peer]"
  by (simp add: stale_def sample_cxx_def sample_contacts_def Let_def)

lemma sample_unknown:
  "SContacts_findAddr sample_contacts 5 6 = None" "SContacts_findName sample_contacts ''bob'' = None"
  by (simp_all add: SContacts_findAddr_def SContacts_findName_def sample_contacts_def hm_find_def addr_eq)

section \<open>Properties\<close>

text \<open>
  C29: the contacts table never fails and never becomes inconsistent, on a runtime that forgives:
  any sequence of additions, socket changes and name changes, in any order and with any
  arguments, carries the empty table to one whose peer numbers are positive, distinct and not
  above the last one given, in which every location, name and socket that is found leads to a
  live peer that has it, and every peer is found by its location.
\<close>

theorem contacts_any_history:
  assumes "forgiving x" "length ops \<le> 2147483647"
  shows "runs (run_ops SContacts_findPeer (SContacts_add x) (SContacts_updateSocket x)
      (SContacts_updateName x) ops) SContacts_new
    (\<lambda>_ c. dir_ok (contacts_directory c))"
  using assms contacts_ok_new
  by (intro book.runs_ops_consistent)
    (auto simp: book_ok_def contacts_directory_def SContacts_new_def)

theorem contacts_any_history_witness:
  "runs (run_ops SContacts_findPeer (SContacts_add (sample_cxx True 5)) (SContacts_updateSocket (sample_cxx True 5))
      (SContacts_updateName (sample_cxx True 5)) [Add_Peer 3 1 2 ''a'', Set_Socket 1 (-1), Set_Name 1 ''b'']) SContacts_new
    (\<lambda>_ c. dir_ok (contacts_directory c))"
  by (rule contacts_any_history) (simp_all add: sample_cxx_ok)

text \<open>
  C31: \<open>add\<close> implements the abstract directory. A peer known by its location, or else by its
  name, is returned as it is and nothing changes; any other gets the next number and is entered
  in all four maps, after the peers idle for more than two hours are dropped if the last
  cleanup is more than two minutes old. The pointer returned is that of the peer.
\<close>

theorem SContacts_add_refines:
  assumes "forgiving x" "contacts_ok c" "ct_lastPeerId c < 2147483647"
  shows "runs (SContacts_add x socket ip port name) c (\<lambda>a c'. contacts_ok c' \<and>
    (\<exists>k. points_to c' a k \<and>
         (k, contacts_directory c') = dir_add (stale x c) socket ip port name (contacts_directory c)))"
  using book.add_law [of x c socket ip port name] assms
  by (auto simp: book_ok_def contacts_directory_def elim!: runs_mono)

theorem SContacts_add_refines_witness:
  "runs (SContacts_add (sample_cxx True 10000) 9 5 6 ''bob'') sample_contacts (\<lambda>a c'. contacts_ok c' \<and>
    (\<exists>k. points_to c' a k \<and>
         (k, contacts_directory c') = dir_add (stale (sample_cxx True 10000) sample_contacts) 9 5 6 ''bob''
            (contacts_directory sample_contacts)))"
  by (rule SContacts_add_refines) (simp_all add: sample_cxx_ok sample_contacts_ok sample_last)

text \<open>
  C35: changing a peer's socket or name replaces the peer and keeps its number, its location and
  the rest of it: the old location, name and socket are taken out of the indices and the new
  ones put in. On a runtime where a freed object can still be read.
\<close>

theorem SContacts_update_refines:
  assumes "forgiving x" "contacts_ok c" "points_to c a k" "d_peer (contacts_directory c) k = Some p"
  shows "runs (SContacts_updateSocket x a socket) c (\<lambda>b c'. contacts_ok c' \<and> points_to c' b k \<and>
      contacts_directory c' = dir_replace p (p\<lparr>pi_socket := socket\<rparr>) (contacts_directory c)) \<and>
    runs (SContacts_updateName x a name) c (\<lambda>b c'. contacts_ok c' \<and> points_to c' b k \<and>
      contacts_directory c' = dir_replace p (p\<lparr>pi_name := name\<rparr>) (contacts_directory c))"
  using book.set_socket_law [of x c a k p socket] book.set_name_law [of x c a k p name] assms
  by (auto simp: book_ok_def elim!: runs_mono)

theorem SContacts_update_refines_witness:
  "runs (SContacts_updateSocket (sample_cxx True 5) 0 (-1)) sample_contacts (\<lambda>b c'. contacts_ok c' \<and> points_to c' b 1 \<and>
      contacts_directory c' = dir_replace sample_peer (sample_peer\<lparr>pi_socket := -1\<rparr>) (contacts_directory sample_contacts)) \<and>
    runs (SContacts_updateName (sample_cxx True 5) 0 ''carol'') sample_contacts (\<lambda>b c'. contacts_ok c' \<and> points_to c' b 1 \<and>
      contacts_directory c' = dir_replace sample_peer (sample_peer\<lparr>pi_name := ''carol''\<rparr>) (contacts_directory sample_contacts))"
  by (rule SContacts_update_refines)
    (simp_all add: sample_cxx_ok sample_contacts_ok sample_points_to contacts_directory_def
      sample_contacts_core dir_of_def who_def)

text \<open>
  \<open>updateSocket\<close> reads a deleted object. The name of the new object is copied through a
  reference into the old one, after \<open>erase\<close> deleted it: where reading freed memory is not
  forgiven, every change of a known peer's socket ends in that fault.
\<close>

theorem SContacts_updateSocket_dangling:
  assumes "contacts_ok c" "points_to c a k" "clock_ok x" "cx_erase_end x" "cx_dangling x = (\<lambda>_. None)"
  shows "SContacts_updateSocket x a socket c = Inl Use_After_Free"
  using assms updateSocket_fails by (auto simp: points_to_def)

theorem SContacts_updateSocket_dangling_witness:
  "SContacts_updateSocket (sample_cxx False 5) 0 8 sample_contacts = Inl Use_After_Free"
  by (rule SContacts_updateSocket_dangling [OF sample_contacts_ok sample_points_to])
    (simp_all add: sample_cxx_ok)

text \<open>
  The first peer that goes stale breaks the table, where an erased iterator cannot be
  advanced: adding an unknown peer then runs the cleanup, which advances the iterator of the
  entry it has just erased.
\<close>

theorem SContacts_cleanup_iterator:
  assumes "contacts_ok c" "clock_ok x" "\<not> cx_iter x" "stale x c \<noteq> []"
    and "SContacts_findAddr c ip port = None" "SContacts_findName c name = None"
  shows "SContacts_add x socket ip port name c = Inl Bad_Iterator"
  using assms by (rule add_stale_fails)

theorem SContacts_cleanup_iterator_witness:
  "SContacts_add (sample_cxx False 10000) 9 5 6 ''bob'' sample_contacts = Inl Bad_Iterator"
  by (rule SContacts_cleanup_iterator [OF sample_contacts_ok])
    (simp_all add: sample_cxx_ok sample_stale sample_unknown)

text \<open>
  Entering a new peer makes every peer look active. The listing that \<open>add\<close> writes to the log
  goes through the getters that note the time, so afterwards no peer's last activity is before
  the call, however long it has been silent; with one newcomer every two hours no peer is ever
  dropped.
\<close>

theorem SContacts_add_refreshes:
  assumes "contacts_ok c" "clock_ok x" "stale x c = [] \<or> cx_iter x \<and> cx_erase_end x"
    and "ct_lastPeerId c < 2147483647"
    and "SContacts_findAddr c ip port = None" "SContacts_findName c name = None"
    and "\<forall>m n. m \<le> n \<longrightarrow> cx_clock x m \<le> cx_clock x n"
  shows "runs (SContacts_add x socket ip port name) c (\<lambda>a c'. \<forall>k b. SContacts_findPeer c' k = Some b \<longrightarrow>
    (\<exists>p. ct_heap c' b = Some (Live p) \<and> cx_clock x (ct_tick c) \<le> pi_lastActivity p))"
proof (rule runs_mono [OF runs_add [OF assms(1-6)]])
  have "\<exists>p. ct_heap c' b = Some (Live p) \<and> cx_clock x (ct_tick c) \<le> pi_lastActivity p"
    if "refreshed x (ct_tick c) c' b" for c' b
    using that assms(7) by (auto simp: refreshed_def)
  then show "\<forall>k b. SContacts_findPeer c' k = Some b \<longrightarrow>
      (\<exists>p. ct_heap c' b = Some (Live p) \<and> cx_clock x (ct_tick c) \<le> pi_lastActivity p)"
    if "contacts_ok c' \<and> a = ct_next c \<and>
      core_of c' = entered (SPeerInfo_new 0 (ct_lastPeerId c + 1) socket ip port name)
        ((purged (stale x c) (core_of c))\<lparr>co_last := ct_lastPeerId c + 1\<rparr>) \<and>
      (\<forall>j b. hm_find (ct_peers c') j = Some b \<longrightarrow> refreshed x (ct_tick c) c' b)" for a c'
    using that by (simp add: SContacts_findPeer_def)
qed

theorem SContacts_add_refreshes_witness:
  "runs (SContacts_add (sample_cxx True 100) 9 5 6 ''bob'') sample_contacts (\<lambda>a c'. \<forall>k b. SContacts_findPeer c' k = Some b \<longrightarrow>
    (\<exists>p. ct_heap c' b = Some (Live p) \<and> cx_clock (sample_cxx True 100) (ct_tick sample_contacts) \<le> pi_lastActivity p))"
  by (rule SContacts_add_refreshes [OF sample_contacts_ok])
    (simp_all add: sample_cxx_ok sample_unknown sample_last, simp_all add: sample_cxx_def)

text \<open>
  The destructor deletes each peer of the table once and empties the maps. An object that no
  map leads to any more stays: the peers that a cleanup dropped are never freed.
\<close>

theorem SContacts_delete_frees:
  assumes "contacts_ok c"
  shows "\<exists>c'. SContacts_delete c = Inr ((), c') \<and>
    ct_peers c' = [] \<and> ct_addr2peer c' = [] \<and> ct_name2peer c' = [] \<and> ct_socket2peer c' = [] \<and>
    (\<forall>a. ct_heap c' a =
      (if \<exists>k. SContacts_findPeer c k = Some a
       then map_option (\<lambda>cell. Freed (cell_info cell)) (ct_heap c a) else ct_heap c a))"
proof -
  note ok = contacts_okD [OF assms]
  let ?c = "c\<lparr>ct_addr2peer := [], ct_name2peer := [], ct_socket2peer := []\<rparr>"
  have "\<forall>(k, a) \<in> set (ct_peers c). \<exists>p. ct_heap ?c a = Some (Live p)"
    using core_okD(4) [OF ok(2)] peers_entry [OF ok(1)] core_heap_live by (fastforce simp: filed_def)
  moreover have "(\<exists>k. SContacts_findPeer c k = Some a) \<longleftrightarrow> a \<in> snd ` set (ct_peers c)" for a
    using peers_entry [OF ok(1)] by (force simp: SContacts_findPeer_def)
  ultimately show ?thesis
    using delete_all_live [OF distinct_peers [OF assms], of ?c]
    by (simp add: SContacts_delete_def bindp_def modp_def getp_def)
qed

theorem SContacts_delete_frees_witness:
  "\<exists>c'. SContacts_delete sample_contacts = Inr ((), c') \<and>
    ct_peers c' = [] \<and> ct_addr2peer c' = [] \<and> ct_name2peer c' = [] \<and> ct_socket2peer c' = [] \<and>
    (\<forall>a. ct_heap c' a =
      (if \<exists>k. SContacts_findPeer sample_contacts k = Some a
       then map_option (\<lambda>cell. Freed (cell_info cell)) (ct_heap sample_contacts a)
       else ct_heap sample_contacts a))"
  by (rule SContacts_delete_frees [OF sample_contacts_ok])

end
