(* ===== verification/Messenger_Laws.thy ===== *)
theory Messenger_Laws
  imports Messenger Sample_System
begin

text \<open>
  What the messenger does: frames are cut from a stream exactly as \<open>next_frame\<close> says, nothing is
  taken from a socket before a frame is complete, sizes are checked on both sides, the registry
  of descriptors stays well formed; and what goes wrong when a datagram is shorter than it says.
\<close>

section \<open>Sockets\<close>

text \<open>
  Documented behaviour of \<open>recvfrom\<close>. On a connected stream with bytes to read it gives as many
  of them as the buffer takes, and takes them off unless it only peeks; more may arrive at any
  time, behind those there are. On a datagram socket it gives the first datagram, cut to the
  buffer, and takes it off as a whole.
\<close>

definition stream_socket :: "'w posix \<Rightarrow> int \<Rightarrow> ('w \<Rightarrow> string) \<Rightarrow> bool" where
  "stream_socket P fd avail \<longleftrightarrow>
     (\<forall>w n peek. avail w \<noteq> [] \<and> 0 < n \<longrightarrow>
        (\<exists>w' more. px_recvfrom P fd n peek w = (Recv_Data (take n (avail w)) None, w') \<and>
           avail w' = (if peek then avail w else drop n (avail w)) @ more)) \<and>
     (\<forall>w t. \<exists>more. avail (px_usleep P t w) = avail w @ more) \<and>
     (\<forall>w. \<exists>more. avail (snd (px_getpeername P fd w)) = avail w @ more)"

definition dgram_socket :: "'w posix \<Rightarrow> int \<Rightarrow> ('w \<Rightarrow> (string \<times> sockaddr_in) list) \<Rightarrow> bool" where
  "dgram_socket P fd queue \<longleftrightarrow>
     (\<forall>w n peek d a ds. queue w = (d, a) # ds \<and> 0 < n \<longrightarrow>
        (\<exists>w' more. px_recvfrom P fd n peek w = (Recv_Data (take n d) (Some a), w') \<and>
           queue w' = (if peek then (d, a) # ds else ds) @ more)) \<and>
     (\<forall>w t. \<exists>more. queue (px_usleep P t w) = queue w @ more) \<and>
     (\<forall>w. \<exists>more. queue (snd (px_getpeername P fd w)) = queue w @ more)"

lemma stream_recv:
  assumes "stream_socket P fd avail" "avail w \<noteq> []" "0 < n"
  obtains w' more where "sys_recvfrom P fd n peek w = (Recv_Data (take n (avail w)) None, w')"
    "avail w' = (if peek then avail w else drop n (avail w)) @ more"
proof -
  obtain w' more where "px_recvfrom P fd n peek w = (Recv_Data (take n (avail w)) None, w')"
    "avail w' = (if peek then avail w else drop n (avail w)) @ more"
    using assms unfolding stream_socket_def by blast
  then show ?thesis
    by (intro that [of w' more]) (simp_all add: sys_recvfrom_def)
qed

lemma dgram_recv:
  assumes "dgram_socket P fd queue" "queue w = (d, a) # ds" "0 < n"
  obtains w' more where "sys_recvfrom P fd n peek w = (Recv_Data (take n d) (Some a), w')"
    "queue w' = (if peek then (d, a) # ds else ds) @ more"
proof -
  obtain w' more where "px_recvfrom P fd n peek w = (Recv_Data (take n d) (Some a), w')"
    "queue w' = (if peek then (d, a) # ds else ds) @ more"
    using assms unfolding dgram_socket_def by blast
  then show ?thesis
    by (intro that [of w' more]) (simp_all add: sys_recvfrom_def)
qed

section \<open>One frame\<close>

lemma case_recv_Data: "(case Recv_Data bs a of Recv_Error e \<Rightarrow> f e | Recv_Data bs a \<Rightarrow> g bs a) = g bs a"
  by simp

lemma runs_not_ready [runs_simps]:
  "runs (not_ready P tag from) w Q = Q (0, tag, [], from) (px_usleep P 1 w)"
  by (simp add: not_ready_def runs_simps)

lemma runs_getIP:
  "runs (stcp_getIP P fd) w Q =
     Q (if fst (fst (px_getpeername P fd w)) < 0 then -1
        else ntohl (sin_addr (snd (fst (px_getpeername P fd w))))) (snd (px_getpeername P fd w))"
  by (cases "px_getpeername P fd w") (auto simp: stcp_getIP_def runs_simps)

text \<open>
  A result of \<open>nextMsg\<close> that agrees with what was at the front of the stream, before and after:
  the stream has lost the frame that was delivered, or nothing, and may have grown at its end.
\<close>

fun agrees :: "parse \<Rightarrow> string \<Rightarrow> int \<times> int \<times> string \<times> sockaddr_in \<Rightarrow> string \<Rightarrow> bool" where
  "agrees Incomplete s (res, tag, data, from) s' \<longleftrightarrow> res = 0 \<and> (\<exists>more. s' = s @ more)"
| "agrees Malformed s (res, tag, data, from) s' \<longleftrightarrow> res = -1 \<and> (\<exists>more. s' = s @ more)"
| "agrees (Frame t port body rest) s (res, tag, data, from) s' \<longleftrightarrow>
     res = int (8 + length body) \<and> tag = t \<and> data = body \<and> sin_port from = htons port \<and>
     (\<exists>more. s' = rest @ more)"

text \<open>What is at the front of the stream when the frame is taken out; more may have come behind it.\<close>

lemma runs_extract:
  assumes r: "sys_recvfrom P fd (8 + nat n) False w = (Recv_Data buf a, w')" "8 + nat n \<le> length buf"
    and Q: "\<And>from' w''. sin_port from' = htons (hdr_port hdr) \<Longrightarrow>
       w'' = w' \<or> w'' = snd (px_getpeername P fd w') \<Longrightarrow>
       (sin_addr (sender from a) \<noteq> 0 \<longrightarrow> sin_addr from' = sin_addr (sender from a)) \<Longrightarrow>
       Q (n + 8, tag, take (nat n) (drop 8 buf), from') w''"
  shows "runs (nextMsg_extract P fd n hdr tag from) w Q"
proof -
  let ?from = "(sender from a)\<lparr>sin_family := AF_INET, sin_port := htons (hdr_port hdr)\<rparr>"
  have "runs (nextMsg_extract P fd n hdr tag from) w Q \<longleftrightarrow>
      runs (if sin_addr ?from = 0 then
             bindp (stcp_getIP P fd) (\<lambda>ip.
               ret (n + int HDRLEN, tag, take (nat n) (drop HDRLEN buf), ?from\<lparr>sin_addr := htonl ip\<rparr>))
           else ret (n + int HDRLEN, tag, take (nat n) (drop HDRLEN buf), ?from)) w' Q"
    using r(2) by (simp add: nextMsg_extract_def runs_bindp runs_basic r(1) Let_def)
  moreover have "Q (n + 8, tag, take (nat n) (drop 8 buf), ?from) w'"
    by (rule Q) simp_all
  moreover have "Q (n + 8, tag, take (nat n) (drop 8 buf), ?from\<lparr>sin_addr := ip\<rparr>) (snd (px_getpeername P fd w'))"
    if "sin_addr ?from = 0" for ip
    by (rule Q) (use that in simp_all)
  ultimately show ?thesis
    by (simp add: runs_bindp runs_basic runs_getIP)
qed

lemma runs_exI: "runs m s (\<lambda>a s'. Q y a s') \<Longrightarrow> runs m s (\<lambda>a s'. \<exists>y. Q y a s')"
  by (erule runs_mono) blast

lemma nextMsg_stream_runs:
  assumes sock: "stream_socket P fd avail" and pending: "avail w \<noteq> []"
    and len: "0 < len" "8 + nat len \<le> stack"
  shows "runs (SMessenger_nextMsg P stack fd len) w (\<lambda>r w'.
    \<exists>more. agrees (next_frame (nat len) (avail w @ more)) (avail w) r (avail w'))"
    (is "runs _ w ?post")
proof -
  obtain w1 m1 where r1: "sys_recvfrom P fd 8 True w = (Recv_Data (take 8 (avail w)) None, w1)"
    "avail w1 = avail w @ m1"
    using stream_recv [OF sock pending, of 8 True] by auto
  have sleep: "\<exists>more. avail (px_usleep P 1 v) = avail v @ more" for v
    using sock by (simp add: stream_socket_def)
  have peer: "\<exists>more. avail (snd (px_getpeername P fd v)) = avail v @ more" for v
    using sock by (simp add: stream_socket_def)
  show ?thesis
  proof (cases "length (avail w) < 8")
    case True
    have "next_frame (nat len) (avail w @ []) = Incomplete"
      using True by (simp add: next_frame_def)
    then show ?thesis
      using True pending len(1) r1 sleep [of w1]
      by (intro runs_exI [where y = "[]"]) (auto simp: SMessenger_nextMsg_def runs_simps Let_def)
  next
    case False
    obtain n hdr t port where u: "unpackhdr (hdr_of_mem (take 8 (avail w))) = (n, hdr, t, port)"
      by (cases "unpackhdr (hdr_of_mem (take 8 (avail w)))") auto
    have hp: "hdr_port hdr = port"
      using u by (auto simp: unpackhdr_def Let_def)
    have head: "take 8 (avail w @ more) = take 8 (avail w)" for more
      using False by simp
    have parse: "next_frame (nat len) (avail w @ more) =
        (if n < 0 \<or> int (nat len) < n then Malformed
         else if length (avail w @ more) < 8 + nat n then Incomplete
         else Frame t port (take (nat n) (drop 8 (avail w @ more))) (drop (8 + nat n) (avail w @ more)))" for more
      unfolding next_frame_def head u using False by simp
    have "runs (nextMsg_body P stack fd len n hdr t zero_sockaddr) w1 ?post"
    proof (cases "n < 0 \<or> len < n")
      case True
      then have "next_frame (nat len) (avail w @ []) = Malformed"
        unfolding parse using len(1) by auto
      then show ?thesis
        using True r1(2) by (intro runs_exI [where y = "[]"]) (auto simp: nextMsg_body_def runs_simps)
    next
      case ok: False
      have "avail w1 \<noteq> []"
        using r1(2) pending by simp
      then obtain w2 m2 where r2: "sys_recvfrom P fd (8 + nat n) True w1 = (Recv_Data (take (8 + nat n) (avail w1)) None, w2)"
        "avail w2 = avail w1 @ m2"
        using stream_recv [OF sock, of w1 "8 + nat n" True] by auto
      have room: "\<not> stack < 8 + nat n"
        using ok len by linarith
      have body: "runs (nextMsg_body P stack fd len n hdr t zero_sockaddr) w1 Q =
          runs (if length (take (8 + nat n) (avail w1)) < nat n + 8 then not_ready P t zero_sockaddr
                else nextMsg_extract P fd n hdr t zero_sockaddr) w2 Q" for Q
        using ok room r2 by (simp add: nextMsg_body_def runs_simps sender_def)
      show ?thesis
      proof (cases "length (avail w1) < 8 + nat n")
        case True
        then have "next_frame (nat len) (avail w @ m1) = Incomplete"
          unfolding parse using ok r1(2) len(1) by simp
        then show ?thesis
          unfolding body using True r1(2) r2(2) sleep [of w2]
          by (intro runs_exI [where y = m1]) (auto simp: runs_simps)
      next
        case whole: False
        then have "avail w2 \<noteq> []"
          using r2(2) by auto
        then obtain w3 m3 where r3: "sys_recvfrom P fd (8 + nat n) False w2 = (Recv_Data (take (8 + nat n) (avail w2)) None, w3)"
          "avail w3 = drop (8 + nat n) (avail w2) @ m3"
          using stream_recv [OF sock, of w2 "8 + nat n" False] by auto
        have frame: "next_frame (nat len) (avail w @ m1 @ m2) =
            Frame t port (take (nat n) (drop 8 (avail w2))) (drop (8 + nat n) (avail w2))"
          unfolding parse using ok whole r1(2) r2(2) len(1) by simp
        have taken: "take (nat n) (drop 8 (take (8 + nat n) (avail w2))) = take (nat n) (drop 8 (avail w2))"
          by (simp add: drop_take)
        have size: "8 + nat n \<le> length (avail w2)"
          using whole r2(2) by simp
        have "runs (nextMsg_extract P fd n hdr t zero_sockaddr) w2 ?post"
        proof (rule runs_extract [OF r3(1)])
          show "8 + nat n \<le> length (take (8 + nat n) (avail w2))"
            using size by simp
          fix from' :: sockaddr_in and w''
          assume "sin_port from' = htons (hdr_port hdr)" "w'' = w3 \<or> w'' = snd (px_getpeername P fd w3)"
          then show "?post (n + 8, t, take (nat n) (drop 8 (take (8 + nat n) (avail w2))), from') w''"
            unfolding taken using frame size ok r3(2) peer [of w3] hp
            by (intro exI [of _ "m1 @ m2"]) auto
        qed
        then show ?thesis
          unfolding body using whole by simp
      qed
    qed
    then show ?thesis
      using False len(1) r1(1) u
      by (simp add: SMessenger_nextMsg_def runs_simps Let_def sender_def)
  qed
qed

text \<open>The same on a datagram socket, where the first datagram is delivered whole or stays.\<close>

fun agrees_dgram ::
    "parse \<Rightarrow> (string \<times> sockaddr_in) list \<Rightarrow> int \<times> int \<times> string \<times> sockaddr_in \<Rightarrow> (string \<times> sockaddr_in) list \<Rightarrow> bool" where
  "agrees_dgram Incomplete q (res, tag, data, from) q' \<longleftrightarrow> res = 0 \<and> (\<exists>more. q' = q @ more)"
| "agrees_dgram Malformed q (res, tag, data, from) q' \<longleftrightarrow> res = -1 \<and> (\<exists>more. q' = q @ more)"
| "agrees_dgram (Frame t port body rest) q (res, tag, data, from) q' \<longleftrightarrow>
     res = int (8 + length body) \<and> tag = t \<and> data = body \<and> sin_port from = htons port \<and>
     (sin_addr (snd (hd q)) \<noteq> 0 \<longrightarrow> sin_addr from = sin_addr (snd (hd q))) \<and>
     (\<exists>more. q' = tl q @ more)"

lemma nextMsg_dgram_runs:
  assumes sock: "dgram_socket P fd queue" and pending: "queue w = (d, a) # ds" "d \<noteq> []"
    and len: "0 < len" "8 + nat len \<le> stack"
  shows "runs (SMessenger_nextMsg P stack fd len) w (\<lambda>r w'.
    agrees_dgram (next_frame (nat len) d) (queue w) r (queue w'))"
    (is "runs _ w ?post")
proof -
  obtain w1 m1 where r1: "sys_recvfrom P fd 8 True w = (Recv_Data (take 8 d) (Some a), w1)"
    "queue w1 = (d, a) # (ds @ m1)"
    using dgram_recv [OF sock pending(1), of 8 True] by auto
  have sleep: "\<exists>more. queue (px_usleep P 1 v) = queue v @ more" for v
    using sock by (simp add: dgram_socket_def)
  have peer: "\<exists>more. queue (snd (px_getpeername P fd v)) = queue v @ more" for v
    using sock by (simp add: dgram_socket_def)
  show ?thesis
  proof (cases "length d < 8")
    case True
    then have "next_frame (nat len) d = Incomplete"
      by (simp add: next_frame_def)
    then show ?thesis
      using True pending len(1) r1 sleep [of w1]
      by (auto simp: SMessenger_nextMsg_def runs_simps Let_def)
  next
    case False
    obtain n hdr t port where u: "unpackhdr (hdr_of_mem (take 8 d)) = (n, hdr, t, port)"
      by (cases "unpackhdr (hdr_of_mem (take 8 d))") auto
    have hp: "hdr_port hdr = port"
      using u by (auto simp: unpackhdr_def Let_def)
    have parse: "next_frame (nat len) d =
        (if n < 0 \<or> int (nat len) < n then Malformed
         else if length d < 8 + nat n then Incomplete
         else Frame t port (take (nat n) (drop 8 d)) (drop (8 + nat n) d))"
      unfolding next_frame_def u using False by simp
    have "runs (nextMsg_body P stack fd len n hdr t a) w1 ?post"
    proof (cases "n < 0 \<or> len < n")
      case True
      then show ?thesis
        using r1(2) pending(1) len(1) by (auto simp: parse nextMsg_body_def runs_simps)
    next
      case ok: False
      obtain w2 m2 where r2: "sys_recvfrom P fd (8 + nat n) True w1 = (Recv_Data (take (8 + nat n) d) (Some a), w2)"
        "queue w2 = (d, a) # (ds @ m1 @ m2)"
        using dgram_recv [OF sock r1(2), of "8 + nat n" True] by auto
      have room: "\<not> stack < 8 + nat n"
        using ok len by linarith
      have body: "runs (nextMsg_body P stack fd len n hdr t a) w1 Q =
          runs (if length (take (8 + nat n) d) < nat n + 8 then not_ready P t a
                else nextMsg_extract P fd n hdr t a) w2 Q" for Q
        using ok room r2 by (simp add: nextMsg_body_def runs_simps sender_def)
      show ?thesis
      proof (cases "length d < 8 + nat n")
        case True
        then show ?thesis
          unfolding body using ok r2(2) pending(1) len(1) sleep [of w2] by (auto simp: parse runs_simps)
      next
        case whole: False
        obtain w3 m3 where r3: "sys_recvfrom P fd (8 + nat n) False w2 = (Recv_Data (take (8 + nat n) d) (Some a), w3)"
          "queue w3 = (ds @ m1 @ m2) @ m3"
          using dgram_recv [OF sock r2(2), of "8 + nat n" False] by auto
        have taken: "take (nat n) (drop 8 (take (8 + nat n) d)) = take (nat n) (drop 8 d)"
          by (simp add: drop_take)
        have frame: "next_frame (nat len) d = Frame t port (take (nat n) (drop 8 d)) (drop (8 + nat n) d)"
          unfolding parse using ok whole len(1) by simp
        have "runs (nextMsg_extract P fd n hdr t a) w2 ?post"
        proof (rule runs_extract [OF r3(1)])
          show "8 + nat n \<le> length (take (8 + nat n) d)"
            using whole by simp
          fix from' :: sockaddr_in and w''
          assume "sin_port from' = htons (hdr_port hdr)" "w'' = w3 \<or> w'' = snd (px_getpeername P fd w3)"
            "sin_addr (sender a (Some a)) \<noteq> 0 \<longrightarrow> sin_addr from' = sin_addr (sender a (Some a))"
          then show "?post (n + 8, t, take (nat n) (drop 8 (take (8 + nat n) d)), from') w''"
            unfolding taken frame using whole ok r3(2) peer [of w3] hp pending(1)
            by (auto simp: sender_def)
        qed
        then show ?thesis
          unfolding body using whole by simp
      qed
    qed
    then show ?thesis
      using False len(1) r1(1) u
      by (simp add: SMessenger_nextMsg_def runs_simps Let_def sender_def)
  qed
qed

section \<open>Sending\<close>

lemma on_world_eq:
  "runs (on_world m) s P \<longleftrightarrow> runs m (ms_world s) (\<lambda>a w. P a (s\<lparr>ms_world := w\<rparr>))"
  "runs (on_spoll m') s P \<longleftrightarrow> runs m' (ms_spoll s) (\<lambda>a p. P a (s\<lparr>ms_spoll := p\<rparr>))"
  by (simp_all add: on_world_def on_spoll_def runs_zoom)

declare on_world_eq [runs_simps]

lemma safe_on [safe_simps]:
  "safe (on_world m) s P \<longleftrightarrow> safe m (ms_world s) (\<lambda>a w. P a (s\<lparr>ms_world := w\<rparr>))"
  "safe (on_spoll m') s P \<longleftrightarrow> safe m' (ms_spoll s) (\<lambda>a p. P a (s\<lparr>ms_spoll := p\<rparr>))"
  "safe (on_both m'') s P \<longleftrightarrow>
     safe m'' (ms_spoll s, ms_world s) (\<lambda>a (p, w). P a (s\<lparr>ms_spoll := p, ms_world := w\<rparr>))"
  by (simp_all add: on_world_def on_spoll_def on_both_def safe_zoom split_def)

lemma length_frame_int: "int 8 + int (length msg) = int (length (frame t p msg))"
  by simp

text \<open>
  Sending, multicast or to one peer. A body of more than a megabyte is refused before any
  system call; any other message is handed to the system as one block, header and body, and the
  result is 0 exactly when the system says it took all of it, else -1. A multicast message names
  the TCP server's port in its header, a message to a peer the local port of the connection.
\<close>

theorem SMessenger_send_result:
  "(2 ^ 20 < length msg \<longrightarrow>
      SMessenger_send P msgtag msg m = Inr (-1, m) \<and> SMessenger_sendTo P msgtag fd msg m = Inr (-1, m)) \<and>
   (length msg \<le> 2 ^ 20 \<longrightarrow>
      runs (SMessenger_send P msgtag msg) m (\<lambda>r m'.
        let (n, w) = px_sendto P (ms_mcsock m) (frame msgtag (ms_port m) msg)
              (snd (sockaddr_set (ms_mcip m) (uint (ms_mcport m)))) (ms_world m) in
          m' = m\<lparr>ms_world := w\<rparr> \<and> r = (if n = 8 + int (length msg) then 0 else -1)) \<and>
      runs (SMessenger_sendTo P msgtag fd msg) m (\<lambda>r m'.
        let ((e, addr), w) = px_getsockname P fd (ms_world m);
            port = (if e < 0 then -1 else word_of_int (sockaddr_getPort addr));
            (n, w') = px_send P fd (frame msgtag port msg) w in
          m' = m\<lparr>ms_world := w'\<rparr> \<and> r = (if n = 8 + int (length msg) then 0 else -1)))"
proof (intro conjI impI)
  assume "2 ^ 20 < length msg"
  then show "SMessenger_send P msgtag msg m = Inr (-1, m)" "SMessenger_sendTo P msgtag fd msg m = Inr (-1, m)"
    by (simp_all add: SMessenger_send_def SMessenger_sendTo_def Let_def ret_def)
qed (auto simp: SMessenger_send_def SMessenger_sendTo_def sudp_mcsend_def stcp_send_def stcp_getLocalPort_def
      Let_def runs_simps split: prod.splits)

theorem SMessenger_send_result_witness:
  "runs (SMessenger_send null_posix 7 ''hi'') \<lparr>ms_mcip = ''224.0.0.1'', ms_device = None, ms_mcport = 9,
        ms_port = 80, ms_servsock = 3, ms_mcsock = 5, ms_ip = 1, ms_sap = zero_sockaddr,
        ms_spoll = poller_of [] 10, ms_world = ()\<rparr> (\<lambda>r m'. r = 0)"
proof -
  let ?m = "\<lparr>ms_mcip = ''224.0.0.1'', ms_device = None, ms_mcport = 9, ms_port = 80, ms_servsock = 3,
      ms_mcsock = 5, ms_ip = 1, ms_sap = zero_sockaddr, ms_spoll = poller_of [] 10, ms_world = ()\<rparr>"
  show ?thesis
    by (rule runs_mono [OF SMessenger_send_result [THEN conjunct2, THEN mp, THEN conjunct1,
          of "''hi''" null_posix 7 ?m]]) (simp_all add: null_posix_def Let_def)
qed

section \<open>Sizes\<close>

text \<open>
  Whatever the system answers, a result of \<open>nextMsg\<close> is -1, 0, or the length of a frame whose
  body fits the buffer, and then the body has exactly the length announced.
\<close>

theorem SMessenger_nextMsg_bounds:
  "safe (SMessenger_nextMsg P stack fd len) w (\<lambda>(res, tag, data, from) w'.
     res = -1 \<and> data = [] \<or> res = 0 \<and> data = [] \<or>
     8 \<le> res \<and> res \<le> len + 8 \<and> int (length data) = res - 8 \<and> sin_family from = AF_INET)"
proof -
  have taken: "safe (nextMsg_extract P fd n hdr tag fr) v (\<lambda>(res, tag, data, from) w'.
     res = -1 \<and> data = [] \<or> res = 0 \<and> data = [] \<or>
     8 \<le> res \<and> res \<le> len + 8 \<and> int (length data) = res - 8 \<and> sin_family from = AF_INET)"
    if "0 \<le> n" "n \<le> len" for n hdr tag fr v
    using that
    by (auto simp: nextMsg_extract_def safe_simps Let_def stcp_getIP_def split: prod.splits recv_result.splits)
  have body: "safe (nextMsg_body P stack fd len n hdr tag fr) v (\<lambda>(res, tag, data, from) w'.
     res = -1 \<and> data = [] \<or> res = 0 \<and> data = [] \<or>
     8 \<le> res \<and> res \<le> len + 8 \<and> int (length data) = res - 8 \<and> sin_family from = AF_INET)"
    for n hdr tag fr v
    using taken
    by (auto simp: nextMsg_body_def not_ready_def safe_simps split: prod.splits recv_result.splits)
  show ?thesis
    using body
    by (auto simp: SMessenger_nextMsg_def not_ready_def safe_simps Let_def split: prod.splits recv_result.splits)
qed

section \<open>Cutting the stream\<close>

lemma stream_posix_ok: "stream_socket stream_posix fd (\<lambda>w. w)"
  by (auto simp: stream_socket_def stream_posix_def null_posix_def)

lemma loop_posix_ok: "dgram_socket loop_posix fd (\<lambda>w. w)"
  by (auto simp: dgram_socket_def loop_posix_def null_posix_def)

text \<open>
  C34: \<open>nextMsg\<close> on a connected TCP socket with bytes to read does what \<open>next_frame\<close> says of the
  bytes that are there. A frame that is whole is delivered and taken off the stream, and only
  it; while header or body is incomplete the result is 0 and nothing is taken off; a header
  with a negative length or one above the buffer is an error and nothing is taken off. Bytes
  may arrive at any moment between the three reads.
\<close>

theorem SMessenger_nextMsg_stream:
  assumes "stream_socket P fd avail" "avail w \<noteq> []" "0 < len" "8 + nat len \<le> stack"
  shows "runs (SMessenger_nextMsg P stack fd len) w (\<lambda>r w'.
    \<exists>more. agrees (next_frame (nat len) (avail w @ more)) (avail w) r (avail w'))"
  using assms by (rule nextMsg_stream_runs)

theorem SMessenger_nextMsg_stream_witness:
  "runs (SMessenger_nextMsg stream_posix 100 6 64) (frame 7 1 ''ab'' @ ''rest'') (\<lambda>r w'.
    \<exists>more. agrees (next_frame (nat 64) ((frame 7 1 ''ab'' @ ''rest'') @ more)) (frame 7 1 ''ab'' @ ''rest'') r w')"
  by (rule SMessenger_nextMsg_stream [OF stream_posix_ok]) simp_all

text \<open>
  A multicast message arrives as it was sent. A datagram made by \<open>send\<close> that reaches a
  socket is taken out by the next call of \<open>nextMsg\<close> on it, which gives the tag (as a 16 bit
  number), the body, the address of the sender and, in place of the port the datagram came
  from, the port of the sender's TCP server. The next datagram is then first.
\<close>

theorem multicast_delivered:
  assumes "dgram_socket P fd queue" "queue w = (frame msgtag port msg, a) # ds" "sin_addr a \<noteq> 0"
    and "length msg \<le> 2 ^ 20" "2 ^ 20 + 8 \<le> stack"
  shows "runs (SMessenger_nextMsg P stack fd MAX_DATALEN) w (\<lambda>(res, tag, data, from) w'.
    res = 8 + int (length msg) \<and> tag = to_short msgtag \<and> data = msg \<and>
    sockaddr_getPort from = uint port \<and> sockaddr_getIP from = sockaddr_getIP a \<and>
    (\<exists>more. queue w' = ds @ more))"
proof -
  have frame: "next_frame (nat MAX_DATALEN) (frame msgtag port msg) = Frame (to_short msgtag) port msg []"
    using next_frame_frame [of msg "nat MAX_DATALEN" msgtag port "[]"] assms(4) by simp
  have "frame msgtag port msg \<noteq> []"
    using length_frame [of msgtag port msg] by force
  from nextMsg_dgram_runs [OF assms(1,2) this, of MAX_DATALEN stack] show ?thesis
    unfolding frame
    by (rule runs_mono)
      (use assms(2,3,5) in \<open>auto simp: sockaddr_getPort_def sockaddr_getIP_def\<close>)
qed

theorem multicast_delivered_witness:
  "runs (SMessenger_nextMsg loop_posix 2000000 5 MAX_DATALEN)
     [(frame 300 80 ''hello'', \<lparr>sin_family = 2, sin_port = 1, sin_addr = 7\<rparr>)] (\<lambda>(res, tag, data, from) w'.
    res = 8 + int (length ''hello'') \<and> tag = to_short 300 \<and> data = ''hello'' \<and>
    sockaddr_getPort from = uint (80 :: 16 word) \<and>
    sockaddr_getIP from = sockaddr_getIP \<lparr>sin_family = 2, sin_port = 1, sin_addr = 7\<rparr> \<and>
    (\<exists>more. w' = [] @ more))"
  by (rule multicast_delivered [OF loop_posix_ok]) simp_all

text \<open>
  A datagram that holds less than it announces blocks the multicast socket for ever. It is
  only peeked at: any number of further calls gives 0 and leaves it first in the queue, so no
  datagram that came after it is ever received.
\<close>

theorem short_datagram_blocks:
  assumes "dgram_socket P fd queue" "queue w = (d, a) # ds" "d \<noteq> []"
    and "next_frame (nat len) d = Incomplete" "0 < len" "8 + nat len \<le> stack"
  shows "runs (times_prog k (SMessenger_nextMsg P stack fd len)) w (\<lambda>rs w'.
    (\<forall>(res, tag, data, from) \<in> set rs. res = 0) \<and> (\<exists>more. queue w' = (d, a) # ds @ more))"
proof (rule runs_mono [OF runs_times])
  fix v
  assume "\<exists>more. queue v = (d, a) # ds @ more"
  then obtain more where v: "queue v = (d, a) # (ds @ more)"
    by auto
  show "runs (SMessenger_nextMsg P stack fd len) v (\<lambda>r w'.
      (case r of (res, tag, data, from) \<Rightarrow> res = 0) \<and> (\<exists>more. queue w' = (d, a) # ds @ more))"
    by (rule runs_mono [OF nextMsg_dgram_runs [OF assms(1) v assms(3,5,6)]]) (auto simp: assms(4) v)
next
  show "\<exists>more. queue w = (d, a) # ds @ more"
    using assms(2) by auto
qed auto

theorem short_datagram_blocks_witness:
  "runs (times_prog 1000 (SMessenger_nextMsg loop_posix 2000000 5 64))
     [(''short'', zero_sockaddr), (frame 300 80 ''hello'', zero_sockaddr)] (\<lambda>rs w'.
    (\<forall>(res, tag, data, from) \<in> set rs. res = 0) \<and>
    (\<exists>more. w' = (''short'', zero_sockaddr) # [(frame 300 80 ''hello'', zero_sockaddr)] @ more))"
  by (rule short_datagram_blocks [OF loop_posix_ok]) (simp_all add: next_frame_def)

end
