(* ===== verification/Messenger_Recv.thy ===== *)
theory Messenger_Recv
  imports Messenger_Laws
begin

text \<open>
  The loop of \<open>recv\<close> and the registry of descriptors: the registry stays well formed, the loop
  ends, and what a blocked multicast socket does to it.
\<close>

section \<open>The registry\<close>

lemma safe_True [simp]: "safe m s (\<lambda>_ _. True)"
  by (simp add: safe_def split: sum.split)

lemma safe_SPoll_add:
  assumes "poller_inv p" "ev \<noteq> 0"
  shows "safe (SPoll_add (\<lambda>_. True) fd ev) p
    (\<lambda>r p'. r = 0 \<and> poller_inv p' \<and> poller_entries p' = poller_entries p @ [(fd, ev)])"
proof (cases "0 < fd")
  case True
  show ?thesis
    by (rule runs_safe [OF runs_mono [OF spoll_cpp.add_law [OF assms(1) True assms(2)]]]) simp
next
  case False
  then show ?thesis
    by (simp add: SPoll_add_def safe_simps)
qed

lemma safe_SPoll_remove:
  assumes "poller_inv p"
  shows "safe (SPoll_remove fd) p
    (\<lambda>r p'. poller_inv p' \<and> poller_entries p' = drop_first fd (poller_entries p))"
proof (cases "0 < fd")
  case True
  show ?thesis
  proof (cases "removable (length (poller_entries p) = poller_cells p) fd (poller_entries p)")
    case rem: True
    show ?thesis
      by (rule runs_safe [OF runs_mono [OF spoll_cpp.remove_law [OF assms True rem]]]) simp
  next
    case False
    then show ?thesis
      using spoll_cpp.remove_overrun [OF assms True] by (simp add: safe_def)
  qed
next
  case False
  then show ?thesis
    by (simp add: SPoll_remove_def safe_simps)
qed

lemma good_entry_revents [simp]: "good_entry (e\<lparr>pf_revents := r\<rparr>) = good_entry e"
  by (simp add: good_entry_def)

lemma good_set_revents:
  "\<forall>e \<in> set es. good_entry e \<Longrightarrow> \<forall>e \<in> set (set_revents es rs). good_entry e"
  by (induction es rs rule: set_revents.induct) simp_all

text \<open>What \<open>doPoll\<close> leaves: the same descriptors and events, in the same order.\<close>

lemma SPoll_doPoll_of:
  assumes "0 \<le> timeout" "sys_poll P es timeout w = ((n, ys), w')"
  shows "SPoll_doPoll P timeout (poller_of es k, w) =
    Inr (if n < 0 then (if px_errno P w' = EINTR then 0 else -1) else n, (poller_of ys k, w'))"
proof -
  have "length ys = length es"
    using assms(2) by (auto simp: sys_poll_def split: prod.splits if_splits)
  then show ?thesis
    using assms by (simp add: SPoll_doPoll_def bindp_def prog_simps poller_of_def Let_def)
qed

lemma sys_poll_entries:
  assumes "sys_poll P es timeout w = ((n, ys), w')"
  shows "map pf_fd ys = map pf_fd es" "map pf_events ys = map pf_events es"
    and "\<forall>e \<in> set es. good_entry e \<Longrightarrow> \<forall>e \<in> set ys. good_entry e"
  using assms good_set_revents by (auto simp: sys_poll_def split: prod.splits if_splits)

lemma zip_fields: "map (\<lambda>e. (pf_fd e, pf_events e)) es = zip (map pf_fd es) (map pf_events es)"
  by (induction es) auto

lemma safe_doPoll:
  assumes "poller_inv p"
  shows "safe (SPoll_doPoll P timeout) (p, w)
    (\<lambda>n (p', w'). poller_inv p' \<and> poller_entries p' = poller_entries p)"
proof (cases "0 \<le> timeout")
  case True
  from assms obtain es k where p: "p = poller_of es k" "\<forall>e \<in> set es. good_entry e"
    "10 \<le> length es + k" "(length es + k) mod 5 = 0"
    by (rule poller_invE)
  obtain n ys w' where s: "sys_poll P es timeout w = ((n, ys), w')"
    by (cases "sys_poll P es timeout w") auto
  note e = sys_poll_entries [OF s]
  have "length ys = length es"
    using arg_cong [OF e(1), of length] by simp
  then have "poller_inv (poller_of ys k)"
    using p(3,4) e(3) [OF p(2)] by (intro poller_invI) auto
  then show ?thesis
    using e(1,2) by (simp add: safe_def p(1) SPoll_doPoll_of [OF True s] zip_fields)
next
  case False
  then show ?thesis
    by (auto simp: SPoll_doPoll_def safe_def bindp_def assertp_def split: if_splits)
qed

text \<open>A program over the system alone keeps everything else of the messenger.\<close>

lemma safe_on_world: "(\<And>a w. P a (s\<lparr>ms_world := w\<rparr>)) \<Longrightarrow> safe (on_world m) s P"
  by (simp add: safe_on safe_mono [of m _ "\<lambda>_ _. True"])

definition registry_ok :: "'w posix \<Rightarrow> 'w messenger \<Rightarrow> bool" where
  "registry_ok P m \<longleftrightarrow> px_realloc P = (\<lambda>_. True) \<and> poller_inv (ms_spoll m)"

definition watched :: "'w messenger \<Rightarrow> (int \<times> 16 word) list" where
  "watched m = poller_entries (ms_spoll m)"

lemma registry_ok_world [simp]: "registry_ok P (m\<lparr>ms_world := w\<rparr>) = registry_ok P m"
  "watched (m\<lparr>ms_world := w\<rparr>) = watched m"
  "registry_ok P (m\<lparr>ms_mcsock := fd\<rparr>) = registry_ok P m" "watched (m\<lparr>ms_mcsock := fd\<rparr>) = watched m"
  "registry_ok P (m\<lparr>ms_servsock := fd\<rparr>) = registry_ok P m" "watched (m\<lparr>ms_servsock := fd\<rparr>) = watched m"
  by (simp_all add: registry_ok_def watched_def)

lemma safe_watch:
  assumes "registry_ok P m" "ev \<noteq> 0"
    and "\<And>r m'. registry_ok P m' \<Longrightarrow> watched m' = watched m @ [(fd, ev)] \<Longrightarrow>
      m' = m\<lparr>ms_spoll := ms_spoll m'\<rparr> \<Longrightarrow> Q 0 m'"
  shows "safe (on_spoll (SPoll_add (px_realloc P) fd ev)) m Q"
proof -
  have "px_realloc P = (\<lambda>_. True)" "poller_inv (ms_spoll m)"
    using assms(1) by (auto simp: registry_ok_def)
  then show ?thesis
    unfolding safe_on
    by (auto intro!: safe_mono [OF safe_SPoll_add] assms simp: registry_ok_def watched_def)
qed

lemma safe_unwatch:
  assumes "registry_ok P m"
    and "\<And>r m'. registry_ok P m' \<Longrightarrow> watched m' = drop_first fd (watched m) \<Longrightarrow>
      m' = m\<lparr>ms_spoll := ms_spoll m'\<rparr> \<Longrightarrow> Q r m'"
  shows "safe (on_spoll (SPoll_remove fd)) m Q"
proof -
  have "poller_inv (ms_spoll m)"
    using assms(1) by (auto simp: registry_ok_def)
  then show ?thesis
    unfolding safe_on
    by (auto intro!: safe_mono [OF safe_SPoll_remove] assms(2) simp: registry_ok_def watched_def
        assms(1) [unfolded registry_ok_def])
qed

lemma safe_initMCast:
  assumes "registry_ok P m"
    and "\<And>m'. registry_ok P m' \<Longrightarrow> ms_mcsock m' < 0 \<Longrightarrow> watched m' = watched m \<Longrightarrow> Q (-1) m'"
    and "\<And>r m'. registry_ok P m' \<Longrightarrow> 0 \<le> ms_mcsock m' \<Longrightarrow>
      watched m' = watched m @ [(ms_mcsock m', POLL_FLAGS)] \<Longrightarrow> Q r m'"
  shows "safe (SMessenger_initMCast P) m Q"
  unfolding SMessenger_initMCast_def safe_bindp safe_basic prod.case
proof (rule safe_on_world)
  fix fd w
  let ?m = "m\<lparr>ms_world := w, ms_mcsock := fd\<rparr>"
  have ok: "registry_ok P ?m"
    using assms(1) by simp
  show "safe (if fd < 0 then ret (- 1) else ret_on_error (on_spoll (SPoll_add (px_realloc P) fd POLL_FLAGS))
      (\<lambda>_. bindp (on_world (stcp_setNonBlocking P fd)) (\<lambda>_. ret 0))) ?m Q"
  proof (cases "fd < 0")
    case True
    then show ?thesis
      using assms(2) [of ?m] ok by (simp add: safe_basic)
  next
    case False
    then have "safe (ret_on_error (on_spoll (SPoll_add (px_realloc P) fd POLL_FLAGS))
      (\<lambda>_. bindp (on_world (stcp_setNonBlocking P fd)) (\<lambda>_. ret 0))) ?m Q"
      unfolding safe_ret_on_error
      by (intro safe_watch [OF ok])
        (auto simp: safe_bindp safe_basic intro!: safe_on_world assms(3) dest: arg_cong [of _ _ ms_mcsock])
    with False show ?thesis
      by simp
  qed
qed

text \<open>
  After an error on a socket, a connection leaves the registry, and the multicast socket is
  closed and opened again; but the old multicast descriptor stays registered: the new one is
  added behind it, and if it could not be opened nothing is registered in its place.
\<close>

theorem socketErrorHandling_result:
  assumes "registry_ok P m"
  shows "safe (SMessenger_socketErrorHandling P fd) m (\<lambda>r m'. r = 0 \<and> registry_ok P m' \<and>
    watched m' =
      (if fd \<noteq> ms_mcsock m then drop_first fd (watched m)
       else if ms_mcsock m' < 0 then watched m else watched m @ [(ms_mcsock m', POLL_FLAGS)]))"
proof (cases "fd = ms_mcsock m")
  case True
  then show ?thesis
    unfolding SMessenger_socketErrorHandling_def safe_bindp safe_basic if_P [OF True]
    by (intro safe_on_world safe_initMCast) (simp_all add: assms)
next
  case False
  show ?thesis
    unfolding SMessenger_socketErrorHandling_def safe_bindp safe_basic if_not_P [OF False]
    by (rule safe_unwatch [OF assms], rule safe_on_world) (simp add: False)
qed

definition sample_messenger :: "'w \<Rightarrow> 'w messenger" where
  "sample_messenger w =
     \<lparr>ms_mcip = ''224.0.0.1'', ms_device = None, ms_mcport = 9, ms_port = 80, ms_servsock = 3,
      ms_mcsock = 5, ms_ip = 1, ms_sap = zero_sockaddr,
      ms_spoll = poller_of [\<lparr>pf_fd = 5, pf_events = POLL_FLAGS, pf_revents = 0\<rparr>] 9, ms_world = w\<rparr>"

lemma sample_messenger_ok:
  "registry_ok null_posix (sample_messenger w)" "registry_ok loop_posix (sample_messenger v)"
  by (auto simp: registry_ok_def sample_messenger_def null_posix_def loop_posix_def good_entry_def
      intro!: poller_invI)

theorem socketErrorHandling_result_witness:
  "safe (SMessenger_socketErrorHandling null_posix 5) (sample_messenger ()) (\<lambda>r m'. r = 0 \<and>
    registry_ok null_posix m' \<and>
    watched m' =
      (if 5 \<noteq> ms_mcsock (sample_messenger ()) then drop_first 5 (watched (sample_messenger ()))
       else if ms_mcsock m' < 0 then watched (sample_messenger ())
       else watched (sample_messenger ()) @ [(ms_mcsock m', POLL_FLAGS)]))"
  by (rule socketErrorHandling_result) (rule sample_messenger_ok)

section \<open>The invariant of the messenger\<close>

lemma safe_disconnected:
  assumes "registry_ok P m" "\<And>m' x. registry_ok P m' \<Longrightarrow> Q (Inl x) m'"
  shows "safe (disconnected P fd) m Q"
  unfolding disconnected_def safe_bindp safe_basic
proof (rule safe_mono)
  show "safe (SMessenger_socketErrorHandling P fd) m (\<lambda>_ m'. registry_ok P m')"
    unfolding SMessenger_socketErrorHandling_def safe_bindp safe_basic
    by (auto intro!: safe_on_world safe_initMCast safe_unwatch assms(1) simp: safe_bindp safe_basic assms(1))
qed (use assms(2) in auto)

lemma flagged_cases: "has_problem r \<Longrightarrow> r \<noteq> 0" "has_flag r f \<Longrightarrow> r \<noteq> 0"
  by (auto simp: has_problem_def has_flag_def)

text \<open>An entry that makes a pass of \<open>recv\<close> do something.\<close>

definition flagged :: "pollfd \<Rightarrow> bool" where
  "flagged e \<longleftrightarrow> pf_fd e \<noteq> 0 \<and> (has_problem (pf_revents e) \<or> has_flag (pf_revents e) POLLIN)"

text \<open>
  A pass that does not end \<open>recv\<close> leaves the registry alone and has taken a megabyte of stack for
  every entry with something to read.
\<close>

lemma recv_pass_safe:
  assumes "registry_ok P m"
  shows "safe (recv_pass P fds n i stack) m (\<lambda>r m'. registry_ok P m' \<and>
    (case r of Inl _ \<Rightarrow> True
     | Inr left \<Rightarrow> m' = m\<lparr>ms_world := ms_world m'\<rparr> \<and> left \<le> stack \<and>
         ((\<exists>j. i \<le> j \<and> j < i + int n \<and> (\<exists>e. arr_get fds j = Inr e \<and> flagged e)) \<longrightarrow> left + 2 ^ 20 \<le> stack)))"
    (is "safe _ _ (?Q i n stack m)")
  using assms
proof (induction n arbitrary: i stack m)
  case 0
  then show ?case
    by (simp add: safe_basic)
next
  case (Suc n)
  show ?case
  proof (cases "arr_get fds i")
    case (Inl f)
    then show ?thesis
      by (simp add: safe_def bindp_def liftp_def)
  next
    case (Inr e)
    note entry = Inr
    have mono: "?Q i (Suc n) stack m r m''"
      if "?Q (i + 1) n stack' m' r m''" "m' = m\<lparr>ms_world := w\<rparr>" "stack' \<le> stack"
        "flagged e \<Longrightarrow> stack' + 2 ^ 20 \<le> stack" for r stack' m' m'' w
    proof (cases r)
      case (Inr left)
      have "left + 2 ^ 20 \<le> stack"
        if j: "i \<le> j" "j < i + int (Suc n)" "arr_get fds j = Inr e'" "flagged e'" for j e'
      proof (cases "j = i")
        case True
        then have "flagged e"
          using j entry by simp
        then show ?thesis
          using \<open>flagged e \<Longrightarrow> stack' + 2 ^ 20 \<le> stack\<close> that(1-4) \<open>?Q (i + 1) n stack' m' r m''\<close> Inr by simp
      next
        case False
        then have "i + 1 \<le> j" "j < (i + 1) + int n"
          using j(1,2) by simp_all
        then have "left + 2 ^ 20 \<le> stack'"
          using \<open>?Q (i + 1) n stack' m' r m''\<close> j unfolding Inr by auto
        then show ?thesis
          using \<open>stack' \<le> stack\<close> by linarith
      qed
      then show ?thesis
        using that(1-3) unfolding Inr by auto
    qed (use that in simp)
    have skip: "safe (recv_pass P fds n (i + 1) stack) m (?Q i (Suc n) stack m)" if "\<not> flagged e"
      by (rule safe_mono [OF Suc.IH [OF Suc.prems]], erule mono [where w = "ms_world m"]) (use that in simp_all)
    have next_entry: "safe (recv_pass P fds n (i + 1) (stack - 1048576)) (m\<lparr>ms_world := w\<rparr>) (?Q i (Suc n) stack m)"
      if "2 ^ 20 \<le> stack" for w
      using Suc.prems that
      by (intro safe_mono [OF Suc.IH [of "m\<lparr>ms_world := w\<rparr>" "i + 1" "stack - 1048576"]], simp)
        (erule mono [where w = w], simp_all)
    have gone: "safe (disconnected P (pf_fd e)) (m\<lparr>ms_world := w\<rparr>) (?Q i (Suc n) stack m)" for w
      using Suc.prems by (intro safe_disconnected) simp_all
    have read: "safe (bindp (on_world (SMessenger_nextMsg P (stack - 1048576) (pf_fd e) MAX_DATALEN)) (\<lambda>(res, tag, data, from).
         if res < 0 then disconnected P (pf_fd e)
         else if res > 0 then
           (if pf_fd e > 0 then ret (Inl (Some (SMsg_new tag (sockaddr_getIP from) (word_of_int (sockaddr_getPort from)) (pf_fd e) data)))
            else recv_pass P fds n (i + 1) (stack - 1048576))
         else recv_pass P fds n (i + 1) (stack - 1048576))) m (?Q i (Suc n) stack m)" if "2 ^ 20 \<le> stack"
      unfolding safe_bindp
      using gone next_entry that Suc.prems
      by (intro safe_on_world) (auto simp: safe_basic split: prod.split)
    have self: "m\<lparr>ms_world := ms_world m\<rparr> = m"
      by simp
    show ?thesis
    proof (cases "flagged e")
      case False
      then have "\<not> (pf_fd e \<noteq> 0 \<and> pf_revents e \<noteq> 0 \<and> (has_problem (pf_revents e) \<or> has_flag (pf_revents e) POLLIN))"
        by (auto simp: flagged_def)
      then show ?thesis
        using skip [OF False] Inr by (auto simp: safe_bindp safe_liftp)
    next
      case True
      then have "pf_fd e \<noteq> 0 \<and> pf_revents e \<noteq> 0"
        by (auto simp: flagged_def dest: flagged_cases)
      then show ?thesis
        using True Inr gone [of "ms_world m"] read
        by (auto simp: safe_bindp [of "liftp _"] safe_liftp flagged_def Let_def safe_basic)
    qed
  qed
qed

text \<open>
  Documented behaviour of \<open>poll\<close>: a positive result means that some descriptor has an event, and
  the events are among those asked for and the three reported without being asked for.
\<close>

definition honest_poll :: "'w posix \<Rightarrow> bool" where
  "honest_poll P \<longleftrightarrow>
     (\<forall>ps timeout w n rs w'. px_poll P ps timeout w = ((n, rs), w') \<and> 0 < n \<longrightarrow>
        (\<exists>i. i < length ps \<and> i < length rs \<and> (has_problem (rs ! i) \<or> has_flag (rs ! i) POLLIN)))"

lemma set_revents_nth:
  "i < length es \<Longrightarrow> i < length rs \<Longrightarrow> pf_revents (set_revents es rs ! i) = rs ! i"
proof (induction es rs arbitrary: i rule: set_revents.induct)
  case (3 p ps r rs)
  then show ?case
    by (cases i) simp_all
qed simp_all

text \<open>The start of a round of the loop: what the poll reported is in the array.\<close>

lemma poll_round:
  assumes "registry_ok P m"
  shows "safe (on_both (SPoll_doPoll P timeout)) m (\<lambda>n m'. registry_ok P m' \<and> ms_mcsock m' = ms_mcsock m \<and>
    (\<exists>es k. ms_spoll m' = poller_of es k \<and>
       (honest_poll P \<and> 0 < n \<longrightarrow> (\<exists>e \<in> set es. flagged e))))"
proof (cases "0 \<le> timeout")
  case True
  from assms obtain es k where p: "ms_spoll m = poller_of es k" "\<forall>e \<in> set es. good_entry e"
    "10 \<le> length es + k" "(length es + k) mod 5 = 0"
    by (auto simp: registry_ok_def elim: poller_invE)
  obtain n ys w' where s: "sys_poll P es timeout (ms_world m) = ((n, ys), w')"
    by (cases "sys_poll P es timeout (ms_world m)") auto
  note e = sys_poll_entries [OF s]
  have len: "length ys = length es"
    using arg_cong [OF e(1), of length] by simp
  have "poller_inv (poller_of ys k)"
    using p(3,4) len e(3) [OF p(2)] by (intro poller_invI) auto
  moreover have "\<exists>e \<in> set ys. flagged e" if h: "honest_poll P" "0 < n"
  proof -
    obtain rs where rs: "px_poll P (map (\<lambda>p. (pf_fd p, pf_events p)) es) timeout (ms_world m) = ((n, rs), w')"
      "ys = set_revents es rs"
      using s h(2) by (auto simp: sys_poll_def split: prod.splits)
    then obtain i where i: "i < length es" "i < length rs" "has_problem (rs ! i) \<or> has_flag (rs ! i) POLLIN"
      using h unfolding honest_poll_def by fastforce
    then have "pf_revents (ys ! i) = rs ! i" "ys ! i \<in> set ys"
      using rs(2) len by (simp_all add: set_revents_nth)
    moreover have "pf_fd (ys ! i) \<noteq> 0"
      using bspec [OF e(3) [OF p(2)], of "ys ! i"] i(1) len by (simp add: good_entry_def)
    ultimately show ?thesis
      using i(3) by (auto simp: flagged_def)
  qed
  moreover have "on_both (SPoll_doPoll P timeout) m =
      Inr (if n < 0 then (if px_errno P w' = EINTR then 0 else -1) else n,
        m\<lparr>ms_spoll := poller_of ys k, ms_world := w'\<rparr>)"
    by (simp add: on_both_def zoom_def p(1) SPoll_doPoll_of [OF True s])
  ultimately show ?thesis
    using assms by (auto simp: safe_def registry_ok_def intro!: exI [of _ ys])
next
  case False
  have "SPoll_doPoll P timeout (p, w) = Inl Exit_Failure" for p w
    using False by (auto simp: SPoll_doPoll_def bindp_def assertp_def)
  then have "on_both (SPoll_doPoll P timeout) m = Inl Exit_Failure"
    by (simp add: on_both_def zoom_def)
  then show ?thesis
    by (simp add: safe_def)
qed

section \<open>Ending\<close>

text \<open>A program that never gives up for want of fuel.\<close>

definition fueled :: "('s, 'a) prog \<Rightarrow> bool" where
  "fueled m \<longleftrightarrow> (\<forall>s. m s \<noteq> Inl No_Fuel)"

named_theorems fueled_rules \<open>programs that need no fuel\<close>

lemma fueled_basic [fueled_rules]:
  "fueled (ret a)" "fueled (getp g)" "fueled (modp h)" "fueled (callp k)" "fueled (assertp c)"
  "e \<noteq> No_Fuel \<Longrightarrow> fueled (faultp e)" "x \<noteq> Inl No_Fuel \<Longrightarrow> fueled (liftp x)"
  by (auto simp: fueled_def prog_defs liftp_def split: sum.splits if_splits)

lemma fueled_bindp [fueled_rules]: "fueled m \<Longrightarrow> (\<And>a. fueled (f a)) \<Longrightarrow> fueled (bindp m f)"
  by (auto simp: fueled_def bindp_def split: sum.splits)

lemma fueled_more [fueled_rules]:
  "(c \<Longrightarrow> fueled m) \<Longrightarrow> (\<not> c \<Longrightarrow> fueled m') \<Longrightarrow> fueled (if c then m else m')"
  "(\<And>a b. fueled (f a b)) \<Longrightarrow> fueled (case x of (a, b) \<Rightarrow> f a b)"
  "fueled m0 \<Longrightarrow> (\<And>a. fueled (g a)) \<Longrightarrow> fueled (case y of None \<Rightarrow> m0 | Some a \<Rightarrow> g a)"
  "(\<And>e. fueled (h1 e)) \<Longrightarrow> (\<And>bs a. fueled (h2 bs a)) \<Longrightarrow>
     fueled (case r of Recv_Error e \<Rightarrow> h1 e | Recv_Data bs a \<Rightarrow> h2 bs a)"
  by (simp_all split: prod.split option.split recv_result.split)

lemma fueled_Let [fueled_rules]: "(\<And>x. fueled (f x)) \<Longrightarrow> fueled (Let v f)"
  by simp

lemma fueled_ret_on_error [fueled_rules]: "fueled m \<Longrightarrow> (\<And>r. fueled (f r)) \<Longrightarrow> fueled (ret_on_error m f)"
  unfolding ret_on_error_def by (intro fueled_rules)

lemma fueled_on [fueled_rules]:
  "fueled m1 \<Longrightarrow> fueled (on_world m1)" "fueled m2 \<Longrightarrow> fueled (on_spoll m2)"
  "fueled m3 \<Longrightarrow> fueled (on_both m3)"
  by (auto simp: fueled_def on_world_def on_spoll_def on_both_def zoom_def split: sum.splits)

lemma fueled_with_fds [fueled_rules]: "(\<And>xs. fueled (k xs)) \<Longrightarrow> fueled (with_fds k)"
  by (auto simp: fueled_def with_fds_def split: option.split)

lemma array_faults:
  "arr_get xs i \<noteq> Inl No_Fuel" "arr_set xs i x \<noteq> Inl No_Fuel" "arr_move xs d s n \<noteq> Inl No_Fuel"
  by (simp_all add: arr_get_def arr_set_def arr_move_def)

lemma scan_faults: "scan_fds xs c i n \<noteq> Inl No_Fuel"
  by (induction xs c i n rule: scan_fds.induct)
    (subst scan_fds.simps, auto simp: arr_get_def split: sum.splits if_splits)

lemma fueled_poller [fueled_rules]:
  "fueled (SPoll_add ra fd ev)" "fueled (SPoll_remove fd)" "fueled SPoll_getpolls" "fueled (SPoll_doPoll P timeout)"
proof -
  have asserts: "fueled assert_sizes" "fueled assert_fds"
    unfolding assert_fds_def assert_sizes_def by (intro fueled_rules)+
  have removeit: "fueled (SPoll_removeit i)" for i
    unfolding SPoll_removeit_def by (intro fueled_rules asserts) (simp_all add: array_faults)
  have grow: "fueled (SPoll_grow ra)"
    unfolding SPoll_grow_def by (intro fueled_rules asserts)
  show "fueled (SPoll_add ra fd ev)"
    unfolding SPoll_add_def by (intro fueled_rules asserts grow) (simp_all add: scan_faults)
  show "fueled (SPoll_remove fd)"
    unfolding SPoll_remove_def by (intro fueled_rules asserts removeit) (simp_all add: scan_faults)
  show "fueled SPoll_getpolls"
    unfolding SPoll_getpolls_def by (intro fueled_rules asserts)
  show "fueled (SPoll_doPoll P timeout)"
    by (auto simp: fueled_def SPoll_doPoll_def bindp_def assertp_def Let_def split: sum.splits option.splits prod.splits if_splits)
qed

lemma fueled_sockets [fueled_rules]:
  "fueled (stcp_server P ip port)" "fueled (stcp_setNonBlocking P fd)" "fueled (stcp_getLocalIP P fd)"
  "fueled (stcp_getLocalPort P fd)" "fueled (stcp_getIP P fd)" "fueled (sudp_mcast P device mcip mcport)"
  "fueled (timing_current_millis P)"
  unfolding stcp_server_def stcp_setNonBlocking_def stcp_getLocalIP_def stcp_getLocalPort_def stcp_getIP_def
    sudp_mcast_def sockaddr_device2ip_def device_request_def strcpy_ifname_def timing_current_millis_def
  by (intro fueled_rules; simp)+

lemma fueled_messenger [fueled_rules]:
  "fueled (SMessenger_nextMsg P stack fd len)" "fueled (SMessenger_initMCast P)" "fueled (SMessenger_initServer P)"
  "fueled (disconnected P fd)" "fueled (SMessenger_listenConn P)"
  unfolding SMessenger_nextMsg_def nextMsg_body_def nextMsg_extract_def not_ready_def SMessenger_initMCast_def
    SMessenger_initServer_def disconnected_def SMessenger_socketErrorHandling_def SMessenger_listenConn_def
    SMessenger_acceptConn_def
  by (intro fueled_rules; simp)+

lemma fueled_pass [fueled_rules]: "fueled (recv_pass P fds n i stack)"
proof (induction n arbitrary: i stack)
  case (Suc n)
  show ?case
    unfolding recv_pass.simps by (intro fueled_rules Suc) (simp_all add: array_faults)
qed (simp add: fueled_basic)

lemma fueledD: "fueled m \<Longrightarrow> m s \<noteq> Inl No_Fuel"
  by (simp add: fueled_def)

lemma ends_bindp:
  "fueled m \<Longrightarrow> safe m s (\<lambda>a s'. f a s' \<noteq> Inl No_Fuel) \<Longrightarrow> bindp m f s \<noteq> Inl No_Fuel"
  by (auto simp: fueled_def safe_def bindp_def split: sum.splits)

lemma getpolls_of:
  "ms_spoll m = poller_of es k \<Longrightarrow>
   on_spoll SPoll_getpolls m = Inr ((int (length es), Some (es @ replicate k zero_pollfd)), m)"
  by (simp add: on_spoll_def zoom_def SPoll_getpolls_def bindp_def getp_def)

lemma entry_at:
  assumes "e \<in> set es"
  shows "\<exists>j. 0 \<le> j \<and> j < 0 + int (length es) \<and> arr_get (es @ r) j = Inr e"
proof -
  obtain i where "i < length es" "es ! i = e"
    using assms by (auto simp: in_set_conv_nth)
  then show ?thesis
    by (intro exI [of _ "int i"]) (auto simp: arr_get_def nth_append)
qed

text \<open>One round of the loop, from what the poll has left.\<close>

definition recv_round ::
    "(nat \<Rightarrow> ('w messenger, smsg option) prog) \<Rightarrow> 'w posix \<Rightarrow> int \<Rightarrow> nat \<Rightarrow> int \<Rightarrow> ('w messenger, smsg option) prog" where
  "recv_round continue P limit stack n =
     (if 0 < n then
         bindp (on_world (timing_current_millis P)) (\<lambda>now.
           if now < limit then
             bindp (on_spoll SPoll_getpolls) (\<lambda>(size, fds).
               if size < 0 then ret None
               else
                 bindp (case fds of
                          None \<Rightarrow> if size = 0 then ret (Inr stack) else faultp Null_Pointer
                        | Some xs \<Rightarrow> recv_pass P xs (nat size) 0 stack) (\<lambda>r.
                 case r of
                   Inl res \<Rightarrow> ret res
                 | Inr stack' \<Rightarrow> continue stack'))
           else ret None)
       else ret None)"

lemma recv_loop_Suc:
  "recv_loop (Suc fuel) P timeout limit stack =
     bindp (on_both (SPoll_doPoll P timeout)) (recv_round (recv_loop fuel P timeout limit) P limit stack)"
  by (simp add: recv_round_def [abs_def])

lemma recv_loop_ends:
  assumes "honest_poll P"
  shows "registry_ok P m \<Longrightarrow> stack < fuel * 2 ^ 20 \<Longrightarrow> recv_loop fuel P timeout limit stack m \<noteq> Inl No_Fuel"
proof (induction fuel arbitrary: m stack)
  case (Suc fuel)
  have after_pass: "(case r of Inl res \<Rightarrow> ret res | Inr stack' \<Rightarrow> recv_loop fuel P timeout limit stack') m' \<noteq> Inl No_Fuel"
    if "registry_ok P m'" "\<And>left. r = Inr left \<Longrightarrow> left + 2 ^ 20 \<le> stack" for r :: "smsg option + nat" and m'
    using that Suc.prems(2) Suc.IH [of m'] by (cases r) (auto simp: ret_def)
  have round: "recv_round (recv_loop fuel P timeout limit) P limit stack n m1 \<noteq> Inl No_Fuel"
    if m1: "registry_ok P m1" "ms_spoll m1 = poller_of es k" "0 < n \<longrightarrow> (\<exists>e \<in> set es. flagged e)" for m1 es k n
  proof (cases "0 < n")
    case True
    then obtain e where e: "e \<in> set es" "flagged e"
      using m1(3) by blast
    have pass: "bindp (recv_pass P (es @ replicate k zero_pollfd) (length es) 0 stack)
        (\<lambda>r. case r of Inl res \<Rightarrow> ret res | Inr stack' \<Rightarrow> recv_loop fuel P timeout limit stack') m2 \<noteq> Inl No_Fuel"
      if "registry_ok P m2" for m2
    proof (rule ends_bindp [OF fueled_pass], rule safe_mono [OF recv_pass_safe [OF that]])
      fix r :: "smsg option + nat" and m3
      assume r: "registry_ok P m3 \<and> (case r of Inl _ \<Rightarrow> True
        | Inr left \<Rightarrow> m3 = m2\<lparr>ms_world := ms_world m3\<rparr> \<and> left \<le> stack \<and>
         ((\<exists>j. 0 \<le> j \<and> j < 0 + int (length es) \<and>
            (\<exists>e. arr_get (es @ replicate k zero_pollfd) j = Inr e \<and> flagged e)) \<longrightarrow> left + 2 ^ 20 \<le> stack))"
      show "(case r of Inl res \<Rightarrow> ret res | Inr stack' \<Rightarrow> recv_loop fuel P timeout limit stack') m3 \<noteq> Inl No_Fuel"
        using r entry_at [OF e(1), of "replicate k zero_pollfd"] e(2) by (intro after_pass) auto
    qed
    have "safe (on_world (timing_current_millis P)) m1 (\<lambda>now m2.
        (if now < limit then bindp (on_spoll SPoll_getpolls) (\<lambda>(size, fds).
           if size < 0 then ret None
           else bindp (case fds of
                    None \<Rightarrow> if size = 0 then ret (Inr stack) else faultp Null_Pointer
                  | Some xs \<Rightarrow> recv_pass P xs (nat size) 0 stack)
                (\<lambda>r. case r of Inl res \<Rightarrow> ret res | Inr stack' \<Rightarrow> recv_loop fuel P timeout limit stack'))
         else ret None) m2 \<noteq> Inl No_Fuel)"
      using m1 pass
      by (intro safe_on_world) (auto simp: bindp_Inr [OF getpolls_of] ret_def)
    then show ?thesis
      unfolding recv_round_def if_P [OF True] by (rule ends_bindp [OF fueled_on(1) [OF fueled_sockets(7)]])
  next
    case False
    then show ?thesis
      by (simp add: recv_round_def ret_def)
  qed
  show ?case
    unfolding recv_loop_Suc
  proof (intro ends_bindp fueled_rules safe_mono [OF poll_round [OF Suc.prems(1)]])
    fix n :: int and m1
    assume m1: "registry_ok P m1 \<and> ms_mcsock m1 = ms_mcsock m \<and>
      (\<exists>es k. ms_spoll m1 = poller_of es k \<and> (honest_poll P \<and> 0 < n \<longrightarrow> (\<exists>e \<in> set es. flagged e)))"
    then obtain es k where "ms_spoll m1 = poller_of es k" "0 < n \<longrightarrow> (\<exists>e \<in> set es. flagged e)"
      using assms by blast
    with m1 show "recv_round (recv_loop fuel P timeout limit) P limit stack n m1 \<noteq> Inl No_Fuel"
      by (intro round) simp_all
  qed
qed simp

lemma safe_initServer:
  assumes "registry_ok P m" "\<And>r m'. registry_ok P m' \<Longrightarrow> watched m' = watched m \<Longrightarrow> Q r m'"
  shows "safe (SMessenger_initServer P) m Q"
  unfolding SMessenger_initServer_def safe_bindp safe_basic
  by (intro safe_on_world)
    (auto simp: safe_bindp safe_basic assms(1) intro!: safe_on_world assms(2))

lemma safe_listenConn:
  assumes "registry_ok P m" "\<And>r m'. registry_ok P m' \<Longrightarrow> Q r m'"
  shows "safe (SMessenger_listenConn P) m Q"
proof -
  have "safe (if has_problem revents then bindp (on_world (callp (px_close P fd))) (\<lambda>_. SMessenger_initServer P)
      else if has_flag revents POLLIN then SMessenger_acceptConn P fd else ret 0) (m\<lparr>ms_world := w\<rparr>) Q"
    for revents fd w
    using assms
    by (auto simp: safe_bindp safe_basic SMessenger_acceptConn_def safe_ret_on_error
        intro!: safe_on_world safe_initServer safe_watch)
  then show ?thesis
    unfolding SMessenger_listenConn_def safe_bindp safe_basic
    using assms by (intro safe_on_world) (auto simp: safe_basic split: prod.split)
qed

text \<open>
  C32: \<open>recv\<close> ends. Every round of its loop in which the poll reports something either returns
  or has taken another megabyte from the stack, so a round for every megabyte of stack is
  enough fuel: the result is a message, an error, the null pointer or a fault, never a loop
  that goes on.
\<close>

theorem SMessenger_recv_ends:
  assumes "registry_ok P m" "honest_poll P" "stack < fuel * 2 ^ 20"
  shows "SMessenger_recv fuel P stack timeout m \<noteq> Inl No_Fuel"
  unfolding SMessenger_recv_def
proof (rule ends_bindp [OF fueled_messenger(5)], rule safe_listenConn [OF assms(1)])
  fix r :: int and m'
  assume m': "registry_ok P m'"
  have "bindp (on_world (timing_current_millis P)) (\<lambda>now. recv_loop fuel P timeout (now + timeout) stack) m' \<noteq> Inl No_Fuel"
    by (intro ends_bindp fueled_rules safe_on_world recv_loop_ends [OF assms(2)]) (use m' assms(3) in simp_all)
  then show "(if r < 0 then ret None
      else bindp (on_world (timing_current_millis P)) (\<lambda>now. recv_loop fuel P timeout (now + timeout) stack)) m' \<noteq> Inl No_Fuel"
    by (simp add: ret_def)
qed

lemma loop_posix_honest: "honest_poll loop_posix"
proof -
  have "\<exists>i. i < length ps \<and> i < length rs \<and> (has_problem (rs ! i) \<or> has_flag (rs ! i) POLLIN)"
    if "px_poll loop_posix ps timeout w = ((n, rs), w')" "0 < n" for ps timeout w n rs w'
  proof -
    have "map fst ps = [5]" "rs = [1]"
      using that by (auto simp: loop_posix_def split: if_splits)
    then show ?thesis
      by (intro exI [of _ 0]) (auto simp: has_flag_def)
  qed
  then show ?thesis
    by (auto simp: honest_poll_def)
qed

theorem SMessenger_recv_ends_witness:
  "SMessenger_recv 9 loop_posix 8388608 350 (sample_messenger [(''short'', zero_sockaddr)]) \<noteq> Inl No_Fuel"
  by (rule SMessenger_recv_ends [OF sample_messenger_ok(2) loop_posix_honest]) simp

section \<open>The registry as an invariant\<close>

lemma keeps_liftp [keeps_rules]: "keeps I (liftp r)"
  by (cases r) (simp_all add: keeps_def safe_def liftp_def)

lemma keeps_ret_on_error [keeps_rules]:
  "keeps I m \<Longrightarrow> (\<And>r. keeps I (k r)) \<Longrightarrow> keeps I (ret_on_error m k)"
  unfolding ret_on_error_def by (intro keeps_rules)

lemma keeps_on [keeps_rules]:
  "keeps (registry_ok P) (on_world m)"
  "keeps (registry_ok P) (on_spoll (SPoll_add (px_realloc P) fd POLL_FLAGS))"
  "keeps (registry_ok P) (on_spoll (SPoll_remove fd))"
  "keeps (registry_ok P) (on_spoll SPoll_getpolls)"
  "keeps (registry_ok P) (on_both (SPoll_doPoll P timeout))"
proof -
  show "keeps (registry_ok P) (on_world m)"
    by (simp add: keeps_def safe_on_world)
  show "keeps (registry_ok P) (on_spoll (SPoll_add (px_realloc P) fd POLL_FLAGS))"
    by (rule keepsI, rule safe_watch) simp_all
  show "keeps (registry_ok P) (on_spoll (SPoll_remove fd))"
    by (rule keepsI, rule safe_unwatch)
  show "keeps (registry_ok P) (on_spoll SPoll_getpolls)"
  proof (rule keepsI)
    fix m :: "'a messenger"
    assume m: "registry_ok P m"
    then obtain es k where "ms_spoll m = poller_of es k"
      by (auto simp: registry_ok_def poller_inv_def)
    from getpolls_of [OF this] m show "safe (on_spoll SPoll_getpolls) m (\<lambda>_. registry_ok P)"
      by (simp add: safe_def)
  qed
  show "keeps (registry_ok P) (on_both (SPoll_doPoll P timeout))"
    by (rule keepsI, rule safe_mono [OF poll_round]) auto
qed

lemma keeps_messenger [keeps_rules]:
  "keeps (registry_ok P) (SMessenger_initServer P)" "keeps (registry_ok P) (SMessenger_initMCast P)"
  "keeps (registry_ok P) (SMessenger_connect P ip port)"
  "keeps (registry_ok P) (SMessenger_send P msgtag msg)" "keeps (registry_ok P) (SMessenger_sendTo P msgtag fd msg)"
  "keeps (registry_ok P) (SMessenger_acceptConn P fd)"
  unfolding SMessenger_initServer_def SMessenger_initMCast_def SMessenger_connect_def SMessenger_send_def
    SMessenger_sendTo_def SMessenger_acceptConn_def
  by (intro keeps_rules; simp)+

lemma keeps_handling [keeps_rules]:
  "keeps (registry_ok P) (SMessenger_sendTag P msgtag)" "keeps (registry_ok P) (SMessenger_sendTagTo P msgtag fd)"
  "keeps (registry_ok P) (SMessenger_listenConn P)" "keeps (registry_ok P) (SMessenger_socketErrorHandling P fd)"
  "keeps (registry_ok P) (disconnected P fd)"
  unfolding SMessenger_sendTag_def SMessenger_sendTagTo_def SMessenger_listenConn_def
    SMessenger_socketErrorHandling_def disconnected_def
  by (intro keeps_rules)+

lemma keeps_recv_pass [keeps_rules]: "keeps (registry_ok P) (recv_pass P fds n i stack)"
proof (induction n arbitrary: i stack)
  case (Suc n)
  show ?case
    unfolding recv_pass.simps by (intro keeps_rules Suc.IH)
qed (simp add: keeps_basic)

lemma keeps_recv_loop [keeps_rules]: "keeps (registry_ok P) (recv_loop fuel P timeout limit stack)"
proof (induction fuel arbitrary: stack)
  case (Suc fuel)
  show ?case
    unfolding recv_loop.simps by (intro keeps_rules Suc.IH)
qed (simp add: keeps_basic)

lemma keeps_recv [keeps_rules]: "keeps (registry_ok P) (SMessenger_recv fuel P stack timeout)"
  unfolding SMessenger_recv_def by (intro keeps_rules)

text \<open>
  The registry of descriptors stays well formed through everything the messenger does with
  it: receiving, with all the connections accepted and dropped on the way, connecting, and the
  handling of errors.
\<close>

theorem messenger_keeps_registry:
  assumes "registry_ok P m"
  shows "safe (SMessenger_recv fuel P stack timeout) m (\<lambda>_ m'. registry_ok P m') \<and>
    safe (SMessenger_connect P ip port) m (\<lambda>fd m'. registry_ok P m' \<and>
      (watched m' = (if fd < 0 then watched m else watched m @ [(fd, POLL_FLAGS)])))"
proof
  show "safe (SMessenger_recv fuel P stack timeout) m (\<lambda>_ m'. registry_ok P m')"
    using keepsD [OF keeps_recv assms] .
  show "safe (SMessenger_connect P ip port) m (\<lambda>fd m'. registry_ok P m' \<and>
      (watched m' = (if fd < 0 then watched m else watched m @ [(fd, POLL_FLAGS)])))"
    unfolding SMessenger_connect_def safe_ret_on_error safe_bindp safe_basic
    using assms
    by (auto intro!: safe_on_world safe_watch simp: safe_ret_on_error safe_bindp safe_basic)
qed

theorem messenger_keeps_registry_witness:
  "safe (SMessenger_recv 3 null_posix 100 20) (sample_messenger ()) (\<lambda>_ m'. registry_ok null_posix m') \<and>
    safe (SMessenger_connect null_posix 1 2) (sample_messenger ()) (\<lambda>fd m'. registry_ok null_posix m' \<and>
      (watched m' = (if fd < 0 then watched (sample_messenger ()) else watched (sample_messenger ()) @ [(fd, POLL_FLAGS)])))"
  by (rule messenger_keeps_registry [OF sample_messenger_ok(1)])

section \<open>A blocked multicast socket\<close>

lemma nextMsg_less_stack:
  assumes "stack \<le> stack'"
  shows "SMessenger_nextMsg P stack fd len w = Inl Stack_Overflow \<or>
    SMessenger_nextMsg P stack fd len w = SMessenger_nextMsg P stack' fd len w"
proof -
  have "nextMsg_body P stack fd len n hdr tag fr v = Inl Stack_Overflow \<or>
      nextMsg_body P stack fd len n hdr tag fr v = nextMsg_body P stack' fd len n hdr tag fr v" for n hdr tag fr v
    using assms by (auto simp: nextMsg_body_def faultp_def)
  then show ?thesis
    by (auto simp: SMessenger_nextMsg_def bindp_def callp_def Let_def split: prod.split recv_result.split)
qed

text \<open>
  The system while a datagram \<open>d\<close> waits first in the multicast socket \<open>mc\<close> and nothing else
  happens: polling that socket reports something to read, polling the server socket \<open>sv\<close>
  reports nothing, and all readings of the clock lie within \<open>timeout\<close> milliseconds of \<open>T\<close>. It is
  \<open>clogged\<close> when \<open>d\<close> is shorter than it says.
\<close>

definition waiting ::
    "'w posix \<Rightarrow> ('w \<Rightarrow> (string \<times> sockaddr_in) list) \<Rightarrow> int \<Rightarrow> int \<Rightarrow> string \<Rightarrow> int \<Rightarrow> int \<Rightarrow> bool" where
  "waiting P queue mc sv d T timeout \<longleftrightarrow>
     dgram_socket P mc queue \<and>
     (\<forall>w t a ds. queue w = (d, a) # ds \<longrightarrow>
        (\<exists>w' ds'. px_poll P [(mc, POLL_FLAGS)] t w = ((1, [POLLIN]), w') \<and> queue w' = (d, a) # ds @ ds')) \<and>
     (\<forall>w a ds. queue w = (d, a) # ds \<longrightarrow>
        (\<exists>rs w' ds'. px_poll P [(sv, POLL_FLAGS)] 0 w = ((0, rs), w') \<and> queue w' = (d, a) # ds @ ds')) \<and>
     (\<forall>w a ds. queue w = (d, a) # ds \<longrightarrow>
        (\<exists>sec usec w' ds'. px_gettimeofday P w = (Some (sec, usec), w') \<and> queue w' = (d, a) # ds @ ds' \<and>
           T \<le> sec * 1000 + usec div 1000 \<and> sec * 1000 + usec div 1000 < T + timeout))"

definition clogged ::
    "'w posix \<Rightarrow> ('w \<Rightarrow> (string \<times> sockaddr_in) list) \<Rightarrow> int \<Rightarrow> int \<Rightarrow> string \<Rightarrow> int \<Rightarrow> int \<Rightarrow> bool" where
  "clogged P queue mc sv d T timeout \<longleftrightarrow>
     waiting P queue mc sv d T timeout \<and> d \<noteq> [] \<and> next_frame (nat MAX_DATALEN) d = Incomplete"

lemma waiting_round:
  assumes c: "waiting P queue mc sv d T timeout" and mc: "0 < mc" and limit: "T + timeout \<le> limit" "0 \<le> timeout"
    and m: "queue (ms_world m) = (d, a) # ds" "ms_spoll m = poller_of [e] k" "pf_fd e = mc" "pf_events e = POLL_FLAGS"
  shows "\<exists>w ds'. queue w = (d, a) # ds @ ds' \<and> recv_loop (Suc fuel) P timeout limit stack m =
      bindp (recv_pass P (e\<lparr>pf_revents := POLLIN\<rparr> # replicate k zero_pollfd) 1 0 stack)
        (\<lambda>r. case r of Inl res \<Rightarrow> ret res | Inr stack' \<Rightarrow> recv_loop fuel P timeout limit stack')
        (m\<lparr>ms_spoll := poller_of [e\<lparr>pf_revents := POLLIN\<rparr>] k, ms_world := w\<rparr>)"
proof -
  obtain w1 ds1 where w1: "px_poll P [(mc, POLL_FLAGS)] timeout (ms_world m) = ((1, [POLLIN]), w1)"
    "queue w1 = (d, a) # ds @ ds1"
    using c m(1) unfolding waiting_def by blast
  let ?e = "e\<lparr>pf_revents := POLLIN\<rparr>"
  let ?m1 = "m\<lparr>ms_spoll := poller_of [?e] k, ms_world := w1\<rparr>"
  have polled: "on_both (SPoll_doPoll P timeout) m = Inr (1, ?m1)"
    using SPoll_doPoll_of [OF limit(2), of P "[e]" "ms_world m" 1 "[?e]" w1 k] w1 m(2-4)
    by (simp add: on_both_def zoom_def sys_poll_def)
  obtain sec usec w2 ds2 where t: "px_gettimeofday P w1 = (Some (sec, usec), w2)" "queue w2 = (d, a) # (ds @ ds1) @ ds2"
    "sec * 1000 + usec div 1000 < T + timeout"
    using c w1(2) unfolding waiting_def by blast
  let ?m2 = "?m1\<lparr>ms_world := w2\<rparr>"
  have time: "on_world (timing_current_millis P) ?m1 = Inr (sec * 1000 + usec div 1000, ?m2)"
    using t(1) by (simp add: on_world_def zoom_def timing_current_millis_def bindp_def callp_def ret_def)
  have now: "sec * 1000 + usec div 1000 < limit"
    using t(3) limit(1) by linarith
  have polls: "on_spoll SPoll_getpolls ?m2 = Inr ((1, Some (?e # replicate k zero_pollfd)), ?m2)"
    using getpolls_of [of ?m2 "[?e]" k] by simp
  have loop: "recv_loop (Suc fuel) P timeout limit stack m =
      bindp (recv_pass P (?e # replicate k zero_pollfd) 1 0 stack)
        (\<lambda>r. case r of Inl res \<Rightarrow> ret res | Inr stack' \<Rightarrow> recv_loop fuel P timeout limit stack') ?m2"
    unfolding recv_loop_Suc bindp_Inr [where m = "on_both (SPoll_doPoll P timeout)", OF polled] recv_round_def
    unfolding if_P [OF zero_less_one] bindp_Inr [where m = "on_world (timing_current_millis P)", OF time]
      if_P [OF now] bindp_Inr [where m = "on_spoll SPoll_getpolls", OF polls]
    by simp
  show ?thesis
    by (rule exI [of _ w2], rule exI [of _ "ds1 @ ds2"]) (use t(2) loop in simp)
qed

text \<open>What \<open>recv\<close> does before its loop, while a datagram waits.\<close>

lemma waiting_start:
  assumes c: "waiting P queue mc (ms_servsock m) d T timeout" and q: "queue (ms_world m) = (d, a) # ds"
  shows "\<exists>w ds' now. queue w = (d, a) # ds @ ds' \<and> T \<le> now \<and>
    SMessenger_recv fuel P stack timeout m = recv_loop fuel P timeout (now + timeout) stack (m\<lparr>ms_world := w\<rparr>)"
proof -
  obtain rs w1 ds1 where w1: "px_poll P [(ms_servsock m, POLL_FLAGS)] 0 (ms_world m) = ((0, rs), w1)"
    "queue w1 = (d, a) # ds @ ds1"
    using c q unfolding waiting_def by blast
  have listen: "SMessenger_listenConn P m = Inr (0, m\<lparr>ms_world := w1\<rparr>)"
    using w1(1)
    by (simp add: SMessenger_listenConn_def bindp_def getp_def on_world_def zoom_def callp_def sys_poll1_def ret_def)
  obtain sec usec w2 ds2 where t: "px_gettimeofday P w1 = (Some (sec, usec), w2)" "queue w2 = (d, a) # (ds @ ds1) @ ds2"
    "T \<le> sec * 1000 + usec div 1000"
    using c w1(2) unfolding waiting_def by blast
  have time: "on_world (timing_current_millis P) (m\<lparr>ms_world := w1\<rparr>) =
      Inr (sec * 1000 + usec div 1000, m\<lparr>ms_world := w2\<rparr>)"
    using t(1) by (simp add: on_world_def zoom_def timing_current_millis_def bindp_def callp_def ret_def)
  have "SMessenger_recv fuel P stack timeout m =
      recv_loop fuel P timeout (sec * 1000 + usec div 1000 + timeout) stack (m\<lparr>ms_world := w2\<rparr>)"
    by (simp add: SMessenger_recv_def bindp_Inr [where m = "SMessenger_listenConn P", OF listen]
        bindp_Inr [where m = "on_world (timing_current_millis P)", OF time])
  then show ?thesis
    using t(2,3) by (intro exI [of _ w2] exI [of _ "ds1 @ ds2"] exI [of _ "sec * 1000 + usec div 1000"]) simp
qed

text \<open>A waiting datagram that is complete is what \<open>recv\<close> gives.\<close>

lemma nextMsg_datagram:
  assumes "dgram_socket P fd queue" "queue w = (frame msgtag port msg, a) # ds" "sin_addr a \<noteq> 0"
    and "length msg \<le> 2 ^ 20" "2 ^ 20 + 8 \<le> stack"
  shows "runs (SMessenger_nextMsg P stack fd 1048576) w (\<lambda>(res, tag, data, from) w'.
    res = 8 + int (length msg) \<and> tag = to_short msgtag \<and> data = msg \<and> sockaddr_getPort from = uint port \<and>
    sockaddr_getIP from = sockaddr_getIP a \<and> (\<exists>more. queue w' = ds @ more))"
  using multicast_delivered [OF assms] by simp

lemma recv_datagram:
  assumes c: "waiting P queue (ms_mcsock m) (ms_servsock m) (frame msgtag port msg) T timeout"
    and m: "queue (ms_world m) = (frame msgtag port msg, a) # ds" "registry_ok P m" "0 < ms_mcsock m"
      "watched m = [(ms_mcsock m, POLL_FLAGS)]"
    and "0 \<le> timeout" "0 < fuel" "sin_addr a \<noteq> 0" "length msg \<le> 2 ^ 20" "2 ^ 21 + 8 \<le> stack"
  shows "runs (SMessenger_recv fuel P stack timeout) m (\<lambda>r m'.
    r = Some (SMsg_new (to_short msgtag) (sockaddr_getIP a) port (ms_mcsock m) msg) \<and>
    (\<exists>p w more. m' = m\<lparr>ms_spoll := p, ms_world := w\<rparr> \<and> queue w = ds @ more))"
proof -
  obtain e k where spoll: "ms_spoll m = poller_of [e] k" "pf_fd e = ms_mcsock m" "pf_events e = POLL_FLAGS"
    using m(2,4) by (auto simp: registry_ok_def watched_def poller_inv_def)
  obtain f where f: "fuel = Suc f"
    using assms(7) by (cases fuel) simp_all
  obtain w1 ds1 now where start: "queue w1 = (frame msgtag port msg, a) # ds @ ds1" "T \<le> now"
    "SMessenger_recv fuel P stack timeout m = recv_loop fuel P timeout (now + timeout) stack (m\<lparr>ms_world := w1\<rparr>)"
    using waiting_start [OF c m(1), of fuel stack] by blast
  let ?e = "e\<lparr>pf_revents := POLLIN\<rparr>"
  obtain w2 ds2 where round: "queue w2 = (frame msgtag port msg, a) # (ds @ ds1) @ ds2"
    "recv_loop (Suc f) P timeout (now + timeout) stack (m\<lparr>ms_world := w1\<rparr>) =
      bindp (recv_pass P (?e # replicate k zero_pollfd) 1 0 stack)
        (\<lambda>r. case r of Inl res \<Rightarrow> ret res | Inr stack' \<Rightarrow> recv_loop f P timeout (now + timeout) stack')
        (m\<lparr>ms_world := w1, ms_spoll := poller_of [?e] k, ms_world := w2\<rparr>)"
    using waiting_round [OF c m(3), of "now + timeout" "m\<lparr>ms_world := w1\<rparr>" a "ds @ ds1" e k f stack] start spoll assms(6)
    by auto
  let ?m2 = "m\<lparr>ms_spoll := poller_of [?e] k, ms_world := w2\<rparr>"
  have "runs (SMessenger_nextMsg P (stack - 1048576) (ms_mcsock m) 1048576) w2 (\<lambda>(res, tag, data, from) w'.
    res = 8 + int (length msg) \<and> tag = to_short msgtag \<and> data = msg \<and> sockaddr_getPort from = uint port \<and>
    sockaddr_getIP from = sockaddr_getIP a \<and> (\<exists>more. queue w' = ((ds @ ds1) @ ds2) @ more))"
    by (rule nextMsg_datagram) (use c assms round(1) in \<open>simp_all add: waiting_def\<close>)
  then obtain fr w3 more where taken: "SMessenger_nextMsg P (stack - 1048576) (ms_mcsock m) 1048576 w2 =
      Inr ((8 + int (length msg), to_short msgtag, msg, fr), w3)"
    "sockaddr_getPort fr = uint port" "sockaddr_getIP fr = sockaddr_getIP a" "queue w3 = ((ds @ ds1) @ ds2) @ more"
    by (auto simp: runs_Inr)
  have "recv_pass P (?e # replicate k zero_pollfd) 1 0 stack ?m2 =
      Inr (Inl (Some (SMsg_new (to_short msgtag) (sockaddr_getIP a) port (ms_mcsock m) msg)), ?m2\<lparr>ms_world := w3\<rparr>)"
    using spoll(2) m(3) assms(10) taken
    by (simp add: bindp_def arr_get_def has_problem_def has_flag_def Let_def on_world_def zoom_def ret_def)
  then have pass': "recv_pass P (?e # replicate k zero_pollfd) 1 0 stack
      (m\<lparr>ms_world := w1, ms_spoll := poller_of [?e] k, ms_world := w2\<rparr>) =
      Inr (Inl (Some (SMsg_new (to_short msgtag) (sockaddr_getIP a) port (ms_mcsock m) msg)), ?m2\<lparr>ms_world := w3\<rparr>)"
    by simp
  have "SMessenger_recv fuel P stack timeout m =
      Inr (Some (SMsg_new (to_short msgtag) (sockaddr_getIP a) port (ms_mcsock m) msg), ?m2\<lparr>ms_world := w3\<rparr>)"
    unfolding start(3) unfolding f unfolding round(2)
    by (subst bindp_Inr [where m = "recv_pass P (?e # replicate k zero_pollfd) 1 0 stack", OF pass'])
      (simp add: ret_def)
  then show ?thesis
    using taken(4) by (auto simp: runs_Inr)
qed

lemma clogged_pass:
  assumes c: "clogged P queue mc sv d T timeout" and q: "queue (ms_world m) = (d, a) # ds"
    and e: "pf_fd e = mc" "pf_revents e = POLLIN" "mc \<noteq> 0"
  shows "recv_pass P (e # fds) 1 0 stack m = Inl Stack_Overflow \<or>
    (\<exists>w' ds'. 2 ^ 20 \<le> stack \<and> recv_pass P (e # fds) 1 0 stack m = Inr (Inr (stack - 2 ^ 20), m\<lparr>ms_world := w'\<rparr>) \<and>
       queue w' = (d, a) # ds')"
proof (cases "stack < 2 ^ 20")
  case True
  then show ?thesis
    using e by (simp add: bindp_def arr_get_def has_problem_def has_flag_def faultp_def)
next
  case False
  let ?next = "SMessenger_nextMsg P (stack - 1048576) mc 1048576 (ms_world m)"
  have pass: "recv_pass P (e # fds) 1 0 stack m =
      bindp (on_world (SMessenger_nextMsg P (stack - 1048576) mc 1048576)) (\<lambda>(res, tag, data, from).
         if res < 0 then disconnected P mc
         else if res > 0 then
           (if mc > 0 then ret (Inl (Some (SMsg_new tag (sockaddr_getIP from) (word_of_int (sockaddr_getPort from)) mc data)))
            else ret (Inr (stack - 1048576)))
         else ret (Inr (stack - 1048576))) m"
    using e False by (simp add: bindp_Inr arr_get_def has_problem_def has_flag_def Let_def cong: if_cong)
  have d: "dgram_socket P mc queue" "d \<noteq> []" "next_frame (nat 1048576) d = Incomplete"
    using c by (simp_all add: clogged_def waiting_def)
  have big: "runs (SMessenger_nextMsg P (stack + 2097152) mc 1048576) (ms_world m) (\<lambda>r w'.
      agrees_dgram (next_frame (nat 1048576) d) (queue (ms_world m)) r (queue w'))"
    by (rule nextMsg_dgram_runs [OF d(1) q d(2)]) simp_all
  have "?next = Inl Stack_Overflow \<or> (\<exists>tag data fr w' more. ?next = Inr ((0, tag, data, fr), w') \<and>
      queue w' = (d, a) # ds @ more)"
    using nextMsg_less_stack [of "stack - 1048576" "stack + 2097152" P mc 1048576 "ms_world m"] big
    unfolding d(3) q by (auto simp: runs_Inr)
  then show ?thesis
    using False unfolding pass by (auto simp: on_world_def zoom_def bindp_def ret_def)
qed

lemma clogged_loop:
  assumes c: "clogged P queue mc sv d T timeout" and mc: "0 < mc" and limit: "T + timeout \<le> limit" "0 \<le> timeout"
  shows "queue (ms_world m) = (d, a) # ds \<Longrightarrow> ms_spoll m = poller_of [e] k \<Longrightarrow> pf_fd e = mc \<Longrightarrow>
    pf_events e = POLL_FLAGS \<Longrightarrow> stack < fuel * 2 ^ 20 \<Longrightarrow>
    recv_loop fuel P timeout limit stack m = Inl Stack_Overflow"
proof (induction fuel arbitrary: m stack e ds)
  case (Suc fuel)
  let ?e = "e\<lparr>pf_revents := POLLIN\<rparr>"
  have "waiting P queue mc sv d T timeout"
    using c by (simp add: clogged_def)
  from waiting_round [OF this mc limit Suc.prems(1-4)] obtain w2 ds2 where w2: "queue w2 = (d, a) # ds @ ds2"
    and loop: "recv_loop (Suc fuel) P timeout limit stack m =
      bindp (recv_pass P (?e # replicate k zero_pollfd) 1 0 stack)
        (\<lambda>r. case r of Inl res \<Rightarrow> ret res | Inr stack' \<Rightarrow> recv_loop fuel P timeout limit stack')
        (m\<lparr>ms_spoll := poller_of [?e] k, ms_world := w2\<rparr>)"
    by blast
  let ?m2 = "m\<lparr>ms_spoll := poller_of [?e] k, ms_world := w2\<rparr>"
  have m2: "queue (ms_world ?m2) = (d, a) # ds @ ds2" "pf_fd ?e = mc" "pf_revents ?e = POLLIN" "mc \<noteq> 0"
    using w2 Suc.prems mc by simp_all
  from clogged_pass [OF c m2, of "replicate k zero_pollfd" stack]
  show ?case
  proof (elim disjE exE conjE)
    fix w' ds'
    assume pass: "2 ^ 20 \<le> stack" "recv_pass P (?e # replicate k zero_pollfd) 1 0 stack ?m2 =
        Inr (Inr (stack - 2 ^ 20), ?m2\<lparr>ms_world := w'\<rparr>)" "queue w' = (d, a) # ds'"
    have "recv_loop fuel P timeout limit (stack - 2 ^ 20) (?m2\<lparr>ms_world := w'\<rparr>) = Inl Stack_Overflow"
      by (rule Suc.IH [where e = ?e and ds = ds']) (use pass Suc.prems in auto)
    then show ?thesis
      unfolding loop
      by (subst bindp_Inr [where m = "recv_pass P (?e # replicate k zero_pollfd) 1 0 stack", OF pass(2)]) simp
  next
    assume "recv_pass P (?e # replicate k zero_pollfd) 1 0 stack ?m2 = Inl Stack_Overflow"
    then show ?thesis
      unfolding loop by (rule bindp_Inl)
  qed
qed simp

text \<open>
  C36: one short datagram brings \<open>recv\<close> down. While a datagram that announces more than it holds
  waits first in the multicast socket and nothing else happens, every round of the loop takes
  another megabyte of stack for its buffer and delivers nothing: if the rounds go by within the
  time \<open>recv\<close> may wait, the stack overflows, whatever its size. (A round takes microseconds; eight
  megabytes of stack last eight rounds.)
\<close>

theorem recv_short_datagram_overflow:
  assumes "clogged P queue (ms_mcsock m) (ms_servsock m) d T timeout"
    and "queue (ms_world m) = (d, a) # ds" "registry_ok P m" "0 < ms_mcsock m" "0 \<le> timeout"
    and "watched m = [(ms_mcsock m, POLL_FLAGS)]" "stack < fuel * 2 ^ 20"
  shows "SMessenger_recv fuel P stack timeout m = Inl Stack_Overflow"
proof -
  obtain e k where spoll: "ms_spoll m = poller_of [e] k" "pf_fd e = ms_mcsock m" "pf_events e = POLL_FLAGS"
    using assms(3,6) by (auto simp: registry_ok_def watched_def poller_inv_def)
  have "waiting P queue (ms_mcsock m) (ms_servsock m) d T timeout"
    using assms(1) by (simp add: clogged_def)
  from waiting_start [OF this assms(2), of fuel stack] obtain w ds' now where
    start: "queue w = (d, a) # ds @ ds'" "T \<le> now"
    "SMessenger_recv fuel P stack timeout m = recv_loop fuel P timeout (now + timeout) stack (m\<lparr>ms_world := w\<rparr>)"
    by blast
  show ?thesis
    unfolding start(3)
    by (rule clogged_loop [OF assms(1,4) _ assms(5), where ds = "ds @ ds'" and e = e and k = k])
      (use start spoll assms(7) in simp_all)
qed

theorem recv_short_datagram_overflow_witness:
  "SMessenger_recv 9 loop_posix 8388608 350 (sample_messenger [(''short'', zero_sockaddr)]) = Inl Stack_Overflow"
proof (rule recv_short_datagram_overflow [where queue = "\<lambda>w. w" and d = "''short''" and a = zero_sockaddr
      and ds = "[]" and T = 1000])
  show "clogged loop_posix (\<lambda>w. w) (ms_mcsock (sample_messenger [(''short'', zero_sockaddr)]))
      (ms_servsock (sample_messenger [(''short'', zero_sockaddr)])) ''short'' 1000 350"
    using loop_posix_ok
    by (auto simp: clogged_def waiting_def sample_messenger_def next_frame_def)
      (auto simp: loop_posix_def null_posix_def)
qed (use sample_messenger_ok(2) in \<open>simp_all add: sample_messenger_def watched_def\<close>)

end
