(* ===== verification/Bus_Laws.thy ===== *)
theory Bus_Laws
  imports Bus Contact_Book Messenger_Recv
begin

text \<open>
  What the bus does with a message and with a request to send, over the abstract directory of
  Peer_Registry. The operations of SBus.cpp touch the contacts, the messenger and the name; each
  law says which.
\<close>

section \<open>Contacts seen through pointers\<close>

text \<open>Conjoining what is known of one run.\<close>

lemma runs_conj: "runs m s P \<Longrightarrow> runs m s Q \<Longrightarrow> runs m s (\<lambda>a s'. P a s' \<and> Q a s')"
  by (auto simp: runs_def split: sum.splits)

text \<open>A pointer whose cell, alive or freed, holds the record \<open>p\<close>.\<close>

definition tells :: "contacts \<Rightarrow> nat \<Rightarrow> peerinfo \<Rightarrow> bool" where
  "tells c a p \<longleftrightarrow> (\<exists>cell. co_heap (core_of c) a = Some cell \<and> cell_info cell = p)"

text \<open>A later table in which only times have changed.\<close>

definition alike :: "cxx \<Rightarrow> contacts \<Rightarrow> contacts \<Rightarrow> bool" where
  "alike x c c' \<longleftrightarrow> book_ok x c' \<and> core_of c' = core_of c"

lemma alike_refl: "book_ok x c \<Longrightarrow> alike x c c"
  by (simp add: alike_def)

lemma alikeD:
  assumes "alike x c c'"
  shows "book_ok x c'" "contacts_directory c' = contacts_directory c" "points_to c' a k \<longleftrightarrow> points_to c a k"
    and "tells c' a p \<longleftrightarrow> tells c a p" "core_of c' = core_of c"
  using assms by (auto simp: alike_def contacts_directory_def points_to_def tells_def)

lemma alike_trans: "alike x c c' \<Longrightarrow> alike x c' c'' \<Longrightarrow> alike x c c''"
  by (simp add: alike_def)

lemma points_to_tells:
  assumes "book_ok x c" "points_to c a k"
  obtains p where "filed (core_of c) a p" "pi_peer p = k" "d_peer (contacts_directory c) k = Some p" "tells c a p"
proof -
  obtain p where p: "filed (core_of c) a p" "pi_peer p = k"
    using assms(2) by (auto simp: points_to_def)
  have "core_ok (core_of c)"
    using assms(1) by (simp add: book_ok_def contacts_ok_def)
  then have "d_peer (contacts_directory c) k = Some p"
    using p by (auto simp: contacts_directory_def dir_of_peer)
  moreover have "tells c a p"
    using p(1) by (auto simp: tells_def filed_def)
  ultimately show ?thesis
    using that p by blast
qed

lemma core_heap_freed:
  "co_heap (core_of c) a = Some (Freed p) \<longleftrightarrow> (\<exists>q. ct_heap c a = Some (Freed q) \<and> p = touched 0 q)"
  by (auto simp: core_of_def elim!: still.elims split: option.splits)

lemma runs_ask_freed:
  assumes "plain_getter g f" "co_heap (core_of c) a = Some (Freed p)" "sane c" "forgiving x"
    and "\<And>c'. later a c (core_of c) c' \<Longrightarrow> Q (f p) c'"
  shows "runs (ask x a g) c Q"
proof -
  obtain q where q: "ct_heap c a = Some (Freed q)" "p = touched 0 q"
    using assms(2) by (auto simp: core_heap_freed)
  let ?now = "cx_clock x (ct_tick c)"
  let ?c = "c\<lparr>ct_tick := Suc (ct_tick c), ct_heap := (ct_heap c)(a \<mapsto> Freed (touched ?now q))\<rparr>"
  have now: "second ?now"
    using assms(4) by (auto simp: forgiving_def clock_ok_def)
  have f: "f q = f p"
    using assms(1) q(2) by (simp add: plain_getter_def)
  have "ask x a g c = Inr (f p, ?c)"
    using assms(1,4) q f
    by (simp add: ask_def current_seconds_def load_def store_def read_cell_def bindp_def prog_simps
        plain_getter_def forgiving_def)
  moreover have "later a c (core_of c) ?c"
    using assms(3) q now by (auto simp: later_def sane_def core_of_def fun_eq_iff touched_def)
  ultimately show ?thesis
    using assms(5) by (simp add: runs_def)
qed

lemma later_alike: "book_ok x c \<Longrightarrow> later a c (core_of c) c' \<Longrightarrow> alike x c c'"
  by (simp add: alike_def later_def book_ok_def contacts_ok_def)

text \<open>Asking a peer for one of its fields.\<close>

lemma runs_ask_book:
  assumes "book_ok x c" "plain_getter g f" "tells c a p" "\<And>c'. alike x c c' \<Longrightarrow> Q (f p) c'"
  shows "runs (ask x a g) c Q"
proof -
  have c: "sane c" "forgiving x" "clock_ok x"
    using assms(1) by (auto simp: book_ok_def contacts_ok_def forgiving_def)
  obtain cell where cell: "co_heap (core_of c) a = Some cell" "cell_info cell = p"
    using assms(3) by (auto simp: tells_def)
  show ?thesis
  proof (cases cell)
    case (Live q)
    then show ?thesis
      using cell c assms later_alike by (intro runs_ask [OF assms(2)]) auto
  next
    case (Freed q)
    then show ?thesis
      using cell c assms later_alike by (intro runs_ask_freed [OF assms(2)]) auto
  qed
qed

text \<open>\<open>updateSocket\<close> leaves the old object freed, with its contents.\<close>

lemma runs_updateSocket_book:
  assumes "book_ok x c" "points_to c a k" "d_peer (contacts_directory c) k = Some p"
  shows "runs (SContacts_updateSocket x a socket) c (\<lambda>b c'. book_ok x c' \<and> points_to c' b k \<and>
    contacts_directory c' = dir_replace p (p\<lparr>pi_socket := socket\<rparr>) (contacts_directory c) \<and>
    co_heap (core_of c') a = Some (Freed p))"
proof -
  obtain q where q: "filed (core_of c) a q" "d_peer (contacts_directory c) k = Some q"
    using points_to_tells [OF assms(1,2)] by metis
  then have p: "filed (core_of c) a p"
    using assms(3) by simp
  have ok: "contacts_ok c" "forgiving x"
    using assms(1) by (auto simp: book_ok_def)
  have "a \<noteq> ct_next c"
    using core_okD(3) [OF contacts_okD(2) [OF ok(1)]] p by (fastforce simp: filed_def)
  then have "runs (SContacts_updateSocket x a socket) c (\<lambda>b c'. co_heap (core_of c') a = Some (Freed p))"
    using ok p by (intro runs_mono [OF runs_updateSocket [OF ok(1)]]) (auto simp: forgiving_def)
  from runs_conj [OF updateSocket_refines [OF assms] this] show ?thesis
    by (rule runs_mono) simp
qed

lemma book_core: "book_ok x c \<Longrightarrow> core_ok (core_of c)" "book_ok x c \<Longrightarrow> sane c" "book_ok x c \<Longrightarrow> contacts_ok c"
  by (auto simp: book_ok_def contacts_ok_def)

lemma dir_of_sock_None:
  assumes ok: "core_ok t"
  shows "d_sock (dir_of t) s = None \<longleftrightarrow> co_sock t s = None"
proof (cases "co_sock t s")
  case (Some a)
  then obtain p where "filed t a p"
    using core_okD(7) [OF ok] by blast
  with Some show ?thesis
    by (simp add: dir_of_def who_filed)
qed (simp add: dir_of_def)

text \<open>What the searches find, in terms of the directory.\<close>

lemma finds:
  assumes "book_ok x c"
  shows "SContacts_findFromSocket c s = None \<longleftrightarrow> d_sock (contacts_directory c) s = None"
    and "SContacts_findFromSocket c s = Some a \<Longrightarrow>
      \<exists>k. points_to c a k \<and> d_sock (contacts_directory c) s = Some k"
    and "SContacts_findAddr c ip port = None \<longleftrightarrow> d_addr (contacts_directory c) (ip, port) = None"
    and "SContacts_findAddr c ip port = Some a \<Longrightarrow>
      \<exists>k. points_to c a k \<and> d_addr (contacts_directory c) (ip, port) = Some k"
    and "SContacts_findPeer c k = None \<longleftrightarrow> d_peer (contacts_directory c) k = None"
proof -
  note core = book_core(1) [OF assms]
  show "SContacts_findFromSocket c s = None \<longleftrightarrow> d_sock (contacts_directory c) s = None"
    using dir_of_sock_None [OF core, of s] by (simp add: SContacts_findFromSocket_def contacts_directory_def)
  show "SContacts_findFromSocket c s = Some a \<Longrightarrow>
      \<exists>k. points_to c a k \<and> d_sock (contacts_directory c) s = Some k"
    using core_okD(7) [OF core, of s a] dir_of_indices(3) [OF core, of s]
    by (auto simp: SContacts_findFromSocket_def points_to_def contacts_directory_def)
  show "SContacts_findAddr c ip port = None \<longleftrightarrow> d_addr (contacts_directory c) (ip, port) = None"
    using dir_of_None(1) [OF core, of ip port] by (simp add: SContacts_findAddr_def contacts_directory_def)
  show "SContacts_findAddr c ip port = Some a \<Longrightarrow>
      \<exists>k. points_to c a k \<and> d_addr (contacts_directory c) (ip, port) = Some k"
    by (rule found_points_to(1) [OF book_core(3) [OF assms]])
  show "SContacts_findPeer c k = None \<longleftrightarrow> d_peer (contacts_directory c) k = None"
    using book.find_names [OF assms] book.names_dir [OF assms, of k] by (metis not_None_eq)
qed

lemma find_name:
  "book_ok x c \<Longrightarrow> SContacts_findName c name = None \<longleftrightarrow> d_name (contacts_directory c) name = None"
  using dir_of_None(2) [OF book_core(1), of x c name] by (simp add: SContacts_findName_def contacts_directory_def)

text \<open>A second deletion of an object ends the process, whatever the runtime forgives.\<close>

lemma delete_freed:
  assumes "later a c0 t c" "co_heap t a = Some (Freed p)"
  shows "fails (delete_peerinfo a) c Use_After_Free"
proof -
  have "co_heap (core_of c) a = Some (Freed p)"
    using assms laterD(2) by metis
  then show ?thesis
    by (auto simp: core_heap_freed fails_def delete_peerinfo_def free_cell_def)
qed

lemma step_ask_freed:
  assumes "later a c0 t c" "plain_getter g f" "co_heap t a = Some (Freed p)" "forgiving x"
    and "\<And>c'. later a c0 t c' \<Longrightarrow> Q (f p) c'"
  shows "runs (ask x a g) c Q"
  using laterD(1,2) [OF assms(1)] assms(3-5)
  by (intro runs_ask_freed [OF assms(2)]) (auto dest: later_trans [OF assms(1)])

lemma erase_freed:
  assumes l: "later a c0 t c" and freed: "co_heap t a = Some (Freed p)" and x: "forgiving x"
  shows "fails (SContacts_erase x a) c Use_After_Free"
proof -
  have e: "cx_erase_end x"
    using x by (simp add: forgiving_def)
  note ask = fails_after [OF step_ask_freed [OF _ _ _ x]]
  show ?thesis
    unfolding SContacts_erase_def
    apply (rule ask [OF l plain_getters(1) freed])
    apply (rule fails_after, erule step_erase_peer, simp add: e)
    apply (erule ask [OF _ plain_getters(6)], simp add: freed)
    apply (rule fails_after, erule step_erase_addr, simp add: e)
    apply (erule ask [OF _ plain_getters(5)], simp add: freed)
    apply (rule fails_after, erule step_erase_name, simp add: e)
    apply (erule ask [OF _ plain_getters(4)], simp add: freed)
    apply (rule fails_after, erule step_erase_socket, simp add: e)
    apply (erule delete_freed, simp add: freed)
    done
qed

lemma updateName_freed:
  assumes "book_ok x c" "co_heap (core_of c) a = Some (Freed p)"
  shows "SContacts_updateName x a name c = Inl Use_After_Free"
proof -
  have x: "forgiving x"
    using assms(1) by (simp add: book_ok_def)
  note ask = fails_after [OF step_ask_freed [OF _ _ assms(2) x]]
  have "fails (SContacts_updateName x a name) c Use_After_Free"
    unfolding SContacts_updateName_def
    apply (rule ask [OF later_refl plain_getters(1)], rule book_core(2) [OF assms(1)])
    apply (erule ask [OF _ plain_getters(4)])
    apply (erule ask [OF _ plain_getters(2)])
    apply (erule ask [OF _ plain_getters(3)])
    apply (simp add: fails_bindp erase_freed [OF _ assms(2) x])
    done
  then show ?thesis
    by (simp add: fails_def)
qed

section \<open>The sender of a message\<close>

lemma runs_on_bus [runs_simps]:
  "runs (on_contacts m) b Q = runs m (sb_contacts b) (\<lambda>a c. Q a (b\<lparr>sb_contacts := c\<rparr>))"
  "runs (on_messenger n) b R = runs n (sb_messenger b) (\<lambda>a m'. R a (b\<lparr>sb_messenger := m'\<rparr>))"
  by (simp_all add: on_contacts_def on_messenger_def runs_zoom)

lemma safe_on_bus [safe_simps]:
  "safe (on_contacts m) b Q = safe m (sb_contacts b) (\<lambda>a c. Q a (b\<lparr>sb_contacts := c\<rparr>))"
  "safe (on_messenger n) b R = safe n (sb_messenger b) (\<lambda>a m'. R a (b\<lparr>sb_messenger := m'\<rparr>))"
  by (simp_all add: on_contacts_def on_messenger_def safe_zoom)

text \<open>
  The directory after a message came in, and the number of its sender. A message over the
  multicast socket says nothing of the peer's own socket.
\<close>

definition dir_sender ::
  "peerinfo list \<Rightarrow> string \<Rightarrow> int \<Rightarrow> int \<Rightarrow> 32 word \<Rightarrow> 16 word \<Rightarrow> directory \<Rightarrow> int \<times> directory" where
  "dir_sender ps name mcsock socket ip port d =
     (case d_sock d socket of
        Some k \<Rightarrow> (k, d)
      | None \<Rightarrow>
          (case d_addr d (ip, port) of
             Some k \<Rightarrow>
               (k, if socket = mcsock then d
                   else case d_peer d k of None \<Rightarrow> d | Some p \<Rightarrow> dir_replace p (p\<lparr>pi_socket := socket\<rparr>) d)
           | None \<Rightarrow> dir_add ps (if socket \<noteq> mcsock then socket else -1) ip port name d))"

text \<open>A message that gives a known peer a new socket.\<close>

definition moves :: "int \<Rightarrow> int \<Rightarrow> 32 word \<Rightarrow> 16 word \<Rightarrow> directory \<Rightarrow> bool" where
  "moves mcsock socket ip port d \<longleftrightarrow>
     d_sock d socket = None \<and> d_addr d (ip, port) \<noteq> None \<and> socket \<noteq> mcsock"

definition sender_of :: "cxx \<Rightarrow> 'w sbus \<Rightarrow> smsg \<Rightarrow> int \<times> directory" where
  "sender_of x b m =
     dir_sender (stale x (sb_contacts b)) (sb_name b) (ms_mcsock (sb_messenger b)) (SMsg_getSocket m)
       (SMsg_getIP m) (word_of_int (SMsg_getPort m)) (contacts_directory (sb_contacts b))"

definition moves_sender :: "'w sbus \<Rightarrow> smsg \<Rightarrow> bool" where
  "moves_sender b m \<longleftrightarrow>
     moves (ms_mcsock (sb_messenger b)) (SMsg_getSocket m) (SMsg_getIP m) (word_of_int (SMsg_getPort m))
       (contacts_directory (sb_contacts b))"

lemma dir_numbers:
  assumes "dir_ok d"
  shows "d_sock d s = Some k \<Longrightarrow> 0 < k" "d_addr d l = Some k \<Longrightarrow> 0 < k" "d_name d n = Some k \<Longrightarrow> 0 < k"
proof -
  have peer: "d_peer d k = Some p \<Longrightarrow> 0 < k" for k p
    using assms by (simp add: dir_ok_def)
  show "d_sock d s = Some k \<Longrightarrow> 0 < k"
    using assms peer unfolding dir_ok_def by blast
  show "d_name d n = Some k \<Longrightarrow> 0 < k"
    using assms peer unfolding dir_ok_def by blast
  show "d_addr d l = Some k \<Longrightarrow> 0 < k"
    using assms peer unfolding dir_ok_def by (cases l) blast
qed

lemma sender_positive:
  assumes "book_ok x (sb_contacts b)"
  shows "0 < fst (sender_of x b m)"
proof -
  have "0 \<le> d_last (contacts_directory (sb_contacts b))"
    using core_okD(1) [OF book_core(1) [OF assms]] by (simp add: contacts_directory_def)
  then show ?thesis
    using dir_numbers [OF book.dir_inv [OF assms]]
    by (auto simp: sender_of_def dir_sender_def dir_add_def dir_known_def Let_def split: option.split)
qed

text \<open>The table and the pointer that \<open>peer_of_message\<close> leaves.\<close>

definition located :: "cxx \<Rightarrow> 'w sbus \<Rightarrow> smsg \<Rightarrow> nat \<Rightarrow> contacts \<Rightarrow> bool" where
  "located x b m a c' \<longleftrightarrow> book_ok x c' \<and>
     (\<exists>p. (pi_peer p, contacts_directory c') = sender_of x b m \<and> tells c' a p \<and>
       (if moves_sender b m then co_heap (core_of c') a = Some (Freed p) else points_to c' a (pi_peer p)))"

lemma located_found:
  assumes "book_ok x c'" "points_to c' a k" "sender_of x b m = (k, contacts_directory c')" "\<not> moves_sender b m"
  shows "located x b m a c'"
  using points_to_tells [OF assms(1,2)] assms unfolding located_def by metis

lemma runs_peer_of_message:
  assumes ok: "book_ok x (sb_contacts b)" and room: "ct_lastPeerId (sb_contacts b) < 2147483647"
  shows "runs (peer_of_message x m) b (\<lambda>a b'. \<exists>c'. b' = b\<lparr>sb_contacts := c'\<rparr> \<and> located x b m a c')"
proof -
  let ?c = "sb_contacts b" and ?s = "SMsg_getSocket m" and ?ip = "SMsg_getIP m"
  let ?port = "word_of_int (SMsg_getPort m) :: 16 word" and ?mc = "ms_mcsock (sb_messenger b)"
  note f = finds [OF ok]
  note defs = sender_of_def moves_sender_def dir_sender_def moves_def
  note found = located_found [OF ok]
  have ask: "peer_of_message x m =
      bindp (on_contacts (getp (\<lambda>c. SContacts_findFromSocket c ?s))) (\<lambda>r. case r of Some a \<Rightarrow> ret a | None \<Rightarrow>
      bindp (on_contacts (getp (\<lambda>c. SContacts_findAddr c ?ip ?port))) (\<lambda>r.
      bindp (getp (\<lambda>b. (ms_mcsock (sb_messenger b), sb_name b))) (\<lambda>(mcsock, name). case r of
        None \<Rightarrow> on_contacts (SContacts_add x (if ?s \<noteq> mcsock then ?s else -1) ?ip ?port name)
      | Some a \<Rightarrow> if ?s \<noteq> mcsock then bindp (on_contacts (SContacts_updateSocket x a ?s)) (\<lambda>_. ret a) else ret a)))"
    by (simp add: peer_of_message_def Let_def SMessenger_getMulticastSocket_def)
  show ?thesis
  proof (cases "SContacts_findFromSocket ?c ?s")
    case (Some a)
    from f(2) [OF Some] obtain k where k: "points_to ?c a k" "d_sock (contacts_directory ?c) ?s = Some k"
      by blast
    have "located x b m a ?c"
      using k(2) by (intro found [OF k(1)]) (simp_all add: defs)
    with Some show ?thesis
      by (simp add: ask runs_bindp runs_on_bus runs_basic exI [of _ ?c])
  next
    case unknown: None
    then have sock: "d_sock (contacts_directory ?c) ?s = None"
      using f(1) by blast
    show ?thesis
    proof (cases "SContacts_findAddr ?c ?ip ?port")
      case (Some a)
      from f(4) [OF Some] obtain k where k: "points_to ?c a k" "d_addr (contacts_directory ?c) (?ip, ?port) = Some k"
        by blast
      show ?thesis
      proof (cases "?s = ?mc")
        case True
        have "located x b m a ?c"
          using k(2) sock True by (intro found [OF k(1)]) (simp_all add: defs)
        with Some unknown True show ?thesis
          by (simp add: ask runs_bindp runs_on_bus runs_basic exI [of _ ?c])
      next
        case False
        obtain p where p: "d_peer (contacts_directory ?c) k = Some p" "pi_peer p = k"
          using points_to_tells [OF ok k(1)] by metis
        have sender: "sender_of x b m = (k, dir_replace p (p\<lparr>pi_socket := ?s\<rparr>) (contacts_directory ?c))"
            "moves_sender b m"
          using sock k(2) p False by (simp_all add: defs)
        have "runs (SContacts_updateSocket x a ?s) ?c (\<lambda>_ c'. located x b m a c')"
          by (rule runs_mono [OF runs_updateSocket_book [OF ok k(1) p(1)]])
            (auto simp: located_def sender p(2) tells_def intro!: exI [of _ p])
        with Some unknown False show ?thesis
          by (auto simp: ask runs_bindp runs_on_bus runs_basic elim: runs_mono)
      qed
    next
      case None
      then have addr: "d_addr (contacts_directory ?c) (?ip, ?port) = None"
        using f(3) by blast
      let ?sock = "if ?s \<noteq> ?mc then ?s else -1"
      have sender: "sender_of x b m = dir_add (stale x ?c) ?sock ?ip ?port (sb_name b) (contacts_directory ?c)"
          "\<not> moves_sender b m"
        using sock addr by (simp_all add: defs)
      have last: "d_last (contacts_directory ?c) < 2147483647"
        using room by (simp add: contacts_directory_def)
      have "runs (SContacts_add x ?sock ?ip ?port (sb_name b)) ?c (\<lambda>a c'. located x b m a c')"
        by (rule runs_mono [OF book.add_law [OF ok last, of ?sock ?ip ?port "sb_name b"]])
          (use sender in \<open>auto intro: located_found\<close>)
      with unknown None show ?thesis
        by (auto simp: ask runs_bindp runs_on_bus runs_basic elim!: runs_mono)
    qed
  qed
qed

lemma located_alike:
  assumes "located x b m a c" "alike x c c'"
  shows "located x b m a c'"
  using assms(1) alikeD [OF assms(2)] by (auto simp: located_def split: if_splits)

text \<open>
  The first part of \<open>processSMsg\<close>: finding the sender, and the two questions put to it, which
  change times only.
\<close>

definition identify :: "cxx \<Rightarrow> smsg \<Rightarrow> ('w sbus, nat \<times> int) prog" where
  "identify x m =
     bindp (peer_of_message x m) (\<lambda>a.
     bindp (on_contacts (ask x a SPeerInfo_getPeer)) (\<lambda>peer.
     bindp (on_contacts (ask x a SPeerInfo_getSocket)) (\<lambda>_. ret (a, peer))))"

lemma process_data_identify:
  "process_data P x m =
     bindp (identify x m) (\<lambda>(a, peer). if SMsg_getMsgTag m \<le> 0 then process_system P x a peer m else ret peer)"
  by (simp add: process_data_def identify_def bindp_assoc)

lemma runs_identify:
  assumes ok: "book_ok x (sb_contacts b)" "ct_lastPeerId (sb_contacts b) < 2147483647"
  shows "runs (identify x m) b (\<lambda>(a, k) b'. \<exists>c'. b' = b\<lparr>sb_contacts := c'\<rparr> \<and> located x b m a c' \<and>
    (k, contacts_directory c') = sender_of x b m)" (is "runs _ _ ?Q")
proof -
  have asks: "runs (bindp (on_contacts (ask x a SPeerInfo_getPeer)) (\<lambda>peer.
     bindp (on_contacts (ask x a SPeerInfo_getSocket)) (\<lambda>_. ret (a, peer)))) (b\<lparr>sb_contacts := c\<rparr>) ?Q"
    if loc: "located x b m a c" for a c
  proof -
    obtain p where p: "(pi_peer p, contacts_directory c) = sender_of x b m" "tells c a p" "book_ok x c"
      using loc by (auto simp: located_def)
    have fin: "?Q (a, pi_peer p) (b\<lparr>sb_contacts := c2\<rparr>)" if "alike x c c1" "alike x c1 c2" for c1 c2
      using located_alike [OF loc] alike_trans [OF that] alikeD(2) p(1) by auto
    have mid: "runs (ask x a SPeerInfo_getSocket) c1 (\<lambda>_ c2. ?Q (a, pi_peer p) (b\<lparr>sb_contacts := c2\<rparr>))"
      if "alike x c c1" for c1
      using alikeD [OF that] p(2) fin [OF that] by (intro runs_ask_book [OF _ plain_getters(4)]) simp_all
    show ?thesis
      unfolding runs_bindp runs_on_bus
      by (rule runs_ask_book [OF _ plain_getters(1)]) (use p mid in \<open>simp_all add: runs_basic\<close>)
  qed
  then show ?thesis
    unfolding identify_def runs_bindp [of "peer_of_message _ _"]
    by (intro runs_mono [OF runs_peer_of_message [OF ok]]) auto
qed

end
