(* ===== verification/Bus_Messages.thy ===== *)
theory Bus_Messages
  imports Bus_Laws
begin

text \<open>
  What \<open>processSMsg\<close> does with each kind of message: user messages, the three system messages of the
  naming protocol, the bus's own messages and the errors.
\<close>

section \<open>Preparations\<close>

definition own_message :: "'w sbus \<Rightarrow> smsg \<Rightarrow> bool" where
  "own_message b m \<longleftrightarrow>
     SMsg_getIP m = ms_ip (sb_messenger b) \<and> SMsg_getPort m = uint (ms_port (sb_messenger b))"

text \<open>A bus that can process a message: its contacts are well formed and have a number left.\<close>

definition book_ready :: "cxx \<Rightarrow> 'w sbus \<Rightarrow> bool" where
  "book_ready x b \<longleftrightarrow> book_ok x (sb_contacts b) \<and> ct_lastPeerId (sb_contacts b) < 2147483647"

lemma process_cases:
  "SMsg_isError m \<Longrightarrow> SBus_processSMsg P x m = process_error x (SMsg_getSocket m)"
  "\<not> SMsg_isError m \<Longrightarrow> own_message b m \<Longrightarrow> SBus_processSMsg P x m b = Inr (-1, b)"
  "\<not> SMsg_isError m \<Longrightarrow> \<not> own_message b m \<Longrightarrow> SBus_processSMsg P x m b = process_data P x m b"
  by (simp_all add: SBus_processSMsg_def own_message_def SMessenger_getServerIP_def
      SMessenger_getServerPort_def bindp_def prog_simps del: de_Morgan_conj)

lemma runs_process_data:
  "\<not> SMsg_isError m \<Longrightarrow> \<not> own_message b m \<Longrightarrow>
   runs (SBus_processSMsg P x m) b Q = runs (process_data P x m) b Q"
  by (simp add: runs_def process_cases(3))

lemma runs_process:
  assumes "book_ready x b" "\<not> SMsg_isError m" "\<not> own_message b m"
    and tail: "\<And>a k c'. located x b m a c' \<Longrightarrow> (k, contacts_directory c') = sender_of x b m \<Longrightarrow>
      runs (if SMsg_getMsgTag m \<le> 0 then process_system P x a k m else ret k) (b\<lparr>sb_contacts := c'\<rparr>) Q"
  shows "runs (SBus_processSMsg P x m) b Q"
  unfolding runs_process_data [OF assms(2,3)] process_data_identify runs_bindp
  using assms(1)
  by (intro runs_mono [OF runs_identify]) (auto simp: book_ready_def split del: if_split intro!: tail)

lemma sbus_contacts:
  "sb_contacts (b\<lparr>sb_contacts := c\<rparr>) = c" "sb_name (b\<lparr>sb_contacts := c\<rparr>) = sb_name b"
  "sb_messenger (b\<lparr>sb_contacts := c\<rparr>) = sb_messenger b"
  "b\<lparr>sb_contacts := c, sb_contacts := c'\<rparr> = b\<lparr>sb_contacts := c'\<rparr>"
  by simp_all

lemma runs_process_system:
  "SMsg_getMsgTag m = SBUS_FIND \<Longrightarrow> runs (process_system P x a k m) b Q =
     runs (if sb_name b = SMsg_getMsg m then SBus_sendTo P x SBUS_MANAMEIS k (sb_name b) else ret 0) b (\<lambda>_. Q (-1))"
  "SMsg_getMsgTag m = SBUS_MANAMEIS \<Longrightarrow> runs (process_system P x a k m) b Q =
     runs (SContacts_updateName x a (SMsg_getMsg m)) (sb_contacts b) (\<lambda>_ c.
       runs (if sb_name b = SMsg_getMsg m then SBus_sendTo P x SBUS_NAMETAKEN k (sb_name b) else ret 0)
         (b\<lparr>sb_contacts := c\<rparr>) (\<lambda>_. Q k))"
  "SMsg_getMsgTag m = SBUS_NAMETAKEN \<Longrightarrow> runs (process_system P x a k m) b Q =
     runs (SContacts_updateName x a (SMsg_getMsg m)) (sb_contacts b) (\<lambda>_ c. Q k (b\<lparr>sb_contacts := c\<rparr>))"
  "SMsg_getMsgTag m < SBUS_NAMETAKEN \<Longrightarrow> runs (process_system P x a k m) b Q = Q k b"
  by (simp_all add: process_system_def Let_def runs_bindp runs_basic runs_on_bus split del: if_split)

lemma located_name:
  assumes "located x b m a c" "(k, contacts_directory c) = sender_of x b m" "\<not> moves_sender b m"
    "d_peer (contacts_directory c) k = Some p"
  shows "runs (SContacts_updateName x a name) c (\<lambda>_ c'. book_ok x c' \<and>
    contacts_directory c' = dir_replace p (p\<lparr>pi_name := name\<rparr>) (contacts_directory c))"
proof -
  have "book_ok x c" "points_to c a k"
    using assms(1-3) unfolding located_def by (auto split: if_splits) (metis fst_conv)
  from updateName_refines [OF this assms(4)] show ?thesis
    by (rule runs_mono) simp
qed

text \<open>A peer with a valid socket is reached over it.\<close>

lemma runs_peer2Socket_connected:
  assumes ok: "book_ok x (sb_contacts b)" and p: "d_peer (contacts_directory (sb_contacts b)) k = Some p"
    and s: "0 \<le> pi_socket p"
  shows "runs (SBus_peer2Socket P x k) b (\<lambda>r b'. r = pi_socket p \<and>
    (\<exists>c'. b' = b\<lparr>sb_contacts := c'\<rparr> \<and> alike x (sb_contacts b) c'))"
proof -
  obtain a where a: "SContacts_findPeer (sb_contacts b) k = Some a"
    using finds(5) [OF ok, of k] p by (cases "SContacts_findPeer (sb_contacts b) k") auto
  then have "points_to (sb_contacts b) a k"
    using book.find_names [OF ok] by blast
  then have "tells (sb_contacts b) a p"
    using points_to_tells [OF ok] p by (metis option.inject)
  then show ?thesis
    using a s by (auto simp: SBus_peer2Socket_def runs_bindp runs_basic runs_on_bus
        intro!: runs_ask_book [OF ok plain_getters(4)])
qed

lemma alike_book:
  "alike x c c' \<Longrightarrow> book_ok x c' \<and> contacts_directory c' = contacts_directory c"
  using alikeD(1,2) by blast

lemma runs_sendTo_connected:
  assumes "book_ok x (sb_contacts b)" "d_peer (contacts_directory (sb_contacts b)) k = Some p" "0 \<le> pi_socket p"
    and "SMessenger_sendTo P msgtag (pi_socket p) msg (sb_messenger b) = Inr (r, m')"
  shows "runs (SBus_sendTo P x msgtag k msg) b (\<lambda>r' b'. r' = r \<and> book_ok x (sb_contacts b') \<and>
    contacts_directory (sb_contacts b') = contacts_directory (sb_contacts b) \<and> sb_messenger b' = m')"
  unfolding SBus_sendTo_def runs_bindp
  using assms(3,4)
  by (intro runs_mono [OF runs_peer2Socket_connected [OF assms(1-3)]])
    (auto simp: runs_on_bus runs_basic dest!: alike_book, auto simp: runs_def)

text \<open>A sample bus, named bob, that knows one peer.\<close>

definition sample_bus :: "'w \<Rightarrow> 'w sbus" where
  "sample_bus w =
     \<lparr>sb_name = ''bob'', sb_messenger = sample_messenger w, sb_contacts = sample_contacts, sb_inq = [],
      sb_alive = True\<rparr>"

lemma sample_directory:
  "contacts_directory sample_contacts =
     \<lparr>d_last = 1, d_peer = [1 \<mapsto> sample_peer], d_addr = [(0x0A000001, 4000) \<mapsto> 1],
      d_name = [''alice'' \<mapsto> 1], d_sock = [7 \<mapsto> 1]\<rparr>"
  unfolding contacts_directory_def sample_contacts_core
  by (auto simp: dir_of_def who_def addr_eq fun_eq_iff)

lemma sample_bus_sel [simp]:
  "sb_name (sample_bus w) = ''bob''" "sb_contacts (sample_bus w) = sample_contacts"
  "sb_messenger (sample_bus w) = sample_messenger w"
  by (simp_all add: sample_bus_def)

lemma sample_ready: "book_ready (sample_cxx True 5) (sample_bus w)"
  by (simp add: book_ready_def book_ok_def sample_cxx_ok sample_contacts_ok sample_last)

lemma sample_ready': "forgiving (sample_cxx True 5)" "contacts_ok (sb_contacts (sample_bus w))"
  "ct_lastPeerId (sb_contacts (sample_bus w)) < 2147483647"
  by (simp_all add: sample_cxx_ok sample_contacts_ok sample_last)

definition sample_msg :: "int \<Rightarrow> int \<Rightarrow> string \<Rightarrow> smsg" where
  "sample_msg tag socket msg = SMsg_new tag 0x0A000001 4000 socket msg"

lemma sample_msg_sel [simp]:
  "\<not> SMsg_isError (sample_msg tag socket msg)" "SMsg_getMsgTag (sample_msg tag socket msg) = to_short tag"
  "SMsg_getSocket (sample_msg tag socket msg) = socket" "SMsg_getMsg (sample_msg tag socket msg) = msg"
  "\<not> own_message (sample_bus w) (sample_msg tag socket msg)"
  by (simp_all add: sample_msg_def SMsg_new_def SMsg_isError_def SMsg_getMsgTag_def SMsg_getSocket_def
      SMsg_getMsg_def own_message_def sample_messenger_def SMsg_getIP_def SMsg_getPort_def)

lemma sample_sender:
  "sender_of (sample_cxx True 5) (sample_bus w) (sample_msg tag 7 msg) = (1, contacts_directory sample_contacts)"
  "\<not> moves_sender (sample_bus w) (sample_msg tag 7 msg)"
  "moves_sender (sample_bus w) (sample_msg tag 8 msg)"
  by (simp_all add: sender_of_def dir_sender_def moves_sender_def moves_def sample_directory,
      simp add: sample_messenger_def sample_msg_def SMsg_new_def SMsg_getIP_def SMsg_getPort_def)

section \<open>Properties\<close>

lemma runs_user_message:
  assumes "book_ready x b" "\<not> SMsg_isError m" "\<not> own_message b m" "0 < SMsg_getMsgTag m"
  shows "runs (SBus_processSMsg P x m) b (\<lambda>k b'. \<exists>c'. b' = b\<lparr>sb_contacts := c'\<rparr> \<and> contacts_ok c' \<and>
    (k, contacts_directory c') = sender_of x b m)"
  using assms(4) by (intro runs_process [OF assms(1-3)]) (auto simp: runs_basic located_def book_ok_def)



text \<open>
  The bus ignores its own multicast messages: a message that carries its own address and
  server port changes nothing and is not delivered.
\<close>

theorem SBus_own_message:
  assumes "\<not> SMsg_isError m" "SMsg_getIP m = SMessenger_getServerIP (sb_messenger b)"
    "SMsg_getPort m = SMessenger_getServerPort (sb_messenger b)"
  shows "SBus_processSMsg P x m b = Inr (-1, b)"
  using assms
  by (intro process_cases(2)) (simp_all add: own_message_def SMessenger_getServerIP_def SMessenger_getServerPort_def)

theorem SBus_own_message_witness:
  "SBus_processSMsg null_posix (sample_cxx True 5) (SMsg_new 3 1 80 5 ''me'') (sample_bus ()) = Inr (-1, sample_bus ())"
  by (rule SBus_own_message)
    (simp_all add: SMsg_new_def SMsg_isError_def SMsg_getIP_def SMsg_getPort_def sample_messenger_def
      SMessenger_getServerIP_def SMessenger_getServerPort_def)


lemma sample_sendTo:
  assumes "length msg \<le> 1048576"
  shows "SMessenger_sendTo null_posix tag fd msg (sample_messenger w) = Inr (0, sample_messenger w)"
  using assms
  by (simp add: SMessenger_sendTo_def stcp_getLocalPort_def stcp_send_def null_posix_def bindp_def prog_simps
      on_world_def zoom_def sample_messenger_def)






text \<open>
  C12: strangers are confused. A new peer is entered under the name of the bus itself, and an
  unknown location is then looked up by that name: while the first stranger has not said its
  name, every other stranger that writes over multicast is taken for it. The two messages below
  come from different locations and are delivered with the same peer number, so that an answer to
  the second goes to the first.
\<close>

theorem SBus_strangers_confused:
  assumes "forgiving x" "contacts_ok (sb_contacts b)" "ct_lastPeerId (sb_contacts b) + 1 < 2147483647"
    and msgs: "\<forall>m \<in> {m1, m2}. \<not> SMsg_isError m \<and> \<not> own_message b m \<and> 0 < SMsg_getMsgTag m \<and>
      SMsg_getSocket m = ms_mcsock (sb_messenger b) \<and> SContacts_findAddr (sb_contacts b) (SMsg_getIP m) (word_of_int (SMsg_getPort m)) = None"
    and "SMsg_getIP m1 \<noteq> SMsg_getIP m2" "ms_mcsock (sb_messenger b) \<noteq> -1"
    and "SContacts_findFromSocket (sb_contacts b) (ms_mcsock (sb_messenger b)) = None"
    and "SContacts_findName (sb_contacts b) (sb_name b) = None"
  shows "runs (bindp (SBus_processSMsg P x m1) (\<lambda>k1. bindp (SBus_processSMsg P x m2) (\<lambda>k2. ret (k1, k2)))) b
    (\<lambda>(k1, k2) _. k1 = k2)"
proof -
  let ?c = "sb_contacts b" and ?mc = "ms_mcsock (sb_messenger b)"
  let ?d = "contacts_directory ?c" and ?k = "ct_lastPeerId ?c + 1"
  let ?p = "SPeerInfo_new 0 ?k (-1) (SMsg_getIP m1) (word_of_int (SMsg_getPort m1)) (sb_name b)"
  have ready: "book_ready x b" and ok: "book_ok x ?c"
    using assms by (simp_all add: book_ready_def book_ok_def)
  have last: "d_last ?d = ct_lastPeerId ?c"
    by (simp add: contacts_directory_def)
  have unknown: "d_sock ?d ?mc = None" "d_name ?d (sb_name b) = None"
      "d_addr ?d (SMsg_getIP m1, word_of_int (SMsg_getPort m1)) = None"
      "d_addr ?d (SMsg_getIP m2, word_of_int (SMsg_getPort m2)) = None"
    using assms(7,8) msgs by (simp_all add: finds(1,3) [OF ok] find_name [OF ok])
  let ?d1 = "dir_enter ?p ((fold dir_remove (stale x ?c) ?d)\<lparr>d_last := ?k\<rparr>)"
  have first: "sender_of x b m1 = (?k, ?d1)"
    using msgs unknown last by (simp add: sender_of_def dir_sender_def dir_add_def dir_known_def Let_def)
  have second: "sender_of x (b\<lparr>sb_contacts := c1\<rparr>) m2 = (?k, ?d1)" if "contacts_directory c1 = ?d1" for c1
    using msgs assms(5,6) unknown fold_remove_None
    by (simp add: sender_of_def dir_sender_def dir_add_def dir_known_def that SPeerInfo_new_def)
  have step1: "runs (SBus_processSMsg P x m1) b (\<lambda>k b'. k = ?k \<and> (\<exists>c1. b' = b\<lparr>sb_contacts := c1\<rparr> \<and>
      book_ok x c1 \<and> contacts_directory c1 = ?d1))"
    using msgs first by (intro runs_process [OF ready]) (auto simp: runs_basic located_def)
  have step2: "runs (SBus_processSMsg P x m2) (b\<lparr>sb_contacts := c1\<rparr>) (\<lambda>k _. k = ?k)"
    if c1: "book_ok x c1" "contacts_directory c1 = ?d1" for c1
  proof (rule runs_process)
    have "ct_lastPeerId c1 = ?k"
      using arg_cong [OF c1(2), of d_last] by (simp add: contacts_directory_def)
    then show "book_ready x (b\<lparr>sb_contacts := c1\<rparr>)"
      using c1(1) assms(3) by (simp add: book_ready_def)
  qed (use msgs second [OF c1(2)] in \<open>auto simp: runs_basic own_message_def\<close>)
  show ?thesis
    unfolding runs_bindp
    by (rule runs_mono [OF step1]) (auto simp: runs_basic intro!: runs_mono [OF step2])
qed

theorem SBus_strangers_confused_witness:
  "runs (bindp (SBus_processSMsg null_posix (sample_cxx True 5) (SMsg_new 9 2 4000 5 ''one''))
      (\<lambda>k1. bindp (SBus_processSMsg null_posix (sample_cxx True 5) (SMsg_new 9 3 4000 5 ''two'')) (\<lambda>k2. ret (k1, k2))))
    (sample_bus ()) (\<lambda>(k1, k2) _. k1 = k2)"
  by (rule SBus_strangers_confused [OF sample_ready'(1,2)])
    (simp_all add: sample_last SMsg_new_def SMsg_isError_def SMsg_getMsgTag_def SMsg_getSocket_def SMsg_getIP_def
      SMsg_getPort_def own_message_def sample_messenger_def to_short_def sample_contacts_def SContacts_findAddr_def
      SContacts_findName_def SContacts_findFromSocket_def hm_find_def addr_eq)

text \<open>
  C13: a name message over a new connection from a known location frees the peer twice. The pointer
  that \<open>updateSocket\<close> returns is dropped, and \<open>updateName\<close> deletes the object that \<open>updateSocket\<close> has
  deleted: even a runtime that forgives the reads ends in a fault. A remote program can choose
  tag and port of its messages, so it can bring the bus down.
\<close>

theorem SBus_double_delete:
  assumes "forgiving x" "contacts_ok (sb_contacts b)" "ct_lastPeerId (sb_contacts b) < 2147483647"
    and "\<not> SMsg_isError m" "\<not> own_message b m" "moves_sender b m"
    and "SMsg_getMsgTag m = SBUS_MANAMEIS \<or> SMsg_getMsgTag m = SBUS_NAMETAKEN"
  shows "SBus_processSMsg P x m b = Inl Use_After_Free"
proof -
  have ok: "book_ok x (sb_contacts b)"
    using assms by (simp add: book_ok_def)
  have crash: "process_system P x a k m (b\<lparr>sb_contacts := c'\<rparr>) = Inl Use_After_Free"
    if loc: "located x b m a c'" for a k c'
  proof -
    obtain p where "book_ok x c'" "co_heap (core_of c') a = Some (Freed p)"
      using loc assms(6) by (auto simp: located_def)
    from updateName_freed [OF this] have "SContacts_updateName x a (SMsg_getMsg m) c' = Inl Use_After_Free" .
    then show ?thesis
      using assms(7) by (auto simp: process_system_def Let_def bindp_def getp_def on_contacts_def zoom_def)
  qed
  have "runs (identify x m) b (\<lambda>(a, k) b'. fails (process_system P x a k m) b' Use_After_Free)"
    by (rule runs_mono [OF runs_identify [OF ok assms(3)]]) (use crash in \<open>auto simp: fails_def\<close>)
  then have "fails (process_data P x m) b Use_After_Free"
    unfolding process_data_identify
    using assms(7) by (intro fails_after) (auto elim!: runs_mono)
  then show ?thesis
    using process_cases(3) [OF assms(4,5)] by (simp add: fails_def)
qed

theorem SBus_double_delete_witness:
  "SBus_processSMsg null_posix (sample_cxx True 5) (sample_msg (-1) 8 ''eve'') (sample_bus ()) = Inl Use_After_Free"
  by (rule SBus_double_delete [OF sample_ready']) (simp_all add: sample_sender to_short_def)

end
