(* ===== verification/Bus_Client.thy ===== *)
theory Bus_Client
  imports Bus_Messages
begin

text \<open>
  The bus as its client sees it: sending to a peer, receiving, and the invariant that all of it
  keeps.
\<close>

section \<open>Sending to a peer\<close>

lemma book_of: "forgiving x \<Longrightarrow> contacts_ok c \<Longrightarrow> book_ok x c"
  by (simp add: book_ok_def)

lemma ask_book:
  assumes "book_ok x c" "plain_getter g f" "tells c a p"
  obtains c' where "ask x a g c = Inr (f p, c')" "alike x c c'"
proof -
  have "runs (ask x a g) c (\<lambda>v c'. v = f p \<and> alike x c c')"
    by (rule runs_ask_book [OF assms]) simp
  then show ?thesis
    using that by (auto simp: runs_Inr)
qed

lemma peer2Socket_lost:
  assumes ok: "book_ok x (sb_contacts b)" and p: "d_peer (contacts_directory (sb_contacts b)) k = Some p"
    and s: "pi_socket p < 0"
  obtains a c' where "alike x (sb_contacts b) c'" "points_to c' a k" "tells c' a p"
    "SBus_peer2Socket P x k b = reconnect P x a (pi_ip p) (pi_port p) (b\<lparr>sb_contacts := c'\<rparr>)"
proof -
  obtain a where a: "SContacts_findPeer (sb_contacts b) k = Some a"
    using finds(5) [OF ok, of k] p by (cases "SContacts_findPeer (sb_contacts b) k") auto
  then have pt: "points_to (sb_contacts b) a k"
    using book.find_names [OF ok] by blast
  then have t: "tells (sb_contacts b) a p"
    using points_to_tells [OF ok] p by (metis option.inject)
  obtain c1 where c1: "ask x a SPeerInfo_getSocket (sb_contacts b) = Inr (pi_socket p, c1)" "alike x (sb_contacts b) c1"
    using ask_book [OF ok plain_getters(4) t] .
  obtain c2 where c2: "ask x a SPeerInfo_getIP c1 = Inr (pi_ip p, c2)" "alike x c1 c2"
    using ask_book [OF alikeD(1) [OF c1(2)] plain_getters(2)] alikeD(4) [OF c1(2)] t by blast
  note al2 = alike_trans [OF c1(2) c2(2)]
  obtain c3 where c3: "ask x a SPeerInfo_getPort c2 = Inr (pi_port p, c3)" "alike x c2 c3"
    using ask_book [OF alikeD(1) [OF al2] plain_getters(3)] alikeD(4) [OF al2] t by blast
  note al3 = alike_trans [OF al2 c3(2)]
  have "SBus_peer2Socket P x k b = reconnect P x a (pi_ip p) (pi_port p) (b\<lparr>sb_contacts := c3\<rparr>)"
    using a s by (simp add: SBus_peer2Socket_def bindp_def on_contacts_def zoom_def getp_def c1(1) c2(1) c3(1))
  with al3 show ?thesis
    using that pt t alikeD(3,4) by blast
qed

lemma runs_peer2Socket_lost:
  assumes "book_ok x (sb_contacts b)" "d_peer (contacts_directory (sb_contacts b)) k = Some p" "pi_socket p < 0"
    and "\<And>a c'. alike x (sb_contacts b) c' \<Longrightarrow> points_to c' a k \<Longrightarrow>
      runs (reconnect P x a (pi_ip p) (pi_port p)) (b\<lparr>sb_contacts := c'\<rparr>) Q"
  shows "runs (SBus_peer2Socket P x k) b Q"
proof -
  obtain a c' where "alike x (sb_contacts b) c'" "points_to c' a k"
    and eq: "SBus_peer2Socket P x k b = reconnect P x a (pi_ip p) (pi_port p) (b\<lparr>sb_contacts := c'\<rparr>)"
    by (rule peer2Socket_lost [OF assms(1-3)])
  from assms(4) [OF this(1,2)] show ?thesis
    by (simp add: runs_def eq)
qed

text \<open>A peer without a socket, but with an address, is connected to and its new socket filed.\<close>

lemma runs_sendTo_reconnected:
  assumes ok: "book_ok x (sb_contacts b)" and p: "d_peer (contacts_directory (sb_contacts b)) k = Some p" "pi_socket p < 0"
    and ip: "pi_ip p \<noteq> -1" and conn: "SMessenger_connect P (pi_ip p) (pi_port p) (sb_messenger b) = Inr (fd, m1)"
    and fd: "0 \<le> fd" and sent: "SMessenger_sendTo P msgtag fd msg m1 = Inr (r, m')"
  shows "runs (SBus_sendTo P x msgtag k msg) b (\<lambda>r' b'. r' = r \<and> sb_messenger b' = m' \<and> sb_inq b' = sb_inq b \<and>
    sb_name b' = sb_name b \<and> book_ok x (sb_contacts b') \<and>
    contacts_directory (sb_contacts b') = dir_replace p (p\<lparr>pi_socket := fd\<rparr>) (contacts_directory (sb_contacts b)))"
    (is "runs _ _ ?Q")
  unfolding SBus_sendTo_def runs_bindp
proof (rule runs_peer2Socket_lost [OF ok p])
  have connect: "runs (SMessenger_connect P (pi_ip p) (pi_port p)) (sb_messenger b) R \<longleftrightarrow> R fd m1"
    and send: "runs (SMessenger_sendTo P msgtag fd msg) m1 S \<longleftrightarrow> S r m'" for R S
    using conn sent by (simp_all add: runs_def)
  fix a c'
  assume c': "alike x (sb_contacts b) c'" "points_to c' a k"
  have p': "d_peer (contacts_directory c') k = Some p"
    using p(1) alike_book [OF c'(1)] by simp
  have "runs (SContacts_updateSocket x a fd) c' (\<lambda>_ c2. ?Q r (b\<lparr>sb_contacts := c2, sb_messenger := m'\<rparr>))"
    by (rule runs_mono [OF updateSocket_refines [OF alikeD(1) [OF c'(1)] c'(2) p']])
      (use alike_book [OF c'(1)] in simp)
  then show "runs (reconnect P x a (pi_ip p) (pi_port p)) (b\<lparr>sb_contacts := c'\<rparr>)
      (\<lambda>socket s'. runs (if socket < 0 then ret (- 1)
        else on_messenger (SMessenger_sendTo P msgtag socket msg)) s' ?Q)"
    using ip fd send
    by (simp add: reconnect_def connect runs_bindp [of "on_messenger _"] runs_bindp [of "on_contacts _"] runs_on_bus runs_basic)
qed

section \<open>Properties of sending\<close>

text \<open>
  C27: sending to a peer. A number that names no peer gives \<open>-1\<close> and changes nothing. A peer with a
  socket is sent the message over it. A peer without one is connected to, if its address is known:
  when that fails the result is \<open>-1\<close>, else the new socket is filed with the peer and the message
  sent over it.
\<close>

theorem SBus_sendTo_result:
  assumes "forgiving x" "contacts_ok (sb_contacts b)"
  shows "(d_peer (contacts_directory (sb_contacts b)) k = None \<longrightarrow> SBus_sendTo P x msgtag k msg b = Inr (-1, b)) \<and>
    (\<forall>p r m'. d_peer (contacts_directory (sb_contacts b)) k = Some p \<and> 0 \<le> pi_socket p \<and>
       SMessenger_sendTo P msgtag (pi_socket p) msg (sb_messenger b) = Inr (r, m') \<longrightarrow>
       runs (SBus_sendTo P x msgtag k msg) b (\<lambda>r' b'. r' = r \<and> sb_messenger b' = m' \<and>
         contacts_directory (sb_contacts b') = contacts_directory (sb_contacts b))) \<and>
    (\<forall>p fd m1. d_peer (contacts_directory (sb_contacts b)) k = Some p \<and> pi_socket p < 0 \<and> pi_ip p \<noteq> -1 \<and>
       SMessenger_connect P (pi_ip p) (pi_port p) (sb_messenger b) = Inr (fd, m1) \<longrightarrow>
       (fd < 0 \<longrightarrow> runs (SBus_sendTo P x msgtag k msg) b (\<lambda>r' b'. r' = -1 \<and> sb_messenger b' = m1 \<and>
         contacts_directory (sb_contacts b') = contacts_directory (sb_contacts b))) \<and>
       (\<forall>r m'. 0 \<le> fd \<and> SMessenger_sendTo P msgtag fd msg m1 = Inr (r, m') \<longrightarrow>
         runs (SBus_sendTo P x msgtag k msg) b (\<lambda>r' b'. r' = r \<and> sb_messenger b' = m' \<and>
           contacts_directory (sb_contacts b') =
             dir_replace p (p\<lparr>pi_socket := fd\<rparr>) (contacts_directory (sb_contacts b)))))"
proof (intro conjI allI impI; (elim conjE)?)
  note ok = book_of [OF assms]
  show "SBus_sendTo P x msgtag k msg b = Inr (-1, b)" if "d_peer (contacts_directory (sb_contacts b)) k = None"
    using that finds(5) [OF ok, of k]
    by (simp add: SBus_sendTo_def SBus_peer2Socket_def on_contacts_def zoom_def bindp_def getp_def ret_def)
  show "runs (SBus_sendTo P x msgtag k msg) b (\<lambda>r' b'. r' = r \<and> sb_messenger b' = m' \<and>
         contacts_directory (sb_contacts b') = contacts_directory (sb_contacts b))"
    if "d_peer (contacts_directory (sb_contacts b)) k = Some p" "0 \<le> pi_socket p"
      "SMessenger_sendTo P msgtag (pi_socket p) msg (sb_messenger b) = Inr (r, m')" for p r m'
    by (rule runs_mono [OF runs_sendTo_connected [OF ok that]]) simp
  fix p fd m1
  assume p: "d_peer (contacts_directory (sb_contacts b)) k = Some p" "pi_socket p < 0" "pi_ip p \<noteq> -1"
    and conn: "SMessenger_connect P (pi_ip p) (pi_port p) (sb_messenger b) = Inr (fd, m1)"
  note lost = runs_peer2Socket_lost [OF ok p(1,2)]
  have connect: "runs (SMessenger_connect P (pi_ip p) (pi_port p)) (sb_messenger b) R \<longleftrightarrow> R fd m1" for R
    using conn by (simp add: runs_def)
  show "runs (SBus_sendTo P x msgtag k msg) b (\<lambda>r' b'. r' = -1 \<and> sb_messenger b' = m1 \<and>
         contacts_directory (sb_contacts b') = contacts_directory (sb_contacts b))" if "fd < 0"
    unfolding SBus_sendTo_def runs_bindp
    by (rule lost) (use p(3) that in \<open>auto simp: reconnect_def connect runs_on_bus runs_bindp runs_basic dest!: alike_book\<close>)
  fix r m'
  assume fd: "0 \<le> fd" and sent: "SMessenger_sendTo P msgtag fd msg m1 = Inr (r, m')"
  show "runs (SBus_sendTo P x msgtag k msg) b (\<lambda>r' b'. r' = r \<and> sb_messenger b' = m' \<and>
         contacts_directory (sb_contacts b') =
           dir_replace p (p\<lparr>pi_socket := fd\<rparr>) (contacts_directory (sb_contacts b)))"
    by (rule runs_mono [OF runs_sendTo_reconnected [OF ok p conn fd sent]]) simp
qed

lemma sample_peer_known: "d_peer (contacts_directory (sb_contacts (sample_bus w))) 1 = Some sample_peer"
  by (simp add: sample_directory)

theorem SBus_sendTo_result_witness:
  "SBus_sendTo null_posix (sample_cxx True 5) 9 2 ''hi'' (sample_bus ()) = Inr (-1, sample_bus ()) \<and>
   runs (SBus_sendTo null_posix (sample_cxx True 5) 9 1 ''hi'') (sample_bus ()) (\<lambda>r b'. r = 0 \<and>
     sb_messenger b' = sample_messenger () \<and>
     contacts_directory (sb_contacts b') = contacts_directory (sb_contacts (sample_bus ())))"
proof
  show "SBus_sendTo null_posix (sample_cxx True 5) 9 2 ''hi'' (sample_bus ()) = Inr (-1, sample_bus ())"
    by (rule SBus_sendTo_result [OF sample_ready'(1,2), THEN conjunct1, rule_format]) (simp add: sample_directory)
  show "runs (SBus_sendTo null_posix (sample_cxx True 5) 9 1 ''hi'') (sample_bus ()) (\<lambda>r b'. r = 0 \<and>
     sb_messenger b' = sample_messenger () \<and>
     contacts_directory (sb_contacts b') = contacts_directory (sb_contacts (sample_bus ())))"
    by (rule SBus_sendTo_result [OF sample_ready'(1,2), THEN conjunct2, THEN conjunct1,
          THEN spec [of _ sample_peer], rule_format])
      (simp_all add: sample_directory sample_sendTo)
qed

section \<open>Receiving\<close>

lemma recv_own:
  assumes "sb_inq b = m # q" "\<not> SMsg_isError m" "own_message b m"
  shows "SBus_recv (Suc n) P x b = SBus_recv n P x (b\<lparr>sb_inq := q\<rparr>)"
proof -
  have "SBus_processSMsg P x m (b\<lparr>sb_inq := q\<rparr>) = Inr (-1, b\<lparr>sb_inq := q\<rparr>)"
    using assms(2,3) by (intro process_cases(2)) (simp_all add: own_message_def)
  then show ?thesis
    using assms(1) by (simp add: bindp_def getp_def modp_def)
qed

lemma recv_skips_own:
  assumes "sb_inq b = own @ q" "\<forall>m' \<in> set own. \<not> SMsg_isError m' \<and> own_message b m'"
  shows "SBus_recv (length own + n) P x b = SBus_recv n P x (b\<lparr>sb_inq := q\<rparr>)"
  using assms
proof (induction own arbitrary: b)
  case (Cons m own)
  have "SBus_recv (length (m # own) + n) P x b = SBus_recv (length own + n) P x (b\<lparr>sb_inq := own @ q\<rparr>)"
    using Cons.prems recv_own [of b m "own @ q" "length own + n"] by simp
  also have "\<dots> = SBus_recv n P x (b\<lparr>sb_inq := q\<rparr>)"
    using Cons.IH [of "b\<lparr>sb_inq := own @ q\<rparr>"] Cons.prems(2) by (simp add: own_message_def)
  finally show ?case .
next
  case Nil
  then show ?case
    by (cases b) simp
qed

text \<open>
  C28: \<open>recv\<close> gives the client the first message of the queue that is for it. Messages of the bus
  itself that come before it are dropped; the message, its tag, its length and the number of its
  sender are returned, and what comes after it stays in the queue.
\<close>

theorem SBus_recv_returns:
  assumes "forgiving x" "contacts_ok (sb_contacts b)" "ct_lastPeerId (sb_contacts b) < 2147483647"
    and "sb_inq b = own @ m # rest" "\<forall>m' \<in> set own. \<not> SMsg_isError m' \<and> own_message b m'" "length own < n"
    and "\<not> SMsg_isError m" "\<not> own_message b m" "0 < SMsg_getMsgTag m"
  shows "runs (SBus_recv n P x) b (\<lambda>(len, tag, peer, msg) b'.
    len = int (length (SMsg_getMsg m)) \<and> tag = SMsg_getMsgTag m \<and> msg = SMsg_getMsg m \<and> sb_inq b' = rest \<and>
    (peer, contacts_directory (sb_contacts b')) = sender_of x b m)"
proof -
  let ?b = "b\<lparr>sb_inq := rest\<rparr>"
  obtain n' where n: "n = length own + Suc n'"
    using assms(6) by (metis add_Suc_right less_natE)
  have b: "sender_of x ?b m = sender_of x b m" "\<not> own_message ?b m" "book_ready x ?b"
    using assms by (simp_all add: sender_of_def own_message_def book_ready_def book_ok_def)
  have pos: "0 \<le> k" if "(k, contacts_directory c') = sender_of x b m" for k c'
    using sender_positive [of x b m] assms(1,2) by (simp add: book_of that [symmetric])
  have "runs (SBus_recv (Suc n') P x) (b\<lparr>sb_inq := m # rest\<rparr>) (\<lambda>(len, tag, peer, msg) b'.
    len = int (length (SMsg_getMsg m)) \<and> tag = SMsg_getMsgTag m \<and> msg = SMsg_getMsg m \<and> sb_inq b' = rest \<and>
    (peer, contacts_directory (sb_contacts b')) = sender_of x b m)"
    using runs_user_message [OF b(3) assms(7) b(2) assms(9), of P] pos
    by (auto simp: runs_bindp runs_basic b(1) elim!: runs_mono)
  then show ?thesis
    unfolding n runs_def recv_skips_own [OF assms(4,5)] .
qed

theorem SBus_recv_returns_witness:
  "runs (SBus_recv 2 null_posix (sample_cxx True 5))
     ((sample_bus ())\<lparr>sb_inq := [SMsg_new 3 1 80 5 ''me'', sample_msg 9 7 ''hi'', sample_msg 9 7 ''ho'']\<rparr>)
     (\<lambda>(len, tag, peer, msg) b'. len = int (length (SMsg_getMsg (sample_msg 9 7 ''hi''))) \<and>
        tag = SMsg_getMsgTag (sample_msg 9 7 ''hi'') \<and> msg = SMsg_getMsg (sample_msg 9 7 ''hi'') \<and>
        sb_inq b' = [sample_msg 9 7 ''ho''] \<and>
        (peer, contacts_directory (sb_contacts b')) = sender_of (sample_cxx True 5)
          ((sample_bus ())\<lparr>sb_inq := [SMsg_new 3 1 80 5 ''me'', sample_msg 9 7 ''hi'', sample_msg 9 7 ''ho'']\<rparr>)
          (sample_msg 9 7 ''hi''))"
proof (rule SBus_recv_returns [where own = "[SMsg_new 3 1 80 5 ''me'']"])
  let ?b = "(sample_bus ())\<lparr>sb_inq := [SMsg_new 3 1 80 5 ''me'', sample_msg 9 7 ''hi'', sample_msg 9 7 ''ho'']\<rparr>"
  show "\<forall>m \<in> set [SMsg_new 3 1 80 5 ''me'']. \<not> SMsg_isError m \<and> own_message ?b m"
    by (simp add: own_message_def SMsg_new_def SMsg_isError_def SMsg_getIP_def SMsg_getPort_def sample_messenger_def)
  show "\<not> own_message ?b (sample_msg 9 7 ''hi'')"
    using sample_msg_sel(5) [of "()"] by (simp add: own_message_def)
qed (use sample_ready' in \<open>simp_all add: to_short_def\<close>)

text \<open>
  \<open>recv\<close> blocks. While the queue stays empty, or holds only messages of the bus itself, it goes
  on looking for ever: no number of turns of its loop gives a result, so the result 0 for no
  message, of which the documentation speaks, is only ever the length of an empty message.
\<close>

theorem SBus_recv_blocks:
  assumes "sb_inq b = own" "\<forall>m \<in> set own. \<not> SMsg_isError m \<and> own_message b m"
  shows "SBus_recv n P x b = Inl No_Fuel"
proof -
  have empty: "sb_inq b = [] \<Longrightarrow> SBus_recv n P x b = Inl No_Fuel" for n b
    by (induction n arbitrary: b)
      (simp_all add: faultp_def bindp_def getp_def on_messenger_def on_world_def zoom_def modp_def)
  show ?thesis
    using assms
  proof (induction n arbitrary: b own)
    case (Suc n)
    show ?case
    proof (cases own)
      case Nil
      then show ?thesis
        using Suc.prems(1) empty by blast
    next
      case (Cons m q)
      then have "SBus_recv (Suc n) P x b = SBus_recv n P x (b\<lparr>sb_inq := q\<rparr>)"
        using Suc.prems by (intro recv_own [of b m]) simp_all
      also have "\<dots> = Inl No_Fuel"
        using Suc.prems Cons by (intro Suc.IH [of _ q]) (simp_all add: own_message_def)
      finally show ?thesis .
    qed
  qed (simp add: faultp_def)
qed

theorem SBus_recv_blocks_witness:
  "SBus_recv 100 null_posix (sample_cxx True 5) ((sample_bus ())\<lparr>sb_inq := [SMsg_new 3 1 80 5 ''me'']\<rparr>) = Inl No_Fuel"
  by (rule SBus_recv_blocks [where own = "[SMsg_new 3 1 80 5 ''me'']"])
    (simp_all add: own_message_def SMsg_new_def SMsg_isError_def SMsg_getIP_def SMsg_getPort_def sample_messenger_def)

end
