(* ===== verification/Bus_Invariant.thy ===== *)
theory Bus_Invariant
  imports Bus_Client
begin

text \<open>
  The invariant of a bus: its registry of descriptors is well formed and its contacts are
  consistent. Every operation keeps it, whatever messages arrive and whatever the system answers,
  on a runtime that forgives what the contacts do with freed objects.
\<close>

definition bus_ok :: "'w posix \<Rightarrow> cxx \<Rightarrow> 'w sbus \<Rightarrow> bool" where
  "bus_ok P x b \<longleftrightarrow> registry_ok P (sb_messenger b) \<and> book_ok x (sb_contacts b)"

lemma bus_ok_parts [simp]:
  "bus_ok P x (b\<lparr>sb_name := n\<rparr>) = bus_ok P x b" "bus_ok P x (b\<lparr>sb_inq := q\<rparr>) = bus_ok P x b"
  "bus_ok P x (b\<lparr>sb_alive := l\<rparr>) = bus_ok P x b"
  "bus_ok P x (b\<lparr>sb_contacts := c\<rparr>) \<longleftrightarrow> registry_ok P (sb_messenger b) \<and> book_ok x c"
  "bus_ok P x (b\<lparr>sb_messenger := m\<rparr>) \<longleftrightarrow> registry_ok P m \<and> book_ok x (sb_contacts b)"
  by (simp_all add: bus_ok_def)

lemma keeps_on_messenger [keeps_rules]:
  "keeps (registry_ok P) m \<Longrightarrow> keeps (bus_ok P x) (on_messenger m)"
  unfolding on_messenger_def by (rule keeps_zoom) (simp_all add: bus_ok_def)

lemma keeps_on_contacts: "keeps (book_ok x) m \<Longrightarrow> keeps (bus_ok P x) (on_contacts m)"
  unfolding on_contacts_def by (rule keeps_zoom) (simp_all add: bus_ok_def)

lemma keeps_find [keeps_rules]: "keeps (bus_ok P x) (on_contacts (getp f))"
  by (intro keeps_on_contacts keeps_rules)

lemma keeps_sending [keeps_rules]:
  "keeps (bus_ok P x) (SBus_send P msgtag msg)" "keeps (bus_ok P x) (SBus_sendTag P msgtag)"
  "keeps (bus_ok P x) (SBus_setName P name)" "keeps (bus_ok P x) SBus_setDefaultSafeName"
  unfolding SBus_send_def SBus_sendTag_def SBus_setName_def SBus_setDefaultSafeName_def
  by (intro keeps_rules; simp)+

section \<open>Pointers\<close>

text \<open>What the bus holds when it calls an operation of the contacts: a pointer to a filed or freed peer.\<close>

definition held :: "contacts \<Rightarrow> nat \<Rightarrow> bool" where
  "held c a \<longleftrightarrow>
     (\<exists>p. tells c a p \<and> (points_to c a (pi_peer p) \<or> co_heap (core_of c) a = Some (Freed p)))"

lemma held_points_to: "book_ok x c \<Longrightarrow> points_to c a k \<Longrightarrow> held c a"
  using points_to_tells unfolding held_def by metis

lemma held_alike: "alike x c c' \<Longrightarrow> held c a \<Longrightarrow> held c' a"
  using alikeD(3-5) unfolding held_def by metis

lemma safe_ask_held:
  assumes "book_ok x c" "held c a" "plain_getter g f"
  shows "safe (ask x a g) c (\<lambda>_ c'. book_ok x c' \<and> held c' a)"
proof -
  obtain p where "tells c a p"
    using assms(2) by (auto simp: held_def)
  then show ?thesis
    using assms alikeD(1) held_alike by (intro runs_safe runs_ask_book [OF assms(1,3)]) auto
qed

lemma safe_updateName_held:
  assumes "book_ok x c" "held c a"
  shows "safe (SContacts_updateName x a name) c (\<lambda>_. book_ok x)"
proof -
  obtain p where "tells c a p" "points_to c a (pi_peer p) \<or> co_heap (core_of c) a = Some (Freed p)"
    using assms(2) by (auto simp: held_def)
  then show ?thesis
  proof (elim disjE)
    assume a: "points_to c a (pi_peer p)"
    then obtain q where "d_peer (contacts_directory c) (pi_peer p) = Some q"
      using points_to_tells [OF assms(1)] by metis
    then show ?thesis
      by (rule runs_safe [OF runs_mono [OF updateName_refines [OF assms(1) a]]]) simp
  next
    assume "co_heap (core_of c) a = Some (Freed p)"
    from updateName_freed [OF assms(1) this] show ?thesis
      by (simp add: safe_def)
  qed
qed

lemma safe_updateSocket_points:
  assumes "book_ok x c" "points_to c a k"
  shows "safe (SContacts_updateSocket x a socket) c (\<lambda>b c'. book_ok x c' \<and> held c' a \<and> held c' b)"
proof -
  obtain p where p: "d_peer (contacts_directory c) k = Some p"
    using points_to_tells [OF assms] by metis
  have "held c' a" if "co_heap (core_of c') a = Some (Freed p)" for c'
    using that by (auto simp: held_def tells_def)
  then show ?thesis
    by (intro runs_safe runs_mono [OF runs_updateSocket_book [OF assms p]]) (auto intro: held_points_to)
qed

lemma safe_add:
  assumes ok: "book_ok x c"
  shows "safe (SContacts_add x socket ip port name) c (\<lambda>a c'. book_ok x c' \<and> held c' a)"
proof (cases "ct_lastPeerId c < 2147483647")
  case True
  then have "d_last (contacts_directory c) < 2147483647"
    by (simp add: contacts_directory_def)
  from book.add_law [OF ok this, of socket ip port name] show ?thesis
    by (intro runs_safe) (auto elim!: runs_mono intro: held_points_to)
next
  case False
  then have last: "ct_lastPeerId c = 2147483647"
    using core_okD(2) [OF book_core(1) [OF ok]] by simp
  have c: "contacts_ok c" "clock_ok x" "cx_iter x" "cx_erase_end x"
    using ok by (auto simp: book_ok_def forgiving_def)
  have "safe (SContacts_doCleanUp x) c (\<lambda>_ d. ct_lastPeerId d = 2147483647)"
    using runs_doCleanUp [OF c(1,2)] c(3,4) last
    by (auto intro!: runs_safe elim!: runs_mono dest: arg_cong [of _ _ co_last])
  moreover have "SContacts_findAddr c ip port = Some a \<Longrightarrow> held c a" "SContacts_findName c name = Some a \<Longrightarrow> held c a" for a
    using found_points_to(1,2) [OF c(1)] held_points_to [OF ok] by blast+
  ultimately show ?thesis
    using ok by (auto simp: SContacts_add_def safe_bindp safe_basic elim!: safe_mono split: option.split)
qed

lemma safe_peer_of_message:
  assumes ok: "book_ok x (sb_contacts b)"
  shows "safe (peer_of_message x m) b (\<lambda>a b'. \<exists>c'. b' = b\<lparr>sb_contacts := c'\<rparr> \<and> book_ok x c' \<and> held c' a)"
  using ok finds(2,4) [OF ok] held_points_to [OF ok] safe_updateSocket_points [OF ok] safe_add [OF ok]
  by (fastforce simp: peer_of_message_def Let_def safe_bindp safe_basic safe_on_bus exI [of _ "sb_contacts b"]
      elim!: safe_mono split: option.split)

section \<open>The operations\<close>

lemma bus_okD: "bus_ok P x b \<Longrightarrow> registry_ok P (sb_messenger b)" "bus_ok P x b \<Longrightarrow> book_ok x (sb_contacts b)"
  by (simp_all add: bus_ok_def)

lemma safe_reconnect:
  assumes "bus_ok P x b" "points_to (sb_contacts b) a k"
  shows "safe (reconnect P x a ip port) b (\<lambda>_. bus_ok P x)"
proof (cases "ip = -1")
  case True
  have "safe (on_contacts (ask x a SPeerInfo_getName)) b (\<lambda>_. bus_ok P x)"
    using safe_ask_held [OF bus_okD(2) [OF assms(1)] held_points_to [OF bus_okD(2) [OF assms(1)] assms(2)] plain_getters(5)]
      bus_okD(1) [OF assms(1)]
    by (auto simp: safe_on_bus elim!: safe_mono)
  moreover have "safe (if name \<noteq> [] then bindp (SBus_send P SBUS_FIND name) (\<lambda>_. ret (-1)) else ret (-1)) b' (\<lambda>_. bus_ok P x)"
    if "bus_ok P x b'" for name b'
    by (rule keepsD [where I = "bus_ok P x"]) (intro keeps_rules, rule that)
  ultimately have "safe (bindp (on_contacts (ask x a SPeerInfo_getName)) (\<lambda>name.
      if name \<noteq> [] then bindp (SBus_send P SBUS_FIND name) (\<lambda>_. ret (-1)) else ret (-1))) b (\<lambda>_. bus_ok P x)"
    unfolding safe_bindp [of "on_contacts _"] by (rule safe_mono)
  then show ?thesis
    using True by (simp add: reconnect_def)
next
  case False
  have "safe (if 0 \<le> fd then bindp (on_contacts (SContacts_updateSocket x a fd)) (\<lambda>_. ret fd) else ret fd)
      (b\<lparr>sb_messenger := m\<rparr>) (\<lambda>_. bus_ok P x)" if "registry_ok P m" for fd m
    using safe_updateSocket_points [OF bus_okD(2) [OF assms(1)] assms(2), of fd] that bus_okD(2) [OF assms(1)]
    by (auto simp: safe_bindp safe_basic safe_on_bus elim!: safe_mono)
  then show ?thesis
    unfolding reconnect_def using False
    by (auto simp: safe_bindp [of "on_messenger _"] safe_on_bus(2)
        intro!: safe_mono [OF keepsD [OF keeps_messenger(3) bus_okD(1) [OF assms(1)]]])
qed

lemma keeps_peer2Socket [keeps_rules]: "keeps (bus_ok P x) (SBus_peer2Socket P x k)"
proof (rule keepsI)
  fix b :: "'a sbus"
  assume b: "bus_ok P x b"
  note ok = bus_okD(2) [OF b]
  show "safe (SBus_peer2Socket P x k) b (\<lambda>_. bus_ok P x)"
  proof (cases "d_peer (contacts_directory (sb_contacts b)) k")
    case None
    then have "SContacts_findPeer (sb_contacts b) k = None"
      using finds(5) [OF ok] by blast
    then show ?thesis
      using b by (simp add: SBus_peer2Socket_def safe_bindp safe_basic safe_on_bus bus_ok_def)
  next
    case (Some p)
    show ?thesis
    proof (cases "0 \<le> pi_socket p")
      case True
      show ?thesis
        by (rule runs_safe [OF runs_mono [OF runs_peer2Socket_connected [OF ok Some True]]])
          (use bus_okD(1) [OF b] alikeD(1) in auto)
    next
      case False
      then have "pi_socket p < 0"
        by simp
      then obtain a c' where c': "alike x (sb_contacts b) c'" "points_to c' a k"
        and eq: "SBus_peer2Socket P x k b = reconnect P x a (pi_ip p) (pi_port p) (b\<lparr>sb_contacts := c'\<rparr>)"
        by (rule peer2Socket_lost [OF ok Some])
      have "safe (reconnect P x a (pi_ip p) (pi_port p)) (b\<lparr>sb_contacts := c'\<rparr>) (\<lambda>_. bus_ok P x)"
        using bus_okD(1) [OF b] alikeD(1) [OF c'(1)] c'(2) by (intro safe_reconnect) simp_all
      then show ?thesis
        by (simp add: safe_def eq)
    qed
  qed
qed

lemma keeps_sendTo [keeps_rules]:
  "keeps (bus_ok P x) (SBus_sendTo P x msgtag k msg)" "keeps (bus_ok P x) (SBus_sendTagTo P x msgtag k)"
  unfolding SBus_sendTo_def SBus_sendTagTo_def by (intro keeps_rules)+

lemma safe_process_system:
  assumes "bus_ok P x b" "held (sb_contacts b) a"
  shows "safe (process_system P x a k m) b (\<lambda>_. bus_ok P x)"
proof -
  have rename: "safe (on_contacts (SContacts_updateName x a name)) b (\<lambda>_. bus_ok P x)" for name
    using safe_updateName_held [OF bus_okD(2) [OF assms(1)] assms(2)] bus_okD(1) [OF assms(1)]
    by (auto simp: safe_on_bus elim!: safe_mono)
  have answer: "safe (bindp (if c then SBus_sendTo P x tag k name else ret 0) (\<lambda>_. ret r)) b' (\<lambda>_. bus_ok P x)"
    if "bus_ok P x b'" for c tag name b' and r :: int
    by (rule keepsD [where I = "bus_ok P x"]) (intro keeps_rules, rule that)
  have "safe (bindp (on_contacts (SContacts_updateName x a name)) (\<lambda>_.
      bindp (if c then SBus_sendTo P x tag k name' else ret 0) (\<lambda>_. ret r))) b (\<lambda>_. bus_ok P x)" for name c tag name' and r :: int
    unfolding safe_bindp [of "on_contacts _"] by (rule safe_mono [OF rename answer])
  moreover have "safe (bindp (on_contacts (SContacts_updateName x a name)) (\<lambda>_. ret r)) b (\<lambda>_. bus_ok P x)" for name and r :: int
    unfolding safe_bindp [of "on_contacts _"] safe_basic by (rule rename)
  ultimately show ?thesis
    using assms(1) answer [OF assms(1)]
    by (simp add: process_system_def Let_def safe_bindp [of "getp _"] safe_basic split del: if_split)
      (simp add: safe_if safe_basic)
qed

lemma keeps_process [keeps_rules]: "keeps (bus_ok P x) (SBus_processSMsg P x m)"
proof (rule keepsI)
  fix b :: "'a sbus"
  assume b: "bus_ok P x b"
  have asks: "safe (on_contacts (ask x a g)) b' (\<lambda>_ b''. bus_ok P x b'' \<and> held (sb_contacts b'') a)"
    if "bus_ok P x b'" "held (sb_contacts b') a" "plain_getter g f"
    for a b' and g :: "int \<Rightarrow> peerinfo \<Rightarrow> 'c \<times> peerinfo" and f
    using safe_ask_held [OF bus_okD(2) [OF that(1)] that(2,3)] bus_okD(1) [OF that(1)]
    by (auto simp: safe_on_bus elim!: safe_mono)
  have after: "safe (bindp (on_contacts (ask x a SPeerInfo_getPeer)) (\<lambda>peer.
      bindp (on_contacts (ask x a SPeerInfo_getSocket)) (\<lambda>_. ret (a, peer)))) b'
      (\<lambda>(a, _) b''. bus_ok P x b'' \<and> held (sb_contacts b'') a)"
    if "bus_ok P x b'" "held (sb_contacts b') a" for a b'
    unfolding safe_bindp
    by (rule safe_mono [OF asks [OF that plain_getters(1)]], elim conjE,
        rule safe_mono [OF asks [OF _ _ plain_getters(4)]]) (auto simp: safe_basic)
  have "safe (identify x m) b (\<lambda>(a, _) b'. bus_ok P x b' \<and> held (sb_contacts b') a)"
    unfolding identify_def safe_bindp [of "peer_of_message _ _"]
    by (rule safe_mono [OF safe_peer_of_message [OF bus_okD(2) [OF b]]])
      (use bus_okD(1) [OF b] in \<open>auto intro!: after\<close>)
  then have data: "safe (process_data P x m) b (\<lambda>_. bus_ok P x)"
    unfolding process_data_identify safe_bindp
    by (rule safe_mono) (auto simp: safe_basic intro: safe_process_system)
  have error: "safe (process_error x s) b (\<lambda>_. bus_ok P x)" for s
  proof (cases "SContacts_findFromSocket (sb_contacts b) s")
    case None
    then show ?thesis
      using b by (simp add: process_error_def safe_bindp safe_basic safe_on_bus bus_ok_def)
  next
    case (Some a)
    then obtain k where k: "points_to (sb_contacts b) a k"
      using finds(2) [OF bus_okD(2) [OF b]] by blast
    have "safe (on_contacts (SContacts_updateSocket x a INVALID_SOCKET)) b
        (\<lambda>a' b'. bus_ok P x b' \<and> held (sb_contacts b') a')"
      using bus_okD(1) [OF b]
      by (simp add: safe_on_bus safe_mono [OF safe_updateSocket_points [OF bus_okD(2) [OF b] k]])
    then have "safe (on_contacts (SContacts_updateSocket x a INVALID_SOCKET)) b
        (\<lambda>a' b'. safe (on_contacts (ask x a' SPeerInfo_getPeer)) b' (\<lambda>_. bus_ok P x))"
      by (rule safe_mono) (auto intro: safe_mono [OF asks [OF _ _ plain_getters(1)]])
    then show ?thesis
      using Some by (simp add: process_error_def safe_bindp safe_basic safe_on_bus(1) [of "getp _"])
  qed
  show "safe (SBus_processSMsg P x m) b (\<lambda>_. bus_ok P x)"
    using b data error by (simp add: SBus_processSMsg_def safe_bindp safe_basic)
qed

lemma keeps_inRound [keeps_rules]: "keeps (bus_ok P x) (SBus_inRound fuel P stack)"
  unfolding SBus_inRound_def by (intro keeps_rules) simp

lemma keeps_recv_bus [keeps_rules]: "keeps (bus_ok P x) (SBus_recv n P x)"
proof (induction n)
  case (Suc n)
  show ?case
    unfolding SBus_recv.simps by (intro keeps_rules Suc.IH) simp
qed (simp add: keeps_basic)

section \<open>Histories\<close>

text \<open>The calls of a client and the rounds of the receiving thread, in any order.\<close>

datatype bus_call =
    Multicast int string
  | Unicast int int string
  | Rename string
  | Reset_Name
  | Receive nat
  | Round nat nat

fun run_call :: "'w posix \<Rightarrow> cxx \<Rightarrow> bus_call \<Rightarrow> ('w sbus, unit) prog" where
  "run_call P x (Multicast tag msg) = bindp (SBus_send P tag msg) (\<lambda>_. ret ())"
| "run_call P x (Unicast tag peer msg) = bindp (SBus_sendTo P x tag peer msg) (\<lambda>_. ret ())"
| "run_call P x (Rename name) = bindp (SBus_setName P name) (\<lambda>_. ret ())"
| "run_call P x Reset_Name = SBus_setDefaultSafeName"
| "run_call P x (Receive n) = bindp (SBus_recv n P x) (\<lambda>_. ret ())"
| "run_call P x (Round fuel stack) = SBus_inRound fuel P stack"

fun run_calls :: "'w posix \<Rightarrow> cxx \<Rightarrow> bus_call list \<Rightarrow> ('w sbus, unit) prog" where
  "run_calls P x [] = ret ()"
| "run_calls P x (c # cs) = bindp (run_call P x c) (\<lambda>_. run_calls P x cs)"

lemma keeps_call [keeps_rules]: "keeps (bus_ok P x) (run_call P x c)"
  by (cases c) (simp_all, (intro keeps_rules)+)

lemma keeps_calls: "keeps (bus_ok P x) (run_calls P x cs)"
  by (induction cs) (auto intro: keeps_rules)

text \<open>A new messenger has a well formed registry.\<close>

lemma registry_ok_new:
  assumes "SMessenger_new P alloc device mcip mcport w = Inr m" "px_realloc P = (\<lambda>_. True)"
  shows "registry_ok P m"
proof -
  obtain p where p: "SPoll_new alloc = Inr p"
    using assms(1) by (auto simp: SMessenger_new_def split: sum.splits)
  then have "poller_inv p"
    using poller_invI [of "[]" 10] by (auto simp: SPoll_new_def poller_of_def split: if_splits)
  then have start: "registry_ok P \<lparr>ms_mcip = [], ms_device = None, ms_mcport = 0, ms_port = 0, ms_servsock = 0,
      ms_mcsock = 0, ms_ip = 0, ms_sap = zero_sockaddr, ms_spoll = p, ms_world = w\<rparr>"
    using assms(2) by (simp add: registry_ok_def)
  have steps: "keeps (registry_ok P) (bindp (SMessenger_initServer P) (\<lambda>r1.
               if r1 < 0 then faultp (Uncaught ''Could not init TCP server'')
               else
             bindp (modp (\<lambda>m. m\<lparr>ms_device := device, ms_mcip := mcip, ms_mcport := word_of_int mcport\<rparr>)) (\<lambda>_.
             bindp (SMessenger_initMCast P) (\<lambda>r2.
               if r2 < 0 then faultp (Uncaught ''Could not init MultiCast'')
               else
             bindp (getp ms_servsock) (\<lambda>servsock.
             bindp (on_world (stcp_getLocalPort P servsock)) (\<lambda>port.
             bindp (modp (\<lambda>m. m\<lparr>ms_port := word_of_int port\<rparr>)) (\<lambda>_.
             bindp (on_world (own_ip P device)) (\<lambda>ip.
               modp (\<lambda>m. m\<lparr>ms_ip := ip,
                 ms_sap := snd (sockaddr_set (sockaddr_int2ip ip) (uint (ms_port m)))\<rparr>)))))))))"
    by (intro keeps_rules) (simp_all add: registry_ok_def)
  from keepsD [OF this start] show ?thesis
    using assms(1) p by (auto simp: SMessenger_new_def safe_def split: sum.splits)
qed

lemma bus_ok_new:
  assumes "SBus_init P alloc thread device mcip mcport w = Inr b" "px_realloc P = (\<lambda>_. True)" "forgiving x"
  shows "bus_ok P x b"
proof -
  obtain m where m: "SMessenger_new P alloc device mcip mcport w = Inr m"
    using assms(1) by (auto simp: SBus_init_def split: sum.splits)
  then have start: "bus_ok P x \<lparr>sb_name = [], sb_messenger = m, sb_contacts = SContacts_new, sb_inq = [], sb_alive = False\<rparr>"
    using registry_ok_new [OF m assms(2)] assms(3) contacts_ok_new by (simp add: bus_ok_def book_ok_def)
  have "keeps (bus_ok P x) (bindp SBus_setDefaultSafeName (\<lambda>_.
             bindp (modp (\<lambda>b. b\<lparr>sb_alive := True\<rparr>)) (\<lambda>_.
               if \<not> thread then faultp (Uncaught ''Cannot start receiving loop thread'') else ret ())))"
    by (intro keeps_rules) simp
  from keepsD [OF this start] show ?thesis
    using assms(1) m by (auto simp: SBus_init_def safe_def split: sum.splits)
qed

section \<open>Properties\<close>

definition group_posix :: "unit posix" where
  "group_posix = null_posix\<lparr>px_gethostbyname := (\<lambda>_ w. (Some (htonl 0xE0001782), w))\<rparr>"

lemma group_multicast: "in_multicast 0xE0001782"
  by (simp add: in_multicast_def)

lemma sample_SPoll_add:
  "\<exists>p'. SPoll_add (\<lambda>_. True) 3 57 \<lparr>pl_fds = Some (replicate 10 zero_pollfd), pl_size = 0, pl_capacity = 10\<rparr> = Inr (0, p')"
proof -
  have "poller_inv (poller_of [] 10)"
    by (rule poller_invI) simp_all
  then have "runs (SPoll_add (\<lambda>_. True) 3 57) (poller_of [] 10) (\<lambda>r p'. r = 0)"
    using spoll_cpp.add_law [of "poller_of [] 10" 3 57] by (auto simp: runs_def split: sum.splits)
  then show ?thesis
    by (auto simp: runs_def poller_of_def split: sum.splits)
qed

lemma sample_bus_new:
  "\<exists>b. SBus_init group_posix True True (Some ''lo'') ''224.0.23.130'' 10001 () = Inr b"
proof -
  obtain p where "SPoll_add (\<lambda>_. True) 3 57 \<lparr>pl_fds = Some (replicate 10 zero_pollfd), pl_size = 0, pl_capacity = 10\<rparr> = Inr (0, p)"
    using sample_SPoll_add by blast
  then show ?thesis
    by (simp add: SBus_init_def SMessenger_new_def SPoll_new_def SMessenger_initServer_def SMessenger_initMCast_def
    own_ip_def stcp_server_def stcp_setNonBlocking_def stcp_getLocalIP_def stcp_getLocalPort_def sudp_mcast_def
    sockaddr_device2ip_def device_request_def strcpy_ifname_def ret_on_error_def
    bindp_def prog_simps on_world_def on_spoll_def zoom_def group_posix_def null_posix_def group_multicast Let_def SBus_setDefaultSafeName_def)
qed

text \<open>
  C1: a bus never becomes inconsistent. Whatever its client calls, in any order, between the
  rounds of the receiving thread, and whatever arrives from the network, as long as no call ends
  the process the registry of descriptors stays well formed and every index of the contacts leads
  to the peer it should.
\<close>

theorem bus_any_history:
  assumes "SBus_init P alloc thread device mcip mcport w = Inr b" "px_realloc P = (\<lambda>_. True)" "forgiving x"
  shows "safe (run_calls P x calls) b (\<lambda>_ b'.
    registry_ok P (sb_messenger b') \<and> dir_ok (contacts_directory (sb_contacts b')))"
proof (rule safe_mono)
  show "safe (run_calls P x calls) b (\<lambda>_. bus_ok P x)"
    using keepsD [OF keeps_calls bus_ok_new [OF assms]] .
qed (auto simp: bus_ok_def intro: book.dir_inv)

theorem bus_any_history_witness:
  "\<exists>b. SBus_init group_posix True True (Some ''lo'') ''224.0.23.130'' 10001 () = Inr b \<and>
    safe (run_calls group_posix (sample_cxx True 5) [Rename ''bob'', Multicast 7 ''hi'', Round 3 100, Receive 5]) b
      (\<lambda>_ b'. registry_ok group_posix (sb_messenger b') \<and> dir_ok (contacts_directory (sb_contacts b')))"
proof -
  obtain b where b: "SBus_init group_posix True True (Some ''lo'') ''224.0.23.130'' 10001 () = Inr b"
    using sample_bus_new by blast
  then show ?thesis
    by (intro exI [of _ b] conjI bus_any_history [OF b]) (simp_all add: sample_cxx_ok group_posix_def null_posix_def)
qed

end
