(* ===== verification/Naming.thy ===== *)
theory Naming
  imports Bus_Invariant
begin

text \<open>
  Two buses together: the name that one gives itself goes out as a datagram, is received by
  another one's thread, put in its queue, taken out by its client and ends up in its contacts,
  with the address under which the first can be connected to.
\<close>

section \<open>The sender\<close>

lemma setName_sends:
  assumes "length name \<le> 2 ^ 20"
  shows "runs (SBus_setName P name) b (\<lambda>r b'. sb_name b' = name \<and>
    (let m = sb_messenger b;
         (n, w) = px_sendto P (ms_mcsock m) (frame SBUS_MANAMEIS (ms_port m) name)
           (snd (sockaddr_set (ms_mcip m) (uint (ms_mcport m)))) (ms_world m)
     in ms_world (sb_messenger b') = w \<and> r = (if n = 8 + int (length name) then 0 else -1)))"
  using assms
  by (auto simp: SBus_setName_def SBus_send_def on_messenger_def SMessenger_send_def sudp_mcsend_def Let_def
      runs_simps split: prod.splits)

section \<open>The receiver\<close>

text \<open>A name that is not the bus's own, from a sender that has no pending move.\<close>

lemma runs_name_news:
  assumes ready: "book_ready x b" "\<not> SMsg_isError m" "\<not> own_message b m" "\<not> moves_sender b m"
    and tag: "SMsg_getMsgTag m = SBUS_MANAMEIS" "SMsg_getMsg m \<noteq> sb_name b"
    and p: "sender_of x b m = (k, d)" "d_peer d k = Some p"
  shows "runs (SBus_processSMsg P x m) b (\<lambda>r b'. r = k \<and> sb_inq b' = sb_inq b \<and>
    contacts_directory (sb_contacts b') = dir_replace p (p\<lparr>pi_name := SMsg_getMsg m\<rparr>) d)" (is "runs _ _ ?Q")
proof (rule runs_process [OF ready(1-3)])
  fix a j c'
  assume loc: "located x b m a c'" "(j, contacts_directory c') = sender_of x b m"
  then have d: "contacts_directory c' = d" "j = k"
    using p(1) by auto
  have "runs (SContacts_updateName x a (SMsg_getMsg m)) c' (\<lambda>_ c2. book_ok x c2 \<and>
      contacts_directory c2 = dir_replace p (p\<lparr>pi_name := SMsg_getMsg m\<rparr>) d)"
    using located_name [OF loc ready(4)] p(2) d by simp
  then have "runs (process_system P x a k m) (b\<lparr>sb_contacts := c'\<rparr>) ?Q"
    unfolding runs_process_system(2) [OF tag(1)] sbus_contacts if_not_P [OF tag(2) [symmetric]] runs_basic
    by (rule runs_mono) simp
  then show "runs (if SMsg_getMsgTag m \<le> 0 then process_system P x a j m else ret j) (b\<lparr>sb_contacts := c'\<rparr>) ?Q"
    using tag(1) d(2) by simp
qed

text \<open>The answer that a name is taken: the peer that says so is filed under it, the bus keeps its name.\<close>

lemma runs_name_taken:
  assumes ready: "book_ready x b" "\<not> SMsg_isError m" "\<not> own_message b m" "\<not> moves_sender b m"
    and tag: "SMsg_getMsgTag m = SBUS_NAMETAKEN"
    and p: "sender_of x b m = (k, d)" "d_peer d k = Some p"
  shows "runs (SBus_processSMsg P x m) b (\<lambda>r b'. r = k \<and> sb_name b' = sb_name b \<and> sb_inq b' = sb_inq b \<and>
    contacts_directory (sb_contacts b') = dir_replace p (p\<lparr>pi_name := SMsg_getMsg m\<rparr>) d)" (is "runs _ _ ?Q")
proof (rule runs_process [OF ready(1-3)])
  fix a j c'
  assume loc: "located x b m a c'" "(j, contacts_directory c') = sender_of x b m"
  then have d: "contacts_directory c' = d" "j = k"
    using p(1) by auto
  have "runs (SContacts_updateName x a (SMsg_getMsg m)) c' (\<lambda>_ c2. book_ok x c2 \<and>
      contacts_directory c2 = dir_replace p (p\<lparr>pi_name := SMsg_getMsg m\<rparr>) d)"
    using located_name [OF loc ready(4)] p(2) d by simp
  then have "runs (SContacts_updateName x a (SMsg_getMsg m)) c' (\<lambda>_ c2. ?Q k (b\<lparr>sb_contacts := c2\<rparr>))"
    by (rule runs_mono) simp
  then have "runs (process_system P x a k m) (b\<lparr>sb_contacts := c'\<rparr>) ?Q"
    unfolding runs_process_system(3) [OF tag(1)] by simp
  then show "runs (if SMsg_getMsgTag m \<le> 0 then process_system P x a j m else ret j) (b\<lparr>sb_contacts := c'\<rparr>) ?Q"
    using tag(1) d(2) by simp
qed

text \<open>The name of the bus itself, from a sender that has no socket: it is connected to and told.\<close>

lemma runs_name_conflict:
  assumes ready: "book_ready x b" "\<not> SMsg_isError m" "\<not> own_message b m" "\<not> moves_sender b m"
    and tag: "SMsg_getMsgTag m = SBUS_MANAMEIS" "sb_name b = SMsg_getMsg m"
    and p: "sender_of x b m = (k, d)" "d_peer d k = Some p" "pi_socket p < 0" "pi_ip p \<noteq> -1"
    and conn: "SMessenger_connect P (pi_ip p) (pi_port p) (sb_messenger b) = Inr (fd, m1)" "0 \<le> fd"
    and sent: "SMessenger_sendTo P SBUS_NAMETAKEN fd (sb_name b) m1 = Inr (res, m2)"
  shows "runs (SBus_processSMsg P x m) b (\<lambda>r b'. r = k \<and> sb_inq b' = sb_inq b \<and> sb_messenger b' = m2 \<and>
    (let p' = p\<lparr>pi_name := SMsg_getMsg m\<rparr> in
     contacts_directory (sb_contacts b') = dir_replace p' (p'\<lparr>pi_socket := fd\<rparr>) (dir_replace p p' d)))"
    (is "runs _ _ ?Q")
proof (rule runs_process [OF ready(1-3)])
  fix a j c'
  assume loc: "located x b m a c'" "(j, contacts_directory c') = sender_of x b m"
  then have d: "contacts_directory c' = d" "j = k"
    using p(1) by auto
  let ?p = "p\<lparr>pi_name := SMsg_getMsg m\<rparr>"
  have "dir_ok d"
    using loc(1) d(1) by (auto simp: located_def dest: book.dir_inv)
  then have k: "pi_peer p = k"
    using p(2) by (simp add: dir_ok_def)
  have send: "runs (SBus_sendTo P x SBUS_NAMETAKEN k (sb_name b)) (b\<lparr>sb_contacts := c2\<rparr>) (\<lambda>_. ?Q k)"
    if c2: "book_ok x c2 \<and> contacts_directory c2 = dir_replace p ?p d" for c2
    by (rule runs_mono [OF runs_sendTo_reconnected [where p = ?p and fd = fd and ?m1.0 = m1 and r = res and m' = m2]])
      (use c2 k p(3,4) conn sent in \<open>auto simp: dir_replace_def Let_def\<close>)
  have "runs (SContacts_updateName x a (SMsg_getMsg m)) c' (\<lambda>_ c2. book_ok x c2 \<and> contacts_directory c2 = dir_replace p ?p d)"
    using located_name [OF loc ready(4)] p(2) d by simp
  then have "runs (process_system P x a k m) (b\<lparr>sb_contacts := c'\<rparr>) ?Q"
    unfolding runs_process_system(2) [OF tag(1)] sbus_contacts if_P [OF tag(2)]
    by (rule runs_mono) (rule send)
  then show "runs (if SMsg_getMsgTag m \<le> 0 then process_system P x a j m else ret j) (b\<lparr>sb_contacts := c'\<rparr>) ?Q"
    using tag(1) d(2) by simp
qed

text \<open>The message a datagram becomes, and what it makes of a directory that does not know its sender.\<close>

definition announcement :: "32 word \<Rightarrow> 16 word \<Rightarrow> int \<Rightarrow> string \<Rightarrow> smsg" where
  "announcement ip port mcsock name = SMsg_new SBUS_MANAMEIS ip port mcsock name"

lemma announcement_sel [simp]:
  "\<not> SMsg_isError (announcement ip port s name)" "SMsg_getMsgTag (announcement ip port s name) = -1"
  "SMsg_getMsg (announcement ip port s name) = name" "SMsg_getSocket (announcement ip port s name) = s"
  "SMsg_getIP (announcement ip port s name) = ip" "SMsg_getPort (announcement ip port s name) = uint port"
  by (simp_all add: announcement_def SMsg_new_def SMsg_isError_def SMsg_getMsgTag_def SMsg_getMsg_def
      SMsg_getSocket_def SMsg_getIP_def SMsg_getPort_def to_short_def)

definition stranger :: "'w sbus \<Rightarrow> 32 word \<Rightarrow> 16 word \<Rightarrow> bool" where
  "stranger b ip port \<longleftrightarrow>
     (let d = contacts_directory (sb_contacts b); m = sb_messenger b in
      (ip, port) \<noteq> (ms_ip m, ms_port m) \<and> d_addr d (ip, port) = None \<and> d_name d (sb_name b) = None \<and>
      d_sock d (ms_mcsock m) = None)"

lemma stranger_sender:
  assumes "stranger b ip port"
  shows "\<exists>d k. sender_of x b (announcement ip port (ms_mcsock (sb_messenger b)) name) = (k, d) \<and>
    d_peer d k = Some (SPeerInfo_new 0 k (-1) ip port (sb_name b)) \<and>
    \<not> own_message b (announcement ip port (ms_mcsock (sb_messenger b)) name) \<and>
    \<not> moves_sender b (announcement ip port (ms_mcsock (sb_messenger b)) name)"
  using assms
  by (auto simp: stranger_def sender_of_def dir_sender_def moves_sender_def moves_def own_message_def dir_add_def
      dir_known_def Let_def word_uint_eq_iff) (auto simp: SPeerInfo_new_def)

lemma runs_announcement:
  assumes "book_ready x b" "stranger b ip port" "name \<noteq> sb_name b"
  shows "runs (SBus_processSMsg P x (announcement ip port (ms_mcsock (sb_messenger b)) name)) b (\<lambda>peer b'.
    sb_inq b' = sb_inq b \<and> (let d = contacts_directory (sb_contacts b') in
      d_name d name = Some peer \<and> d_addr d (ip, port) = Some peer \<and> 0 < peer \<and>
      (\<exists>p. d_peer d peer = Some p \<and> pi_ip p = ip \<and> pi_port p = port \<and> pi_name p = name)))"
proof -
  let ?m = "announcement ip port (ms_mcsock (sb_messenger b)) name"
  obtain d k where d: "sender_of x b ?m = (k, d)" "d_peer d k = Some (SPeerInfo_new 0 k (-1) ip port (sb_name b))"
    "\<not> own_message b ?m" "\<not> moves_sender b ?m"
    using stranger_sender [OF assms(2)] by blast
  have "0 < fst (sender_of x b ?m)"
    using assms(1) by (intro sender_positive) (simp_all add: book_ready_def)
  then have "0 < k"
    using d(1) by simp
  then show ?thesis
    using assms(3)
    by (intro runs_mono [OF runs_name_news [OF assms(1) _ d(3,4) _ _ d(1,2)]])
      (auto simp: dir_replace_def SPeerInfo_new_def)
qed

text \<open>A round of the receiving thread puts a waiting datagram in the queue.\<close>

lemma runs_round_datagram:
  fixes b :: "'w sbus"
  defines "m \<equiv> sb_messenger b"
  assumes "waiting P queue (ms_mcsock m) (ms_servsock m) (frame msgtag port msg) T WAIT_MS"
    and "queue (ms_world m) = (frame msgtag port msg, a) # ds" "registry_ok P m" "0 < ms_mcsock m"
      "watched m = [(ms_mcsock m, POLL_FLAGS)]"
    and "0 < fuel" "sin_addr a \<noteq> 0" "length msg \<le> 2 ^ 20" "2 ^ 21 + 8 \<le> stack"
  shows "runs (SBus_inRound fuel P stack) b (\<lambda>_ b'. \<exists>p w.
    b' = b\<lparr>sb_messenger := m\<lparr>ms_spoll := p, ms_world := w\<rparr>,
      sb_inq := sb_inq b @ [SMsg_new (to_short msgtag) (sockaddr_getIP a) port (ms_mcsock m) msg]\<rparr>)"
  unfolding SBus_inRound_def runs_bindp on_messenger_def runs_zoom m_def [symmetric]
  by (rule runs_mono [OF recv_datagram [OF assms(2-6) _ assms(7-10)]]) (auto simp: runs_basic)

section \<open>Property\<close>

text \<open>
  C2: a name reaches a bus that did not know its owner. What \<open>setName\<close> hands to the system is one
  datagram. When such a datagram is what waits at another bus, for which its sender is a
  stranger, one round of that bus's receiving thread and one turn of its client's \<open>recv\<close> deliver
  the name, from a peer that the contacts then find both under this name and under the sender's
  address with the port of its TCP server: the location the datagram does not come from, but
  where it can be connected to.
\<close>

theorem name_reaches_stranger:
  fixes b :: "'w sbus" and a :: "'v sbus" and name :: string
  defines "port \<equiv> ms_port (sb_messenger a)"
  defines "d \<equiv> frame SBUS_MANAMEIS port name"
  assumes "length name \<le> 2 ^ 20" "forgiving x" "contacts_ok (sb_contacts b)" "ct_lastPeerId (sb_contacts b) < 2147483647"
    and "registry_ok P (sb_messenger b)" "0 < ms_mcsock (sb_messenger b)"
      "watched (sb_messenger b) = [(ms_mcsock (sb_messenger b), POLL_FLAGS)]" "sb_inq b = []"
    and "waiting P queue (ms_mcsock (sb_messenger b)) (ms_servsock (sb_messenger b)) d T WAIT_MS"
      "queue (ms_world (sb_messenger b)) = (d, from_a) # ds" "sin_addr from_a \<noteq> 0"
    and "stranger b (sockaddr_getIP from_a) port" "name \<noteq> sb_name b" "0 < fuel" "2 ^ 21 + 8 \<le> stack"
  shows "runs (SBus_setName PA name) a (\<lambda>r a'. sb_name a' = name \<and>
      ms_world (sb_messenger a') = snd (px_sendto PA (ms_mcsock (sb_messenger a)) d
        (snd (sockaddr_set (ms_mcip (sb_messenger a)) (uint (ms_mcport (sb_messenger a))))) (ms_world (sb_messenger a)))) \<and>
    runs (bindp (SBus_inRound fuel P stack) (\<lambda>_. SBus_recv 1 P x)) b (\<lambda>(len, tag, peer, msg) b'.
      len = int (length name) \<and> tag = SBUS_MANAMEIS \<and> msg = name \<and>
      (let e = contacts_directory (sb_contacts b') in
        d_name e name = Some peer \<and> d_addr e (sockaddr_getIP from_a, port) = Some peer \<and>
        (\<exists>p. d_peer e peer = Some p \<and> pi_ip p = sockaddr_getIP from_a \<and> pi_port p = port \<and> pi_name p = name)))"
proof
  show "runs (SBus_setName PA name) a (\<lambda>r a'. sb_name a' = name \<and>
      ms_world (sb_messenger a') = snd (px_sendto PA (ms_mcsock (sb_messenger a)) d
        (snd (sockaddr_set (ms_mcip (sb_messenger a)) (uint (ms_mcport (sb_messenger a))))) (ms_world (sb_messenger a))))"
    by (rule runs_mono [OF setName_sends [OF assms(3)]]) (auto simp: d_def port_def Let_def split: prod.splits)
  let ?m = "announcement (sockaddr_getIP from_a) port (ms_mcsock (sb_messenger b)) name"
  have m: "SMsg_new (to_short SBUS_MANAMEIS) (sockaddr_getIP from_a) port (ms_mcsock (sb_messenger b)) name = ?m"
    by (simp add: announcement_def SMsg_new_def)
  show "runs (bindp (SBus_inRound fuel P stack) (\<lambda>_. SBus_recv 1 P x)) b (\<lambda>(len, tag, peer, msg) b'.
      len = int (length name) \<and> tag = SBUS_MANAMEIS \<and> msg = name \<and>
      (let e = contacts_directory (sb_contacts b') in
        d_name e name = Some peer \<and> d_addr e (sockaddr_getIP from_a, port) = Some peer \<and>
        (\<exists>p. d_peer e peer = Some p \<and> pi_ip p = sockaddr_getIP from_a \<and> pi_port p = port \<and> pi_name p = name)))"
    (is "runs _ _ ?Q") unfolding runs_bindp
  proof (rule runs_mono [OF runs_round_datagram [where msgtag = SBUS_MANAMEIS and a = from_a and ds = ds and port = port
          and msg = name and queue = queue and T = T and fuel = fuel and stack = stack]])
    fix u b1
    assume "\<exists>p w. b1 = b\<lparr>sb_messenger := (sb_messenger b)\<lparr>ms_spoll := p, ms_world := w\<rparr>,
      sb_inq := sb_inq b @ [SMsg_new (to_short SBUS_MANAMEIS) (sockaddr_getIP from_a) port (ms_mcsock (sb_messenger b)) name]\<rparr>"
    then obtain p w where b1: "b1 = b\<lparr>sb_messenger := (sb_messenger b)\<lparr>ms_spoll := p, ms_world := w\<rparr>, sb_inq := [?m]\<rparr>"
      using assms(10) m by auto
    let ?b = "b1\<lparr>sb_inq := []\<rparr>"
    have "runs (SBus_processSMsg P x (announcement (sockaddr_getIP from_a) port (ms_mcsock (sb_messenger ?b)) name)) ?b
      (\<lambda>peer b'. sb_inq b' = sb_inq ?b \<and> (let e = contacts_directory (sb_contacts b') in
        d_name e name = Some peer \<and> d_addr e (sockaddr_getIP from_a, port) = Some peer \<and> 0 < peer \<and>
        (\<exists>p. d_peer e peer = Some p \<and> pi_ip p = sockaddr_getIP from_a \<and> pi_port p = port \<and> pi_name p = name)))"
      by (rule runs_announcement)
        (use assms in \<open>simp_all add: b1 book_ready_def book_ok_def stranger_def Let_def\<close>)
    moreover have "sb_messenger ?b = (sb_messenger b)\<lparr>ms_spoll := p, ms_world := w\<rparr>"
      by (simp add: b1)
    ultimately have "runs (SBus_processSMsg P x ?m) ?b (\<lambda>peer b'. sb_inq b' = sb_inq ?b \<and> (let e = contacts_directory (sb_contacts b') in
        d_name e name = Some peer \<and> d_addr e (sockaddr_getIP from_a, port) = Some peer \<and> 0 < peer \<and>
        (\<exists>p. d_peer e peer = Some p \<and> pi_ip p = sockaddr_getIP from_a \<and> pi_port p = port \<and> pi_name p = name)))"
      by simp
    then show "runs (SBus_recv 1 P x) b1 ?Q"
      by (auto simp: runs_bindp runs_basic b1 Let_def elim!: runs_mono)
  qed (use assms in simp_all)
qed

definition sample_wire :: "(string \<times> sockaddr_in) list" where
  "sample_wire = [(frame (-1) 80 ''carol'', \<lparr>sin_family = 2, sin_port = 10001, sin_addr = htonl 0x0A000002\<rparr>)]"

theorem name_reaches_stranger_witness:
  "runs (bindp (SBus_inRound 1 loop_posix 3000000) (\<lambda>_. SBus_recv 1 loop_posix (sample_cxx True 5)))
     (sample_bus sample_wire) (\<lambda>(len, tag, peer, msg) b'. len = 5 \<and> tag = -1 \<and> msg = ''carol'' \<and>
       d_name (contacts_directory (sb_contacts b')) ''carol'' = Some peer \<and>
       d_addr (contacts_directory (sb_contacts b')) (0x0A000002, 80) = Some peer)"
proof -
  let ?a = "sample_bus ()" and ?b = "sample_bus sample_wire"
  let ?from = "\<lparr>sin_family = 2, sin_port = 10001, sin_addr = htonl 0x0A000002\<rparr>"
  have port: "ms_port (sb_messenger ?a) = 80"
    by (simp add: sample_messenger_def)
  have "waiting loop_posix (\<lambda>w. w) 5 3 (frame (-1) 80 ''carol'') 1000 50"
    using loop_posix_ok by (auto simp: waiting_def) (auto simp: loop_posix_def null_posix_def)
  then have wait: "waiting loop_posix (\<lambda>w. w) (ms_mcsock (sb_messenger ?b)) (ms_servsock (sb_messenger ?b))
      (frame (-1) (ms_port (sb_messenger ?a)) ''carol'') 1000 50"
    by (simp add: sample_messenger_def)
  have "stranger ?b (sockaddr_getIP ?from) 80"
    by (simp add: stranger_def Let_def sockaddr_getIP_def sample_directory) (simp add: sample_messenger_def)
  then have stranger: "stranger ?b (sockaddr_getIP ?from) (ms_port (sb_messenger ?a))"
    by (simp only: port)
  have "runs (bindp (SBus_inRound 1 loop_posix 3000000) (\<lambda>_. SBus_recv 1 loop_posix (sample_cxx True 5))) ?b
     (\<lambda>(len, tag, peer, msg) b'. len = int (length ''carol'') \<and> tag = -1 \<and> msg = ''carol'' \<and>
      (let e = contacts_directory (sb_contacts b') in
        d_name e ''carol'' = Some peer \<and> d_addr e (sockaddr_getIP ?from, ms_port (sb_messenger ?a)) = Some peer \<and>
        (\<exists>p. d_peer e peer = Some p \<and> pi_ip p = sockaddr_getIP ?from \<and> pi_port p = ms_port (sb_messenger ?a) \<and>
          pi_name p = ''carol'')))"
    by (rule name_reaches_stranger [where PA = null_posix, THEN conjunct2, OF _ sample_ready' _ _ _ _ wait _ _ stranger])
      (simp_all add: sample_messenger_ok(2) sample_wire_def port,
        simp_all add: sample_messenger_def watched_def sample_bus_def)
  then show ?thesis
    unfolding port by (rule runs_mono) (auto simp: Let_def sockaddr_getIP_def)
qed

text \<open>
  C3: a name that is taken is refused. When the name that a stranger announces is the bus's own, one
  turn of the client's \<open>recv\<close> connects to the address the announcement carries, sends NAMETAKEN
  with the name over the new connection, and delivers the announcement; the stranger is then in
  the contacts with that connection, that address and the name it was refused.
\<close>

theorem name_conflict_answered:
  fixes b :: "'w sbus"
  defines "m \<equiv> sb_messenger b"
  assumes "forgiving x" "contacts_ok (sb_contacts b)" "ct_lastPeerId (sb_contacts b) < 2147483647"
    and b: "stranger b ip port" "ip \<noteq> -1" "sb_inq b = announcement ip port (ms_mcsock m) (sb_name b) # q"
    and conn: "SMessenger_connect P ip port m = Inr (fd, m1)" "0 \<le> fd"
    and sent: "SMessenger_sendTo P SBUS_NAMETAKEN fd (sb_name b) m1 = Inr (res, m2)"
  shows "runs (SBus_recv 1 P x) b (\<lambda>(len, tag, peer, msg) b'. tag = SBUS_MANAMEIS \<and> msg = sb_name b \<and>
    sb_messenger b' = m2 \<and> sb_inq b' = q \<and>
    (let e = contacts_directory (sb_contacts b') in
      d_sock e fd = Some peer \<and> d_addr e (ip, port) = Some peer \<and> d_name e (sb_name b) = Some peer \<and>
      d_peer e peer = Some (SPeerInfo_new 0 peer fd ip port (sb_name b))))"
proof -
  let ?b = "b\<lparr>sb_inq := q\<rparr>" and ?m = "announcement ip port (ms_mcsock m) (sb_name b)"
  have ready: "book_ready x ?b" "stranger ?b ip port"
    using assms by (simp_all add: book_ready_def book_ok_def stranger_def Let_def)
  obtain d k where d: "sender_of x ?b ?m = (k, d)" "d_peer d k = Some (SPeerInfo_new 0 k (-1) ip port (sb_name b))"
    "\<not> own_message ?b ?m" "\<not> moves_sender ?b ?m"
    using stranger_sender [OF ready(2), of x "sb_name b"] by (auto simp: m_def)
  have "0 < fst (sender_of x ?b ?m)"
    using ready(1) by (intro sender_positive) (simp_all add: book_ready_def)
  then have "0 < k"
    using d(1) by simp
  have p: "(SPeerInfo_new 0 k (-1) ip port (sb_name b))\<lparr>pi_name := sb_name b\<rparr> = SPeerInfo_new 0 k (-1) ip port (sb_name b)"
    "(SPeerInfo_new 0 k (-1) ip port (sb_name b))\<lparr>pi_socket := fd\<rparr> = SPeerInfo_new 0 k fd ip port (sb_name b)"
    by (simp_all add: SPeerInfo_new_def)
  have "runs (SBus_processSMsg P x ?m) ?b (\<lambda>r b'. r = k \<and> sb_inq b' = q \<and> sb_messenger b' = m2 \<and>
    (let p = SPeerInfo_new 0 k (-1) ip port (sb_name b) in
     contacts_directory (sb_contacts b') = dir_replace p (SPeerInfo_new 0 k fd ip port (sb_name b)) (dir_replace p p d)))"
    by (rule runs_mono [OF runs_name_conflict [OF ready(1) _ d(3,4) _ _ d(1,2), where fd = fd and ?m1.0 = m1 and ?m2.0 = m2
          and res = res]]) (use b(2) conn sent p in \<open>simp_all add: m_def Let_def SPeerInfo_new_def\<close>)
  then show ?thesis
    using b(3) \<open>0 < k\<close>
    by (auto simp: runs_bindp runs_basic Let_def dir_replace_def SPeerInfo_new_def elim!: runs_mono)
qed

text \<open>A connection on the system where every call succeeds.\<close>

lemma sample_calls:
  "on_world (stcp_client null_posix ip port False) m = Inr (3, m)"
  "on_world (stcp_waitConnection null_posix fd t) m = Inr (0, m)"
  "\<exists>v. on_world (stcp_getLocalIP null_posix fd) m = Inr (v, m)"
  "\<exists>v. on_world (stcp_getLocalPort null_posix fd) m = Inr (v, m)"
  "\<exists>v. on_world (stcp_getIP null_posix fd) m = Inr (v, m)"
  "\<exists>v. on_world (stcp_getPort null_posix fd) m = Inr (v, m)"
  by (simp_all add: on_world_def zoom_def stcp_client_def stcp_setNonBlocking_def stcp_waitConnection_def sys_poll1_def
      stcp_getLocalIP_def stcp_getLocalPort_def stcp_getIP_def stcp_getPort_def ret_on_error_def null_posix_def bindp_def
      prog_simps)

lemma sample_connect:
  "\<exists>p. SMessenger_connect null_posix ip port (sample_messenger ()) = Inr (3, (sample_messenger ())\<lparr>ms_spoll := p\<rparr>)"
proof -
  let ?m = "sample_messenger ()"
  obtain p where p: "SPoll_add (px_realloc (null_posix :: unit posix)) 3 POLL_FLAGS (ms_spoll ?m) = Inr (0, p)"
    using SPoll_add_of [of 3 POLL_FLAGS "px_realloc (null_posix :: unit posix)" _ 9] by (auto simp: sample_messenger_def)
  obtain r1 r2 where "on_world (stcp_getLocalIP null_posix 3) ?m = Inr (r1, ?m)"
    "on_world (stcp_getLocalPort null_posix 3) ?m = Inr (r2, ?m)"
    using sample_calls(3,4) [of 3 ?m] by blast
  moreover obtain r3 r4 where "on_world (stcp_getIP null_posix 3) ?m = Inr (r3, ?m)"
    "on_world (stcp_getPort null_posix 3) ?m = Inr (r4, ?m)"
    using sample_calls(5,6) [of 3 ?m] by blast
  moreover have "on_spoll (SPoll_add (px_realloc (null_posix :: unit posix)) 3 POLL_FLAGS) ?m = Inr (0, ?m\<lparr>ms_spoll := p\<rparr>)"
    using p by (simp add: on_spoll_def zoom_def)
  ultimately show ?thesis
    by (simp add: SMessenger_connect_def ret_on_error_def bindp_Inr ret_def sample_calls(1,2)) blast
qed

lemma sample_sendTo':
  assumes "length msg \<le> 1048576"
  shows "SMessenger_sendTo null_posix tag fd msg (m :: unit messenger) = Inr (0, m)"
  using assms
  by (cases m) (simp add: SMessenger_sendTo_def stcp_getLocalPort_def stcp_send_def null_posix_def bindp_def prog_simps
      on_world_def zoom_def)

theorem name_conflict_answered_witness:
  "runs (SBus_recv 1 null_posix (sample_cxx True 5))
     ((sample_bus ())\<lparr>sb_inq := [announcement 0x0A000002 80 5 ''bob'']\<rparr>) (\<lambda>(len, tag, peer, msg) b'. tag = -1 \<and> msg = ''bob'' \<and>
       d_sock (contacts_directory (sb_contacts b')) 3 = Some peer \<and>
       d_name (contacts_directory (sb_contacts b')) ''bob'' = Some peer)"
proof -
  let ?b = "(sample_bus ())\<lparr>sb_inq := [announcement 0x0A000002 80 5 ''bob'']\<rparr>"
  obtain p where p: "SMessenger_connect null_posix 0x0A000002 80 (sb_messenger ?b) =
      Inr (3, (sample_messenger ())\<lparr>ms_spoll := p\<rparr>)"
    using sample_connect by auto
  have sent: "SMessenger_sendTo null_posix SBUS_NAMETAKEN 3 (sb_name ?b) ((sample_messenger ())\<lparr>ms_spoll := p\<rparr>) =
      Inr (0, (sample_messenger ())\<lparr>ms_spoll := p\<rparr>)"
    by (rule sample_sendTo') simp
  have "stranger ?b 0x0A000002 80"
    by (simp add: stranger_def Let_def sample_directory) (simp add: sample_messenger_def)
  from name_conflict_answered [OF sample_ready'(1) _ _ this _ _ p _ sent, of "[]"] show ?thesis
    using sample_ready'(2,3) by (auto simp: Let_def sample_messenger_def elim!: runs_mono)
qed

end
