(* ===== verification/Connections.thy ===== *)
theory Connections
  imports Naming "HOL-Library.Sublist"
begin

text \<open>
  Messages over a connection, from one bus to the client of another: what \<open>sendTo\<close> hands to the
  system are frames, one after the other; when frames are first in the stream of a connection,
  every round of the receiving thread takes one off, and the client is given the bodies in order,
  from the peer that has the connection.
\<close>

section \<open>Frames that wait\<close>

text \<open>
  The system while the connection \<open>fd\<close> is the only source of messages: \<open>avail\<close> is what waits in its
  stream, which loses nothing and grows at its end. As long as something waits, polling the
  descriptors \<open>ws\<close>, in which \<open>fd\<close> stands behind \<open>i\<close> others, reports \<open>fd\<close> alone before \<open>timeout\<close> milliseconds
  have passed on the \<open>clock\<close>. While the messages arrive, polling the server socket \<open>sv\<close> reports nothing.
\<close>

definition feeding ::
    "'w posix \<Rightarrow> ('w \<Rightarrow> string) \<Rightarrow> ('w \<Rightarrow> int) \<Rightarrow> (int \<times> 16 word) list \<Rightarrow> nat \<Rightarrow> int \<Rightarrow> int \<Rightarrow> bool" where
  "feeding P avail clock ws i fd timeout \<longleftrightarrow>
     stream_socket P fd avail \<and>
     (\<forall>w t. avail w \<noteq> [] \<longrightarrow>
        (\<exists>w' more. px_poll P ws t w = ((1, replicate i 0 @ [POLLIN]), w') \<and> avail w' = avail w @ more \<and>
           clock w' < clock w + timeout)) \<and>
     (\<forall>w. \<exists>sec usec w' more. px_gettimeofday P w = (Some (sec, usec), w') \<and> avail w' = avail w @ more \<and>
        clock w = sec * 1000 + usec div 1000 \<and> clock w' = clock w)"

definition arriving ::
    "'w posix \<Rightarrow> ('w \<Rightarrow> string) \<Rightarrow> ('w \<Rightarrow> int) \<Rightarrow> (int \<times> 16 word) list \<Rightarrow> nat \<Rightarrow> int \<Rightarrow> int \<Rightarrow> int \<Rightarrow> bool" where
  "arriving P avail clock ws i fd sv timeout \<longleftrightarrow>
     feeding P avail clock ws i fd timeout \<and>
     (\<forall>w. \<exists>rs w' more. px_poll P [(sv, POLL_FLAGS)] 0 w = ((0, rs), w') \<and> avail w' = avail w @ more)"

lemma frame_not_Nil [simp]: "frame msgtag port msg \<noteq> []"
  using length_frame [of msgtag port msg] by (cases "frame msgtag port msg") auto

text \<open>
  A connection whose other end has the address \<open>ip\<close>. Reading from it gives no address, so \<open>nextMsg\<close> asks
  for that of the other end.
\<close>

definition peer_ip :: "'w posix \<Rightarrow> int \<Rightarrow> 32 word \<Rightarrow> bool" where
  "peer_ip P fd ip \<longleftrightarrow>
     (\<forall>w n peek bs a w'. px_recvfrom P fd n peek w = (Recv_Data bs a, w') \<longrightarrow> a = None) \<and>
     (\<forall>w e addr w'. px_getpeername P fd w = ((e, addr), w') \<longrightarrow> 0 \<le> e \<and> sockaddr_getIP addr = ip)"

lemma nextMsg_ip:
  assumes "peer_ip P fd ip"
  shows "safe (SMessenger_nextMsg P stack fd len) w (\<lambda>(res, tag, data, from) w'. 0 < res \<longrightarrow> sockaddr_getIP from = ip)"
proof -
  have none: "a = None" if "sys_recvfrom P fd n peek v = (Recv_Data bs a, v')" for n peek v bs a v'
    using that assms unfolding peer_ip_def sys_recvfrom_def by (auto split: prod.splits recv_result.splits) blast
  have name: "0 \<le> e \<and> ntohl (sin_addr addr) = ip" if "px_getpeername P fd v = ((e, addr), v')" for v e addr v'
    using that assms unfolding peer_ip_def sockaddr_getIP_def by blast
  have taken: "safe (nextMsg_extract P fd n hdr tag fr) v (\<lambda>(res, tag, data, from) w'. 0 < res \<longrightarrow> sockaddr_getIP from = ip)"
    if "sin_addr fr = 0" for n hdr tag fr v
    using that
    by (auto simp: nextMsg_extract_def safe_simps Let_def stcp_getIP_def sender_def sockaddr_getIP_def dest!: none name
        split: prod.splits recv_result.splits)
  have body: "safe (nextMsg_body P stack fd len n hdr tag fr) v (\<lambda>(res, tag, data, from) w'. 0 < res \<longrightarrow> sockaddr_getIP from = ip)"
    if "sin_addr fr = 0" for n hdr tag fr v
    using that
    by (auto simp: nextMsg_body_def not_ready_def safe_simps sender_def dest!: none intro!: taken
        split: prod.splits recv_result.splits)
  show ?thesis
    by (auto simp: SMessenger_nextMsg_def not_ready_def safe_simps Let_def sender_def zero_sockaddr_def dest!: none
        intro!: body split: prod.splits recv_result.splits)
qed

lemma nextMsg_frame:
  assumes "stream_socket P fd avail" "avail w = frame msgtag port msg @ rest" "length msg \<le> 2 ^ 20" "2 ^ 20 + 8 \<le> stack"
  shows "runs (SMessenger_nextMsg P stack fd 1048576) w (\<lambda>(res, tag, data, from) w'. \<exists>more.
    res = 8 + int (length msg) \<and> tag = to_short msgtag \<and> data = msg \<and> sockaddr_getPort from = uint port \<and>
    (\<forall>ip. peer_ip P fd ip \<longrightarrow> sockaddr_getIP from = ip) \<and> avail w' = rest @ more)"
proof -
  have "next_frame (nat 1048576) (avail w @ more) = Frame (to_short msgtag) port msg (rest @ more)" for more
    using next_frame_frame [of msg "nat 1048576" msgtag port "rest @ more"] assms(2,3) by simp
  then have r: "runs (SMessenger_nextMsg P stack fd 1048576) w (\<lambda>(res, tag, data, from) w'. \<exists>more.
    res = 8 + int (length msg) \<and> tag = to_short msgtag \<and> data = msg \<and> sockaddr_getPort from = uint port \<and>
    avail w' = rest @ more)"
    using nextMsg_stream_runs [OF assms(1), of w 1048576 stack] assms(2,4)
    by (auto simp: sockaddr_getPort_def elim!: runs_mono)
  then show ?thesis
    using nextMsg_ip [of P fd _ stack 1048576 w] by (auto simp: runs_Inr safe_def)
qed

text \<open>The pass over the descriptors goes past those without events.\<close>

lemma pass_skips:
  assumes "\<forall>e \<in> set es. pf_revents e = 0"
  shows "recv_pass P (pre @ es @ ys) (length es + n) (int (length pre)) stack =
    recv_pass P (pre @ es @ ys) n (int (length pre + length es)) stack"
  using assms
proof (induction es arbitrary: pre)
  case (Cons e es)
  have "arr_get (pre @ (e # es) @ ys) (int (length pre)) = Inr e"
    by (simp add: arr_get_def nth_append)
  then have "recv_pass P (pre @ (e # es) @ ys) (length (e # es) + n) (int (length pre)) stack =
      recv_pass P ((pre @ [e]) @ es @ ys) (length es + n) (int (length (pre @ [e]))) stack"
    using Cons.prems by (simp add: fun_eq_iff bindp_def add.commute)
  then show ?case
    using Cons.IH [of "pre @ [e]"] Cons.prems by (simp del: recv_pass.simps add: add.assoc)
qed simp

lemma set_revents_one:
  "set_revents (es @ e # fs) (replicate (length es) 0 @ [r]) =
     map (\<lambda>e. e\<lparr>pf_revents := 0\<rparr>) es @ e\<lparr>pf_revents := r\<rparr> # map (\<lambda>e. e\<lparr>pf_revents := 0\<rparr>) fs"
proof -
  have "set_revents fs [] = map (\<lambda>e. e\<lparr>pf_revents := 0\<rparr>) fs"
    by (induction fs) simp_all
  then show ?thesis
    by (induction es) simp_all
qed

lemma pass_frame:
  assumes sock: "stream_socket P fd avail" "avail w = frame msgtag port msg @ rest"
    and size: "length msg \<le> 2 ^ 20" "2 ^ 21 + 8 \<le> stack" and fd: "pf_fd e = fd" "0 < fd" "pf_revents e = POLLIN"
    and es: "\<forall>e \<in> set es. pf_revents e = 0"
  shows "runs (recv_pass P (es @ e # fs) (length es + Suc n) 0 stack) (m\<lparr>ms_world := w\<rparr>) (\<lambda>r m'. \<exists>ip w' more.
    r = Inl (Some (SMsg_new (to_short msgtag) ip port fd msg)) \<and> m' = m\<lparr>ms_world := w'\<rparr> \<and> avail w' = rest @ more \<and>
    (\<forall>ip'. peer_ip P fd ip' \<longrightarrow> ip = ip'))"
proof -
  have "2 ^ 20 + 8 \<le> stack - 1048576"
    using size(2) by simp
  then obtain ip fr w' more where taken: "SMessenger_nextMsg P (stack - 1048576) fd 1048576 w =
      Inr ((8 + int (length msg), to_short msgtag, msg, fr), w')" "sockaddr_getPort fr = uint port" "sockaddr_getIP fr = ip"
      "avail w' = rest @ more" "\<forall>ip'. peer_ip P fd ip' \<longrightarrow> ip = ip'"
    using nextMsg_frame [OF sock size(1), of "stack - 1048576"] by (fastforce simp: runs_Inr)
  have "recv_pass P (es @ e # fs) (length es + Suc n) 0 stack = recv_pass P (es @ e # fs) (Suc n) (int (length es)) stack"
    using pass_skips [OF es, of P "[]" "e # fs" "Suc n" stack] by (simp del: recv_pass.simps)
  moreover have "arr_get (es @ e # fs) (int (length es)) = Inr e"
    by (simp add: arr_get_def nth_append)
  ultimately show ?thesis
    using taken fd size(2)
    by (auto simp: runs_def bindp_def has_problem_def has_flag_def Let_def on_world_def zoom_def ret_def)
qed

section \<open>The receive loop\<close>

lemma feeding_clock:
  assumes "feeding P avail clock ws i fd timeout"
  shows "\<exists>w more. on_world (timing_current_millis P) m = Inr (clock (ms_world m), m\<lparr>ms_world := w\<rparr>) \<and>
    avail w = avail (ms_world m) @ more \<and> clock w = clock (ms_world m)"
proof -
  obtain sec usec w more where "px_gettimeofday P (ms_world m) = (Some (sec, usec), w)" "avail w = avail (ms_world m) @ more"
    "clock (ms_world m) = sec * 1000 + usec div 1000" "clock w = clock (ms_world m)"
    using assms unfolding feeding_def by blast
  then show ?thesis
    by (intro exI [of _ w] exI [of _ more])
      (simp add: on_world_def zoom_def timing_current_millis_def bindp_def callp_def ret_def)
qed

text \<open>The loop takes the frame once the server socket has been looked after.\<close>

lemma recv_frame_listened:
  fixes msg :: string and port :: "16 word" and msgtag :: int
  assumes c: "feeding P avail clock (watched m) i fd timeout" "avail (ms_world m) = frame msgtag port msg @ rest"
    and listen: "SMessenger_listenConn P m0 = Inr (r0, m)" "0 \<le> r0"
    and m: "registry_ok P m" "i < length (watched m)" "watched m ! i = (fd, POLL_FLAGS)"
    and "0 \<le> timeout" "0 < fuel" "length msg \<le> 2 ^ 20" "2 ^ 21 + 8 \<le> stack"
  shows "runs (SMessenger_recv fuel P stack timeout) m0 (\<lambda>r m'. \<exists>ip p w more.
    r = Some (SMsg_new (to_short msgtag) ip port fd msg) \<and> m' = m\<lparr>ms_spoll := p, ms_world := w\<rparr> \<and>
    registry_ok P m' \<and> watched m' = watched m \<and> avail w = rest @ more \<and> (\<forall>ip'. peer_ip P fd ip' \<longrightarrow> ip = ip'))"
proof -
  let ?f = "frame msgtag port msg"
  obtain es k where spoll: "ms_spoll m = poller_of es k" "\<forall>e \<in> set es. good_entry e"
    using m(1) by (auto simp: registry_ok_def elim!: poller_invE)
  have ws: "watched m = map (\<lambda>e. (pf_fd e, pf_events e)) es"
    using spoll(1) by (simp add: watched_def)
  then have i: "i < length es"
    using m(2) by simp
  let ?rs = "replicate i 0 @ [POLLIN]" and ?clear = "map (\<lambda>e. e\<lparr>pf_revents := 0\<rparr>)"
  let ?e = "(es ! i)\<lparr>pf_revents := POLLIN\<rparr>"
  let ?ys = "?clear (take i es) @ ?e # ?clear (drop (Suc i) es)"
  have "set_revents (take i es @ es ! i # drop (Suc i) es) (replicate (length (take i es)) 0 @ [POLLIN]) = ?ys"
    by (rule set_revents_one)
  then have ys: "set_revents es ?rs = ?ys"
    using i by (simp add: id_take_nth_drop [OF i, symmetric] min_absorb2)
  have e: "pf_fd ?e = fd" "0 < fd" "pf_revents ?e = POLLIN"
    using m(3) i spoll(2) unfolding ws by (auto simp: good_entry_def)
  let ?w1 = "ms_world m"
  obtain w2 a2 where w2: "on_world (timing_current_millis P) m = Inr (clock ?w1, m\<lparr>ms_world := w2\<rparr>)"
    "clock w2 = clock ?w1" "avail w2 = ?f @ rest @ a2"
    using feeding_clock [OF c(1), of m] c(2) by auto
  have "avail w2 \<noteq> []"
    using w2(3) by simp
  then obtain w3 a3 where "px_poll P (watched m) timeout w2 = ((1, ?rs), w3)" "avail w3 = avail w2 @ a3"
    "clock w3 < clock w2 + timeout"
    using c(1) unfolding feeding_def by blast
  then have w3: "px_poll P (watched m) timeout w2 = ((1, ?rs), w3)" "avail w3 = ?f @ rest @ a2 @ a3"
    "clock w3 < clock ?w1 + timeout"
    using w2(2,3) by simp_all
  have polled: "sys_poll P es timeout w2 = ((1, ?ys), w3)"
    using w3(1) ys unfolding ws by (simp add: sys_poll_def)
  note poll = SPoll_doPoll_of [OF assms(8) polled, of k]
  have kept: "poller_inv (poller_of ?ys k)" "poller_entries (poller_of ?ys k) = poller_entries (ms_spoll m)"
    using safeD [OF safe_doPoll poll] m(1) spoll(1) by (auto simp: registry_ok_def)
  have polled: "on_both (SPoll_doPoll P timeout) (m\<lparr>ms_world := w2\<rparr>) =
      Inr (1, m\<lparr>ms_spoll := poller_of ?ys k, ms_world := w3\<rparr>)"
    using poll spoll(1) by (simp add: on_both_def zoom_def)
  let ?m3 = "m\<lparr>ms_spoll := poller_of ?ys k\<rparr>"
  obtain w4 a4 where w4: "on_world (timing_current_millis P) (?m3\<lparr>ms_world := w3\<rparr>) = Inr (clock w3, ?m3\<lparr>ms_world := w4\<rparr>)"
    "avail w4 = ?f @ rest @ a4"
    using feeding_clock [OF c(1), of "?m3\<lparr>ms_world := w3\<rparr>"] w3(2) by auto
  define zs where "zs = ?ys @ replicate k zero_pollfd"
  have polls: "on_spoll SPoll_getpolls (?m3\<lparr>ms_world := w4\<rparr>) =
      Inr ((int (length es), Some zs), ?m3\<lparr>ms_world := w4\<rparr>)"
    using getpolls_of [of "?m3\<lparr>ms_world := w4\<rparr>" ?ys k] i by (simp add: zs_def)
  have n: "nat (int (length es)) = length (?clear (take i es)) + Suc (length (drop (Suc i) es))"
    using i by simp
  obtain ip w5 more where pass: "recv_pass P zs (nat (int (length es))) 0 stack (?m3\<lparr>ms_world := w4\<rparr>) =
      Inr (Inl (Some (SMsg_new (to_short msgtag) ip port fd msg)), ?m3\<lparr>ms_world := w5\<rparr>)" "avail w5 = rest @ more"
      "\<forall>ip'. peer_ip P fd ip' \<longrightarrow> ip = ip'"
    using pass_frame [of P fd avail w4 msgtag port msg "rest @ a4" stack ?e "?clear (take i es)"
        "?clear (drop (Suc i) es) @ replicate k zero_pollfd" "length (drop (Suc i) es)" ?m3]
      c(1) w4(2) assms(10,11) e unfolding n zs_def by (auto simp: feeding_def runs_Inr)
  obtain f where f: "fuel = Suc f"
    using assms(9) by (cases fuel) simp_all
  have "recv_loop fuel P timeout (clock ?w1 + timeout) stack (m\<lparr>ms_world := w2\<rparr>) =
      Inr (Some (SMsg_new (to_short msgtag) ip port fd msg), ?m3\<lparr>ms_world := w5\<rparr>)"
    unfolding f recv_loop_Suc bindp_Inr [where m = "on_both (SPoll_doPoll P timeout)", OF polled] recv_round_def
    unfolding if_P [OF zero_less_one] bindp_Inr [where m = "on_world (timing_current_millis P)", OF w4(1)]
    using w3(3) by (simp add: bindp_Inr [where m = "on_spoll SPoll_getpolls", OF polls] ret_def
        bindp_Inr [where m = "recv_pass P zs (nat (int (length es))) 0 stack", OF pass(1)] del: nat_int)
  moreover have "registry_ok P (?m3\<lparr>ms_world := w5\<rparr>)" "watched (?m3\<lparr>ms_world := w5\<rparr>) = watched m"
    using kept m(1) by (simp_all add: registry_ok_def watched_def)
  ultimately have "SMessenger_recv fuel P stack timeout m0 =
      Inr (Some (SMsg_new (to_short msgtag) ip port fd msg), m\<lparr>ms_spoll := poller_of ?ys k, ms_world := w5\<rparr>)"
    "registry_ok P (m\<lparr>ms_spoll := poller_of ?ys k, ms_world := w5\<rparr>)"
    "watched (m\<lparr>ms_spoll := poller_of ?ys k, ms_world := w5\<rparr>) = watched m"
    using listen(2)
    by (simp_all add: SMessenger_recv_def bindp_Inr [where m = "SMessenger_listenConn P", OF listen(1)]
        bindp_Inr [where m = "on_world (timing_current_millis P)", OF w2(1)])
  then show ?thesis
    using pass(2,3) unfolding runs_Inr by blast
qed

lemma recv_frame:
  fixes msg :: string and port :: "16 word" and msgtag :: int
  assumes c: "arriving P avail clock (watched m) i fd (ms_servsock m) timeout" "avail (ms_world m) = frame msgtag port msg @ rest"
    and m: "registry_ok P m" "i < length (watched m)" "watched m ! i = (fd, POLL_FLAGS)"
    and "0 \<le> timeout" "0 < fuel" "length msg \<le> 2 ^ 20" "2 ^ 21 + 8 \<le> stack"
  shows "runs (SMessenger_recv fuel P stack timeout) m (\<lambda>r m'. \<exists>ip p w more.
    r = Some (SMsg_new (to_short msgtag) ip port fd msg) \<and> m' = m\<lparr>ms_spoll := p, ms_world := w\<rparr> \<and>
    registry_ok P m' \<and> watched m' = watched m \<and> avail w = rest @ more)"
proof -
  obtain rs w a where w: "px_poll P [(ms_servsock m, POLL_FLAGS)] 0 (ms_world m) = ((0, rs), w)"
    "avail w = avail (ms_world m) @ a"
    using c(1) unfolding arriving_def by blast
  let ?m = "m\<lparr>ms_world := w\<rparr>"
  have "SMessenger_listenConn P m = Inr (0, ?m)"
    using w(1)
    by (simp add: SMessenger_listenConn_def bindp_def getp_def on_world_def zoom_def callp_def sys_poll1_def ret_def)
  moreover have "feeding P avail clock (watched ?m) i fd timeout" "avail (ms_world ?m) = frame msgtag port msg @ rest @ a"
    using c w(2) by (simp_all add: arriving_def)
  ultimately show ?thesis
    using m assms(6-9)
    by (intro runs_mono [OF recv_frame_listened [of P avail clock ?m i fd timeout msgtag port msg "rest @ a" m 0]]) auto
qed

text \<open>A round of the receiving thread puts the message in the queue.\<close>

lemma runs_round_frame:
  fixes b :: "'w sbus" and msg :: string and port :: "16 word" and msgtag :: int
  defines "m \<equiv> sb_messenger b"
  assumes "arriving P avail clock (watched m) i fd (ms_servsock m) WAIT_MS"
      "avail (ms_world m) = frame msgtag port msg @ rest"
    and "registry_ok P m" "i < length (watched m)" "watched m ! i = (fd, POLL_FLAGS)"
    and "0 < fuel" "length msg \<le> 2 ^ 20" "2 ^ 21 + 8 \<le> stack"
  shows "runs (SBus_inRound fuel P stack) b (\<lambda>_ b'. \<exists>ip p w more.
    b' = b\<lparr>sb_messenger := m\<lparr>ms_spoll := p, ms_world := w\<rparr>, sb_inq := sb_inq b @ [SMsg_new (to_short msgtag) ip port fd msg]\<rparr> \<and>
    registry_ok P (m\<lparr>ms_spoll := p, ms_world := w\<rparr>) \<and> watched (m\<lparr>ms_spoll := p, ms_world := w\<rparr>) = watched m \<and>
    avail w = rest @ more)"
  unfolding SBus_inRound_def runs_bindp on_messenger_def runs_zoom m_def [symmetric]
proof (rule runs_mono [OF recv_frame [OF assms(2-6) _ assms(7-9)]])
  fix r m'
  assume "\<exists>ip p w more. r = Some (SMsg_new (to_short msgtag) ip port fd msg) \<and> m' = m\<lparr>ms_spoll := p, ms_world := w\<rparr> \<and>
    registry_ok P m' \<and> watched m' = watched m \<and> avail w = rest @ more"
  then show "runs (case r of None \<Rightarrow> ret () | Some m \<Rightarrow> modp (\<lambda>b. b\<lparr>sb_inq := sb_inq b @ [m]\<rparr>)) (b\<lparr>sb_messenger := m'\<rparr>)
      (\<lambda>_ b'. \<exists>ip p w more.
        b' = b\<lparr>sb_messenger := m\<lparr>ms_spoll := p, ms_world := w\<rparr>, sb_inq := sb_inq b @ [SMsg_new (to_short msgtag) ip port fd msg]\<rparr> \<and>
        registry_ok P (m\<lparr>ms_spoll := p, ms_world := w\<rparr>) \<and> watched (m\<lparr>ms_spoll := p, ms_world := w\<rparr>) = watched m \<and>
        avail w = rest @ more)"
    by (clarsimp simp: runs_basic) (intro exI conjI, rule refl, assumption+)
qed simp

section \<open>Sequences of messages\<close>

text \<open>
  A message is its tag and its body. \<open>wire\<close> is what a sequence of them, sent from the local port
  \<open>port\<close>, is in the stream; \<open>queued\<close> relates one to what the receiving thread makes of it.
\<close>

definition wire :: "16 word \<Rightarrow> (int \<times> string) list \<Rightarrow> string" where
  "wire port ms = concat (map (\<lambda>(tag, msg). frame tag port msg) ms)"

lemma wire_simps [simp]: "wire port [] = []" "wire port ((tag, msg) # ms) = frame tag port msg @ wire port ms"
  by (simp_all add: wire_def)

definition queued :: "16 word \<Rightarrow> int \<Rightarrow> int \<times> string \<Rightarrow> smsg \<Rightarrow> bool" where
  "queued port fd m q \<longleftrightarrow> (\<exists>ip. q = SMsg_new (to_short (fst m)) ip port fd (snd m))"

primrec rounds :: "nat \<Rightarrow> nat \<Rightarrow> 'w posix \<Rightarrow> nat \<Rightarrow> ('w sbus, unit) prog" where
  "rounds 0 fuel P stack = ret ()"
| "rounds (Suc n) fuel P stack = bindp (SBus_inRound fuel P stack) (\<lambda>_. rounds n fuel P stack)"

primrec recvs :: "nat \<Rightarrow> 'w posix \<Rightarrow> cxx \<Rightarrow> ('w sbus, (int \<times> int \<times> int \<times> string) list) prog" where
  "recvs 0 P x = ret []"
| "recvs (Suc n) P x = bindp (SBus_recv 1 P x) (\<lambda>r. bindp (recvs n P x) (\<lambda>rs. ret (r # rs)))"

fun sends :: "'w posix \<Rightarrow> cxx \<Rightarrow> int \<Rightarrow> (int \<times> string) list \<Rightarrow> ('w sbus, int list) prog" where
  "sends P x k [] = ret []"
| "sends P x k ((tag, msg) # ms) = bindp (SBus_sendTo P x tag k msg) (\<lambda>r. bindp (sends P x k ms) (\<lambda>rs. ret (r # rs)))"

lemma runs_rounds:
  assumes "arriving P avail clock (watched (sb_messenger b)) i fd (ms_servsock (sb_messenger b)) WAIT_MS"
      "avail (ms_world (sb_messenger b)) = wire port ms @ rest"
    and "registry_ok P (sb_messenger b)" "i < length (watched (sb_messenger b))" "watched (sb_messenger b) ! i = (fd, POLL_FLAGS)"
    and fuel: "0 < fuel" "2 ^ 21 + 8 \<le> stack" and size: "\<forall>m \<in> set ms. length (snd m) \<le> 2 ^ 20"
  shows "runs (rounds (length ms) fuel P stack) b (\<lambda>_ b'. \<exists>p w qs. list_all2 (queued port fd) ms qs \<and>
    b' = b\<lparr>sb_messenger := (sb_messenger b)\<lparr>ms_spoll := p, ms_world := w\<rparr>, sb_inq := sb_inq b @ qs\<rparr>)"
  using assms(1-5) size
proof (induction ms arbitrary: b rest)
  case Nil
  have same: "b = b\<lparr>sb_messenger := (sb_messenger b)\<lparr>ms_spoll := ms_spoll (sb_messenger b), ms_world := ms_world (sb_messenger b)\<rparr>\<rparr>"
    by simp
  show ?case
    by (simp add: runs_basic) (intro exI, rule same)
next
  case (Cons t ms)
  obtain tag msg where t: "t = (tag, msg)"
    by fastforce
  have step: "runs (SBus_inRound fuel P stack) b (\<lambda>_ b'. \<exists>ip p w more.
    b' = b\<lparr>sb_messenger := (sb_messenger b)\<lparr>ms_spoll := p, ms_world := w\<rparr>, sb_inq := sb_inq b @ [SMsg_new (to_short tag) ip port fd msg]\<rparr> \<and>
    registry_ok P ((sb_messenger b)\<lparr>ms_spoll := p, ms_world := w\<rparr>) \<and>
    watched ((sb_messenger b)\<lparr>ms_spoll := p, ms_world := w\<rparr>) = watched (sb_messenger b) \<and> avail w = (wire port ms @ rest) @ more)"
    by (rule runs_round_frame [OF Cons.prems(1) _ Cons.prems(3-5) fuel(1) _ fuel(2)]) (use Cons.prems(2,6) t in simp_all)
  show ?case
    unfolding list.size(4) add_Suc_right add_0_right rounds.simps(2) runs_bindp
  proof (rule runs_mono [OF step], elim exE conjE)
    fix u b1 ip p w more
    assume b1: "b1 = b\<lparr>sb_messenger := (sb_messenger b)\<lparr>ms_spoll := p, ms_world := w\<rparr>,
        sb_inq := sb_inq b @ [SMsg_new (to_short tag) ip port fd msg]\<rparr>"
      and kept: "registry_ok P ((sb_messenger b)\<lparr>ms_spoll := p, ms_world := w\<rparr>)"
        "watched ((sb_messenger b)\<lparr>ms_spoll := p, ms_world := w\<rparr>) = watched (sb_messenger b)"
      and rest: "avail w = (wire port ms @ rest) @ more"
    have "runs (rounds (length ms) fuel P stack) b1 (\<lambda>_ b'. \<exists>p w qs. list_all2 (queued port fd) ms qs \<and>
      b' = b1\<lparr>sb_messenger := (sb_messenger b1)\<lparr>ms_spoll := p, ms_world := w\<rparr>, sb_inq := sb_inq b1 @ qs\<rparr>)"
      by (rule Cons.IH [where rest = "rest @ more"]) (use kept rest Cons.prems in \<open>simp_all add: b1\<close>)
    then show "runs (rounds (length ms) fuel P stack) b1 (\<lambda>_ b'. \<exists>p w qs. list_all2 (queued port fd) (t # ms) qs \<and>
      b' = b\<lparr>sb_messenger := (sb_messenger b)\<lparr>ms_spoll := p, ms_world := w\<rparr>, sb_inq := sb_inq b @ qs\<rparr>)"
    proof (rule runs_mono, elim exE conjE)
      fix u b' p' w' qs
      assume "list_all2 (queued port fd) ms qs"
        "b' = b1\<lparr>sb_messenger := (sb_messenger b1)\<lparr>ms_spoll := p', ms_world := w'\<rparr>, sb_inq := sb_inq b1 @ qs\<rparr>"
      then show "\<exists>p w qs. list_all2 (queued port fd) (t # ms) qs \<and>
          b' = b\<lparr>sb_messenger := (sb_messenger b)\<lparr>ms_spoll := p, ms_world := w\<rparr>, sb_inq := sb_inq b @ qs\<rparr>"
        by (intro exI [of _ p'] exI [of _ w'] exI [of _ "SMsg_new (to_short tag) ip port fd msg # qs"])
          (auto simp: b1 t queued_def)
    qed
  qed
qed

lemma SMsg_new_sel [simp]:
  "SMsg_isError (SMsg_new t ip port fd msg) = False" "SMsg_getMsgTag (SMsg_new t ip port fd msg) = to_short t"
  "SMsg_getMsg (SMsg_new t ip port fd msg) = msg" "SMsg_getSocket (SMsg_new t ip port fd msg) = fd"
  "SMsg_getIP (SMsg_new t ip port fd msg) = ip" "SMsg_getPort (SMsg_new t ip port fd msg) = uint port"
  by (simp_all add: SMsg_defs)

text \<open>The client is given what is queued, in order, from the peer that has the connection.\<close>

lemma runs_recv_queued:
  assumes ready: "book_ready x b" "d_sock (contacts_directory (sb_contacts b)) fd = Some k"
    and q: "queued port fd m q" "sb_inq b = q # qs" and m: "0 < to_short (fst m)" "port \<noteq> ms_port (sb_messenger b)"
  shows "runs (SBus_recv 1 P x) b (\<lambda>r b'. r = (int (length (snd m)), to_short (fst m), k, snd m) \<and>
    sb_inq b' = qs \<and> sb_messenger b' = sb_messenger b \<and> book_ready x b' \<and>
    contacts_directory (sb_contacts b') = contacts_directory (sb_contacts b))"
proof -
  obtain ip where q': "q = SMsg_new (to_short (fst m)) ip port fd (snd m)"
    using q(1) by (auto simp: queued_def)
  let ?b = "b\<lparr>sb_inq := qs\<rparr>"
  have b: "book_ready x ?b" "\<not> own_message ?b q"
    using ready(1) m(2) by (simp_all add: q' book_ready_def own_message_def word_uint_eq_iff)
  have sender: "sender_of x ?b q = (k, contacts_directory (sb_contacts b))"
    using ready(2) by (simp add: q' sender_of_def dir_sender_def)
  have "0 < fst (sender_of x ?b q)"
    using ready(1) by (intro sender_positive) (simp_all add: book_ready_def)
  then have "0 < k"
    by (simp add: sender)
  have same: "ct_lastPeerId c' = ct_lastPeerId c" if "contacts_directory c' = contacts_directory c" for c c'
    using arg_cong [OF that, of d_last] by (simp add: contacts_directory_def)
  have "runs (SBus_processSMsg P x q) ?b (\<lambda>k' b'. k' = k \<and> sb_inq b' = qs \<and> sb_messenger b' = sb_messenger b \<and> book_ready x b' \<and>
    contacts_directory (sb_contacts b') = contacts_directory (sb_contacts b))"
    by (rule runs_mono [OF runs_user_message [OF b(1) _ b(2)]])
      (use sender ready(1) m(1) in \<open>auto simp: q' book_ready_def book_ok_def dest: same\<close>)
  then show ?thesis
    using \<open>0 < k\<close> by (auto simp: q(2) q' runs_basic runs_bindp elim!: runs_mono)
qed

lemma runs_recvs:
  assumes "book_ready x b" "d_sock (contacts_directory (sb_contacts b)) fd = Some k"
    and "list_all2 (queued port fd) ms (sb_inq b)" "\<forall>m \<in> set ms. 0 < to_short (fst m)" "port \<noteq> ms_port (sb_messenger b)"
  shows "runs (recvs (length ms) P x) b (\<lambda>rs b'. rs = map (\<lambda>(tag, msg). (int (length msg), to_short tag, k, msg)) ms \<and>
    sb_inq b' = [] \<and> contacts_directory (sb_contacts b') = contacts_directory (sb_contacts b))"
  using assms
proof (induction ms arbitrary: b)
  case Nil
  then show ?case
    by (simp add: runs_basic)
next
  case (Cons m ms)
  obtain q qs where q: "sb_inq b = q # qs" "queued port fd m q" "list_all2 (queued port fd) ms qs"
    using Cons.prems(3) by (auto simp: list_all2_Cons1)
  have m: "0 < to_short (fst m)"
    using Cons.prems(4) by simp
  show ?case
    unfolding list.size(4) add_Suc_right add_0_right recvs.simps(2) runs_bindp
  proof (rule runs_mono [OF runs_recv_queued [OF Cons.prems(1,2) q(2,1) m Cons.prems(5)]])
    fix r b1
    assume b1: "r = (int (length (snd m)), to_short (fst m), k, snd m) \<and>
      sb_inq b1 = qs \<and> sb_messenger b1 = sb_messenger b \<and> book_ready x b1 \<and>
      contacts_directory (sb_contacts b1) = contacts_directory (sb_contacts b)"
    have "runs (recvs (length ms) P x) b1 (\<lambda>rs b'. rs = map (\<lambda>(tag, msg). (int (length msg), to_short tag, k, msg)) ms \<and>
      sb_inq b' = [] \<and> contacts_directory (sb_contacts b') = contacts_directory (sb_contacts b1))"
      by (rule Cons.IH) (use b1 q(3) Cons.prems in simp_all)
    then show "runs (recvs (length ms) P x) b1 (\<lambda>rs b'. runs (ret (r # rs)) b' (\<lambda>rs b'.
        rs = map (\<lambda>(tag, msg). (int (length msg), to_short tag, k, msg)) (m # ms) \<and> sb_inq b' = [] \<and>
        contacts_directory (sb_contacts b') = contacts_directory (sb_contacts b)))"
      by (rule runs_mono) (use b1 in \<open>simp add: runs_basic case_prod_beta\<close>)
  qed
qed

text \<open>
  The system of the sender: the socket \<open>fd\<close> has the local port \<open>port\<close> and takes all it is given, which
  \<open>sent\<close> collects.
\<close>

definition outgoing :: "'v posix \<Rightarrow> ('v \<Rightarrow> string) \<Rightarrow> int \<Rightarrow> 16 word \<Rightarrow> bool" where
  "outgoing P sent fd port \<longleftrightarrow>
     (\<forall>w. \<exists>e addr w'. px_getsockname P fd w = ((e, addr), w') \<and> 0 \<le> e \<and> word_of_int (sockaddr_getPort addr) = port \<and>
        sent w' = sent w) \<and>
     (\<forall>d w. \<exists>w'. px_send P fd d w = (int (length d), w') \<and> sent w' = sent w @ d)"

lemma runs_sendTo_frame:
  assumes "outgoing P sent fd port" "length msg \<le> 2 ^ 20"
  shows "\<exists>w. SMessenger_sendTo P msgtag fd msg m = Inr (0, m\<lparr>ms_world := w\<rparr>) \<and>
    sent w = sent (ms_world m) @ frame msgtag port msg"
proof -
  obtain e addr w where w: "px_getsockname P fd (ms_world m) = ((e, addr), w)" "0 \<le> e" "word_of_int (sockaddr_getPort addr) = port"
    "sent w = sent (ms_world m)"
    using assms(1) unfolding outgoing_def by blast
  obtain w' where w': "px_send P fd (frame msgtag port msg) w = (int (length (frame msgtag port msg)), w')"
    "sent w' = sent w @ frame msgtag port msg"
    using assms(1) unfolding outgoing_def by blast
  have "runs (SMessenger_sendTo P msgtag fd msg) m (\<lambda>r m'. r = 0 \<and> m' = m\<lparr>ms_world := w'\<rparr>)"
    by (rule runs_mono [OF SMessenger_send_result [THEN conjunct2, THEN mp, OF assms(2), THEN conjunct2]])
      (use w w' in \<open>simp add: length_frame\<close>)
  then show ?thesis
    using w(4) w'(2) by (auto simp: runs_Inr)
qed

lemma runs_sends:
  fixes a :: "'a sbus"
  assumes "book_ok y (sb_contacts a)" "d_peer (contacts_directory (sb_contacts a)) k = Some p" "0 \<le> pi_socket p"
    and out: "outgoing P sent (pi_socket p) port" and size: "\<forall>m \<in> set ms. length (snd m) \<le> 2 ^ 20"
  shows "runs (sends P y k ms) a (\<lambda>rs a'. rs = replicate (length ms) 0 \<and>
    sent (ms_world (sb_messenger a')) = sent (ms_world (sb_messenger a)) @ wire port ms)"
  using assms(1-3) size
proof (induction ms arbitrary: a)
  case Nil
  then show ?case
    by (simp add: runs_basic)
next
  case (Cons m ms)
  obtain tag msg where m: "m = (tag, msg)"
    by fastforce
  obtain w where w: "SMessenger_sendTo P tag (pi_socket p) msg (sb_messenger a) = Inr (0, (sb_messenger a)\<lparr>ms_world := w\<rparr>)"
    "sent w = sent (ms_world (sb_messenger a)) @ frame tag port msg"
    using runs_sendTo_frame [OF out, of msg tag "sb_messenger a"] Cons.prems(4) m by auto
  show ?case
    unfolding m sends.simps(2) runs_bindp
  proof (rule runs_mono [OF runs_sendTo_connected [OF Cons.prems(1-3) w(1)]])
    fix r :: int and a1 :: "'a sbus"
    assume a1: "r = 0 \<and> book_ok y (sb_contacts a1) \<and> contacts_directory (sb_contacts a1) = contacts_directory (sb_contacts a) \<and>
      sb_messenger a1 = (sb_messenger a)\<lparr>ms_world := w\<rparr>"
    have "runs (sends P y k ms) a1 (\<lambda>rs a'. rs = replicate (length ms) 0 \<and>
      sent (ms_world (sb_messenger a')) = sent (ms_world (sb_messenger a1)) @ wire port ms)"
      by (rule Cons.IH) (use a1 Cons.prems in simp_all)
    then show "runs (sends P y k ms) a1 (\<lambda>rs a'. runs (ret (r # rs)) a' (\<lambda>rs (a' :: 'a sbus).
        rs = replicate (length ((tag, msg) # ms)) 0 \<and>
        sent (ms_world (sb_messenger a')) = sent (ms_world (sb_messenger a)) @ wire port ((tag, msg) # ms)))"
      by (rule runs_mono) (use a1 w(2) in \<open>simp add: runs_basic\<close>)
  qed
qed

section \<open>Property\<close>

text \<open>
  C4: messages travel over a connection in order, and none is lost. A client that sends a sequence
  of messages to a connected peer hands the system the frames of all of them, one after the other,
  and is told of success each time. When this is what is first in the stream of a connection of
  another bus, as many rounds of that bus's receiving thread and as many turns of its client's
  \<open>recv\<close>, each without waiting, deliver the tags and bodies in the order in which they were sent,
  from the peer that the connection is filed with. Nothing stays in the queue, and the contacts are
  as they were.
\<close>

theorem messages_over_connection:
  fixes b :: "'w sbus" and a :: "'v sbus" and ms :: "(int \<times> string) list" and port :: "16 word"
  defines "m \<equiv> sb_messenger b"
  assumes ms: "\<forall>(tag, msg) \<in> set ms. 0 < to_short tag \<and> length msg \<le> 2 ^ 20"
    and a: "forgiving y" "contacts_ok (sb_contacts a)" "d_peer (contacts_directory (sb_contacts a)) j = Some p" "0 \<le> pi_socket p"
    and out: "outgoing PA sent (pi_socket p) port"
    and b: "forgiving x" "contacts_ok (sb_contacts b)" "ct_lastPeerId (sb_contacts b) < 2147483647" "registry_ok P m" "sb_inq b = []"
    and fd: "i < length (watched m)" "watched m ! i = (fd, POLL_FLAGS)" "d_sock (contacts_directory (sb_contacts b)) fd = Some k"
    and arriving: "arriving P avail clock (watched m) i fd (ms_servsock m) WAIT_MS" "avail (ms_world m) = wire port ms @ rest"
    and bounds: "port \<noteq> ms_port m" "0 < fuel" "2 ^ 21 + 8 \<le> stack"
  shows "runs (sends PA y j ms) a (\<lambda>rs a'. rs = replicate (length ms) 0 \<and>
      sent (ms_world (sb_messenger a')) = sent (ms_world (sb_messenger a)) @ wire port ms) \<and>
    runs (bindp (rounds (length ms) fuel P stack) (\<lambda>_. recvs (length ms) P x)) b (\<lambda>rs b'.
      rs = map (\<lambda>(tag, msg). (int (length msg), to_short tag, k, msg)) ms \<and> sb_inq b' = [] \<and>
      contacts_directory (sb_contacts b') = contacts_directory (sb_contacts b))"
proof
  have size: "\<forall>m \<in> set ms. length (snd m) \<le> 2 ^ 20" and tags: "\<forall>m \<in> set ms. 0 < to_short (fst m)"
    using ms by auto
  show "runs (sends PA y j ms) a (\<lambda>rs a'. rs = replicate (length ms) 0 \<and>
      sent (ms_world (sb_messenger a')) = sent (ms_world (sb_messenger a)) @ wire port ms)"
    by (rule runs_sends [OF _ a(3,4) out size]) (simp add: book_ok_def a)
  show "runs (bindp (rounds (length ms) fuel P stack) (\<lambda>_. recvs (length ms) P x)) b (\<lambda>rs b'.
      rs = map (\<lambda>(tag, msg). (int (length msg), to_short tag, k, msg)) ms \<and> sb_inq b' = [] \<and>
      contacts_directory (sb_contacts b') = contacts_directory (sb_contacts b))"
    unfolding runs_bindp
  proof (rule runs_mono [OF runs_rounds [OF arriving [unfolded m_def] b(4) [unfolded m_def] fd(1,2) [unfolded m_def]
        bounds(2,3) size]], elim exE conjE)
    fix u b1 p w qs
    assume qs: "list_all2 (queued port fd) ms qs"
      "b1 = b\<lparr>sb_messenger := (sb_messenger b)\<lparr>ms_spoll := p, ms_world := w\<rparr>, sb_inq := sb_inq b @ qs\<rparr>"
    show "runs (recvs (length ms) P x) b1 (\<lambda>rs b'.
        rs = map (\<lambda>(tag, msg). (int (length msg), to_short tag, k, msg)) ms \<and> sb_inq b' = [] \<and>
        contacts_directory (sb_contacts b') = contacts_directory (sb_contacts b))"
      by (rule runs_mono [OF runs_recvs [where fd = fd and port = port and k = k]])
        (use qs b fd(3) tags bounds(1) in \<open>simp_all add: book_ready_def book_ok_def m_def\<close>)
  qed
qed

definition arrival_posix :: "string posix" where
  "arrival_posix = stream_posix
     \<lparr>px_poll := (\<lambda>ps t w. if map fst ps = [5, 7] then ((1, [0, POLLIN]), w) else ((0, []), w))\<rparr>"

definition connected_bus :: "string \<Rightarrow> string sbus" where
  "connected_bus w =
     (let e = \<lparr>pf_fd = 5, pf_events = POLL_FLAGS, pf_revents = 0\<rparr> in
      (sample_bus w)\<lparr>sb_messenger := (sample_messenger w)\<lparr>ms_spoll := poller_of [e, e\<lparr>pf_fd := 7\<rparr>] 8\<rparr>\<rparr>)"

lemma connected_bus_sel [simp]:
  "sb_contacts (connected_bus w) = sample_contacts" "sb_inq (connected_bus w) = []"
  "watched (sb_messenger (connected_bus w)) = [(5, POLL_FLAGS), (7, POLL_FLAGS)]"
  "registry_ok arrival_posix (sb_messenger (connected_bus w))"
  "ms_servsock (sb_messenger (connected_bus w)) = 3" "ms_world (sb_messenger (connected_bus w)) = w"
  "ms_port (sb_messenger (connected_bus w)) = 80"
  by (simp_all add: connected_bus_def Let_def sample_bus_def sample_messenger_def watched_def)
    (auto simp: registry_ok_def arrival_posix_def stream_posix_def null_posix_def good_entry_def intro!: poller_invI)

lemma arrival_posix_ok:
  "arriving arrival_posix (\<lambda>w. w) (\<lambda>_. 1000) [(5, POLL_FLAGS), (7, POLL_FLAGS)] 1 7 3 WAIT_MS"
  by (auto simp: arriving_def feeding_def stream_socket_def arrival_posix_def stream_posix_def null_posix_def)

text \<open>A system that keeps what is sent.\<close>

definition sending_posix :: "string posix" where
  "sending_posix = null_posix\<lparr>px_send := (\<lambda>fd d w. (int (length d), w @ d))\<rparr>"

lemma sending_posix_ok: "outgoing sending_posix (\<lambda>w. w) fd 0"
  by (simp add: outgoing_def sending_posix_def null_posix_def sockaddr_getPort_def zero_sockaddr_def)

theorem messages_over_connection_witness:
  "runs (sends sending_posix (sample_cxx True 5) 1 [(9, ''hi''), (8, ''ho'')]) (sample_bus []) (\<lambda>rs a'.
     rs = replicate (length [(9 :: int, ''hi''), (8, ''ho'')]) 0 \<and>
     ms_world (sb_messenger a') = ms_world (sb_messenger (sample_bus [])) @ wire 0 [(9, ''hi''), (8, ''ho'')]) \<and>
   runs (bindp (rounds (length [(9 :: int, ''hi''), (8, ''ho'')]) 1 arrival_posix (2 ^ 22))
      (\<lambda>_. recvs (length [(9 :: int, ''hi''), (8, ''ho'')]) arrival_posix (sample_cxx True 5)))
     (connected_bus (wire 0 [(9, ''hi''), (8, ''ho'')])) (\<lambda>rs b'.
       rs = map (\<lambda>(tag, msg). (int (length msg), to_short tag, 1, msg)) [(9, ''hi''), (8, ''ho'')] \<and> sb_inq b' = [] \<and>
       contacts_directory (sb_contacts b') = contacts_directory (sb_contacts (connected_bus (wire 0 [(9, ''hi''), (8, ''ho'')]))))"
proof (rule messages_over_connection [where i = 1 and avail = "\<lambda>w. w" and fd = 7 and rest = "[]" and p = sample_peer])
  show "arriving arrival_posix (\<lambda>w. w) (\<lambda>_. 1000) (watched (sb_messenger (connected_bus (wire 0 [(9, ''hi''), (8, ''ho'')])))) 1 7
      (ms_servsock (sb_messenger (connected_bus (wire 0 [(9, ''hi''), (8, ''ho'')])))) WAIT_MS"
    using arrival_posix_ok by simp
  show "outgoing sending_posix (\<lambda>w. w) (pi_socket sample_peer) 0"
    by (rule sending_posix_ok)
qed (simp_all add: sample_cxx_ok sample_contacts_ok sample_last sample_directory sample_peer_def SPeerInfo_new_def to_short_def)

end
