(* ===== verification/First_Contact.thy ===== *)
theory First_Contact
  imports Connections
begin

text \<open>
  The first message over a connection that another bus makes: the receiving thread accepts the
  connection and reads from it, and the client is given the message. A frame on a connection carries
  the local port of the connection where it was sent, not the port of the sender's server, so the
  sender is not found in the contacts by its location even if it has announced itself.
\<close>

section \<open>Accepting\<close>

text \<open>A connection waits at the server socket: polling it reports that, and accepting it gives \<open>fd\<close>.\<close>

definition knocking :: "'w posix \<Rightarrow> int \<Rightarrow> int \<Rightarrow> 'w \<Rightarrow> 'w \<Rightarrow> bool" where
  "knocking P sv fd w w' \<longleftrightarrow>
     (\<exists>v. px_poll P [(sv, POLL_FLAGS)] 0 w = ((1, [POLLIN]), v) \<and> px_accept P sv v = (fd, w')) \<and> 0 < fd"

lemma listenConn_accepts:
  assumes "knocking P (ms_servsock m) fd (ms_world m) w" "registry_ok P m"
  shows "\<exists>p. SMessenger_listenConn P m = Inr (0, m\<lparr>ms_spoll := p, ms_world := w\<rparr>) \<and>
    registry_ok P (m\<lparr>ms_spoll := p, ms_world := w\<rparr>) \<and>
    watched (m\<lparr>ms_spoll := p, ms_world := w\<rparr>) = watched m @ [(fd, POLL_FLAGS)]"
proof -
  obtain v where v: "px_poll P [(ms_servsock m, POLL_FLAGS)] 0 (ms_world m) = ((1, [POLLIN]), v)"
    "px_accept P (ms_servsock m) v = (fd, w)" and fd: "0 < fd"
    using assms(1) by (auto simp: knocking_def)
  have inv: "poller_inv (ms_spoll m)" and room: "px_realloc P = (\<lambda>_. True)"
    using assms(2) by (simp_all add: registry_ok_def)
  obtain p where p: "SPoll_add (\<lambda>_. True) fd POLL_FLAGS (ms_spoll m) = Inr (0, p)" "poller_inv p"
    "poller_entries p = poller_entries (ms_spoll m) @ [(fd, POLL_FLAGS)]"
    using spoll_cpp.add_law [OF inv fd, of POLL_FLAGS] by (auto simp: runs_Inr)
  have "SMessenger_acceptConn P (ms_servsock m) (m\<lparr>ms_world := v\<rparr>) = Inr (0, m\<lparr>ms_spoll := p, ms_world := w\<rparr>)"
    using v(2) fd p(1) room
    by (simp add: SMessenger_acceptConn_def ret_on_error_def bindp_def on_world_def on_spoll_def zoom_def callp_def ret_def)
  then have "SMessenger_listenConn P m = Inr (0, m\<lparr>ms_spoll := p, ms_world := w\<rparr>)"
    using v(1)
    by (simp add: SMessenger_listenConn_def bindp_def getp_def on_world_def zoom_def callp_def sys_poll1_def
        has_problem_def has_flag_def)
  then show ?thesis
    using p(2,3) room by (intro exI [of _ p]) (simp add: registry_ok_def watched_def)
qed

text \<open>A round of the receiving thread accepts the connection and queues the message that waits in it.\<close>

lemma runs_round_accepts:
  fixes b :: "'w sbus" and msg :: string and port :: "16 word" and msgtag :: int
  defines "m \<equiv> sb_messenger b"
  assumes knock: "knocking P (ms_servsock m) fd (ms_world m) w" "avail w = frame msgtag port msg @ rest"
    and feeding: "feeding P avail clock (watched m @ [(fd, POLL_FLAGS)]) (length (watched m)) fd WAIT_MS"
    and m: "registry_ok P m" "0 < fuel" "length msg \<le> 2 ^ 20" "2 ^ 21 + 8 \<le> stack"
  shows "runs (SBus_inRound fuel P stack) b (\<lambda>_ b'. \<exists>ip m'.
    b' = b\<lparr>sb_messenger := m', sb_inq := sb_inq b @ [SMsg_new (to_short msgtag) ip port fd msg]\<rparr> \<and>
    registry_ok P m' \<and> watched m' = watched m @ [(fd, POLL_FLAGS)] \<and> ms_ip m' = ms_ip m \<and>
    ms_port m' = ms_port m \<and> ms_mcsock m' = ms_mcsock m \<and> (\<forall>ip'. peer_ip P fd ip' \<longrightarrow> ip = ip'))"
proof -
  obtain p where p: "SMessenger_listenConn P m = Inr (0, m\<lparr>ms_spoll := p, ms_world := w\<rparr>)"
    "registry_ok P (m\<lparr>ms_spoll := p, ms_world := w\<rparr>)"
    "watched (m\<lparr>ms_spoll := p, ms_world := w\<rparr>) = watched m @ [(fd, POLL_FLAGS)]"
    using listenConn_accepts [OF knock(1) m(1)] by blast
  have "runs (SMessenger_recv fuel P stack WAIT_MS) m (\<lambda>r m'. \<exists>ip q v more.
      r = Some (SMsg_new (to_short msgtag) ip port fd msg) \<and> m' = m\<lparr>ms_spoll := p, ms_world := w, ms_spoll := q, ms_world := v\<rparr> \<and>
      registry_ok P m' \<and> watched m' = watched (m\<lparr>ms_spoll := p, ms_world := w\<rparr>) \<and> avail v = rest @ more \<and>
      (\<forall>ip'. peer_ip P fd ip' \<longrightarrow> ip = ip'))"
    by (rule recv_frame_listened [where i = "length (watched m)" and clock = clock, OF _ _ p(1) _ p(2)])
      (use p(3) knock(2) feeding m in simp_all)
  then show ?thesis
    unfolding SBus_inRound_def runs_bindp on_messenger_def runs_zoom m_def [symmetric]
  proof (rule runs_mono)
    fix r m'
    assume "\<exists>ip q v more. r = Some (SMsg_new (to_short msgtag) ip port fd msg) \<and>
      m' = m\<lparr>ms_spoll := p, ms_world := w, ms_spoll := q, ms_world := v\<rparr> \<and>
      registry_ok P m' \<and> watched m' = watched (m\<lparr>ms_spoll := p, ms_world := w\<rparr>) \<and> avail v = rest @ more \<and>
      (\<forall>ip'. peer_ip P fd ip' \<longrightarrow> ip = ip')"
    then obtain ip where r: "r = Some (SMsg_new (to_short msgtag) ip port fd msg)" "registry_ok P m'"
      "watched m' = watched m @ [(fd, POLL_FLAGS)]" "ms_ip m' = ms_ip m" "ms_port m' = ms_port m" "ms_mcsock m' = ms_mcsock m"
      "\<forall>ip'. peer_ip P fd ip' \<longrightarrow> ip = ip'"
      using p(3) by auto
    show "runs (case r of None \<Rightarrow> ret () | Some m \<Rightarrow> modp (\<lambda>b. b\<lparr>sb_inq := sb_inq b @ [m]\<rparr>)) (b\<lparr>sb_messenger := m'\<rparr>)
      (\<lambda>_ b'. \<exists>ip m'. b' = b\<lparr>sb_messenger := m', sb_inq := sb_inq b @ [SMsg_new (to_short msgtag) ip port fd msg]\<rparr> \<and>
        registry_ok P m' \<and> watched m' = watched m @ [(fd, POLL_FLAGS)] \<and> ms_ip m' = ms_ip m \<and>
        ms_port m' = ms_port m \<and> ms_mcsock m' = ms_mcsock m \<and> (\<forall>ip'. peer_ip P fd ip' \<longrightarrow> ip = ip'))"
      using r(2-7) unfolding r(1) option.case runs_basic by (intro exI [of _ ip] exI [of _ m']) simp
  qed
qed

section \<open>Property\<close>

lemma newcomer_sender:
  fixes b :: "'w sbus"
  defines "d \<equiv> contacts_directory (sb_contacts b)"
  assumes "d_sock d fd = None" "d_addr d (ip, port) = None" "d_name d (sb_name b) = None" "fd \<noteq> ms_mcsock (sb_messenger b)"
    and "stale x (sb_contacts b) = []"
  shows "sender_of x b (SMsg_new tag ip port fd msg) =
    (d_last d + 1, dir_enter (SPeerInfo_new 0 (d_last d + 1) fd ip port (sb_name b)) (d\<lparr>d_last := d_last d + 1\<rparr>))"
  using assms by (simp add: sender_of_def dir_sender_def dir_add_def dir_known_def Let_def)

text \<open>
  C5: who connects is a newcomer. When a connection waits at the server socket, and in it a message,
  one round of the receiving thread accepts the connection, watches it and queues the message, and
  one turn of \<open>recv\<close> delivers it from a peer with a new number, filed with the connection and with
  the port that the frame carries, which is that of the connection at the other end. The peers
  known before are as they were: a bus that is known from its announcement, under the port of
  its server, has two numbers from then on.
\<close>

theorem connection_accepted:
  fixes b :: "'w sbus" and msg :: string and port :: "16 word" and msgtag :: int
  defines "m \<equiv> sb_messenger b" and "d \<equiv> contacts_directory (sb_contacts b)"
  assumes b: "forgiving x" "contacts_ok (sb_contacts b)" "ct_lastPeerId (sb_contacts b) < 2147483647" "registry_ok P m"
      "sb_inq b = []" "stale x (sb_contacts b) = []"
    and knock: "knocking P (ms_servsock m) fd (ms_world m) w" "avail w = frame msgtag port msg @ rest" "fd \<noteq> ms_mcsock m"
      "peer_ip P fd ip"
    and feeding: "feeding P avail clock (watched m @ [(fd, POLL_FLAGS)]) (length (watched m)) fd WAIT_MS"
    and unknown: "d_sock d fd = None" "d_addr d (ip, port) = None" "d_name d (sb_name b) = None" "(ip, port) \<noteq> (ms_ip m, ms_port m)"
    and known: "d_peer d k = Some p" "pi_ip p = ip"
    and msg: "0 < to_short msgtag" "length msg \<le> 2 ^ 20" "0 < fuel" "2 ^ 21 + 8 \<le> stack"
  shows "runs (bindp (SBus_inRound fuel P stack) (\<lambda>_. SBus_recv 1 P x)) b (\<lambda>(len, tag, peer, body) b'.
    len = int (length msg) \<and> tag = to_short msgtag \<and> body = msg \<and> peer = d_last d + 1 \<and>
    registry_ok P (sb_messenger b') \<and> watched (sb_messenger b') = watched m @ [(fd, POLL_FLAGS)] \<and>
    (let e = contacts_directory (sb_contacts b') in
      d_sock e fd = Some peer \<and> d_addr e (ip, port) = Some peer \<and>
      d_peer e peer = Some (SPeerInfo_new 0 peer fd ip port (sb_name b)) \<and>
      k \<noteq> peer \<and> d_peer e k = Some p \<and> d_addr e (ip, pi_port p) = Some k))"
    (is "runs _ _ (\<lambda>(len, tag, peer, body). ?Q len tag peer body)")
  unfolding runs_bindp
proof (rule runs_mono [OF runs_round_accepts [OF knock(1,2) [unfolded m_def] feeding [unfolded m_def] b(4) [unfolded m_def]
      msg(3,2,4)]], elim exE conjE)
  fix u b1 ip1 m'
  assume r: "b1 = b\<lparr>sb_messenger := m', sb_inq := sb_inq b @ [SMsg_new (to_short msgtag) ip1 port fd msg]\<rparr>"
      "\<forall>ip'. peer_ip P fd ip' \<longrightarrow> ip1 = ip'"
    and m': "registry_ok P m'" "watched m' = watched (sb_messenger b) @ [(fd, POLL_FLAGS)]"
      "ms_ip m' = ms_ip (sb_messenger b)" "ms_port m' = ms_port (sb_messenger b)" "ms_mcsock m' = ms_mcsock (sb_messenger b)"
  let ?q = "SMsg_new (to_short msgtag) ip port fd msg"
  have b1: "b1 = b\<lparr>sb_messenger := m', sb_inq := sb_inq b @ [?q]\<rparr>"
    using r knock(4) by simp
  let ?b = "b1\<lparr>sb_inq := []\<rparr>" and ?peer = "d_last d + 1"
  let ?p = "SPeerInfo_new 0 ?peer fd ip port (sb_name b)"
  have ready: "book_ready x ?b" "\<not> own_message ?b ?q"
    using b unknown(4) m'(3,4) by (auto simp: b1 m_def book_ready_def book_ok_def own_message_def simp flip: word_uint_eq_iff)
  have sender: "sender_of x ?b ?q = (?peer, dir_enter ?p (d\<lparr>d_last := ?peer\<rparr>))"
    using newcomer_sender [of ?b fd ip port x "to_short msgtag" msg] unknown knock(3) m'(5) b(6)
    by (simp add: b1 d_def m_def)
  have "0 < fst (sender_of x ?b ?q)"
    using ready(1) by (intro sender_positive) (simp_all add: book_ready_def)
  then have peer: "0 < ?peer"
    by (simp add: sender)
  have "dir_ok d"
    using book.dir_inv [of x "sb_contacts b"] b(1,2) by (simp add: d_def book_ok_def)
  then have "k \<le> d_last d" and addr: "d_addr d (ip, pi_port p) = Some k"
    using known by (auto simp: dir_ok_def)
  then have old: "k \<noteq> ?peer" "pi_port p \<noteq> port"
    using unknown(2) by auto
  have "runs (SBus_processSMsg P x ?q) ?b (\<lambda>k b'. k = ?peer \<and> sb_messenger b' = m' \<and>
      contacts_directory (sb_contacts b') = dir_enter ?p (d\<lparr>d_last := ?peer\<rparr>))"
    by (rule runs_mono [OF runs_user_message [OF ready(1) _ ready(2)]]) (use sender msg(1) in \<open>auto simp: b1\<close>)
  then have "runs (SBus_processSMsg P x ?q) ?b (\<lambda>k b'. k = ?peer \<and> ?Q (int (length msg)) (to_short msgtag) ?peer msg b')"
    by (rule runs_mono) (use old addr known(1) m' in \<open>auto simp: Let_def SPeerInfo_new_def m_def\<close>)
  then show "runs (SBus_recv 1 P x) b1 (\<lambda>(len, tag, peer, body). ?Q len tag peer body)"
    using peer b(5) by (auto simp: b1 runs_basic runs_bindp elim!: runs_mono)
qed

text \<open>
  C6: a refused name reaches the one who took it. When the bus that has the name connects to say so,
  one round of the receiving thread and one turn of \<open>recv\<close> give the client the tag NAMETAKEN and the
  name. The bus goes on with the name; the one that refused it is filed under it, with the
  connection.
\<close>

theorem refusal_arrives:
  fixes b :: "'w sbus" and port :: "16 word"
  defines "m \<equiv> sb_messenger b" and "d \<equiv> contacts_directory (sb_contacts b)"
  assumes b: "forgiving x" "contacts_ok (sb_contacts b)" "ct_lastPeerId (sb_contacts b) < 2147483647" "registry_ok P m"
      "sb_inq b = []" "stale x (sb_contacts b) = []"
    and knock: "knocking P (ms_servsock m) fd (ms_world m) w" "avail w = frame SBUS_NAMETAKEN port (sb_name b) @ rest"
      "fd \<noteq> ms_mcsock m" "peer_ip P fd ip"
    and feeding: "feeding P avail clock (watched m @ [(fd, POLL_FLAGS)]) (length (watched m)) fd WAIT_MS"
    and unknown: "d_sock d fd = None" "d_addr d (ip, port) = None" "d_name d (sb_name b) = None" "(ip, port) \<noteq> (ms_ip m, ms_port m)"
    and msg: "length (sb_name b) \<le> 2 ^ 20" "0 < fuel" "2 ^ 21 + 8 \<le> stack"
  shows "runs (bindp (SBus_inRound fuel P stack) (\<lambda>_. SBus_recv 1 P x)) b (\<lambda>(len, tag, peer, body) b'.
    tag = SBUS_NAMETAKEN \<and> body = sb_name b \<and> sb_name b' = sb_name b \<and>
    (let e = contacts_directory (sb_contacts b') in
      d_sock e fd = Some peer \<and> d_name e (sb_name b) = Some peer \<and>
      d_peer e peer = Some (SPeerInfo_new 0 peer fd ip port (sb_name b))))"
    (is "runs _ _ (\<lambda>(len, tag, peer, body). ?Q len tag peer body)")
  unfolding runs_bindp
proof (rule runs_mono [OF runs_round_accepts [OF knock(1,2) [unfolded m_def] feeding [unfolded m_def] b(4) [unfolded m_def]
      msg(2,1,3)]], elim exE conjE)
  fix u b1 ip1 m'
  let ?q = "SMsg_new (to_short SBUS_NAMETAKEN) ip port fd (sb_name b)"
  assume r: "b1 = b\<lparr>sb_messenger := m', sb_inq := sb_inq b @ [SMsg_new (to_short SBUS_NAMETAKEN) ip1 port fd (sb_name b)]\<rparr>"
      "\<forall>ip'. peer_ip P fd ip' \<longrightarrow> ip1 = ip'"
    and m': "ms_ip m' = ms_ip (sb_messenger b)" "ms_port m' = ms_port (sb_messenger b)" "ms_mcsock m' = ms_mcsock (sb_messenger b)"
  have b1: "b1 = b\<lparr>sb_messenger := m', sb_inq := sb_inq b @ [?q]\<rparr>"
    using r knock(4) by simp
  let ?b = "b1\<lparr>sb_inq := []\<rparr>" and ?peer = "d_last d + 1"
  let ?p = "SPeerInfo_new 0 ?peer fd ip port (sb_name b)"
  have tag: "to_short (-2) = -2"
    by (simp add: to_short_def)
  have ready: "book_ready x ?b" "\<not> own_message ?b ?q" "\<not> moves_sender ?b ?q"
    using b unknown m'(1,2)
    by (auto simp: b1 m_def d_def book_ready_def book_ok_def own_message_def moves_sender_def moves_def simp flip: word_uint_eq_iff)
  have sender: "sender_of x ?b ?q = (?peer, dir_enter ?p (d\<lparr>d_last := ?peer\<rparr>))"
    using newcomer_sender [of ?b fd ip port x "to_short SBUS_NAMETAKEN" "sb_name b"] unknown knock(3) m'(3) b(6)
    by (simp add: b1 d_def m_def)
  have "0 < fst (sender_of x ?b ?q)"
    using ready(1) by (intro sender_positive) (simp_all add: book_ready_def)
  then have peer: "0 < ?peer"
    by (simp add: sender)
  have "runs (SBus_processSMsg P x ?q) ?b (\<lambda>r b'. r = ?peer \<and> sb_name b' = sb_name ?b \<and> sb_inq b' = sb_inq ?b \<and>
      contacts_directory (sb_contacts b') =
        dir_replace ?p (?p\<lparr>pi_name := SMsg_getMsg ?q\<rparr>) (dir_enter ?p (d\<lparr>d_last := ?peer\<rparr>)))"
    by (rule runs_name_taken [OF ready(1) _ ready(2,3) _ sender]) (simp_all add: tag SPeerInfo_new_def)
  then have "runs (SBus_processSMsg P x ?q) ?b (\<lambda>k b'. k = ?peer \<and> ?Q (int (length (sb_name b))) (to_short SBUS_NAMETAKEN) ?peer (sb_name b) b')"
    by (rule runs_mono) (auto simp: Let_def dir_replace_def SPeerInfo_new_def b1 tag)
  then show "runs (SBus_recv 1 P x) b1 (\<lambda>(len, tag, peer, body). ?Q len tag peer body)"
    using peer b(5) by (auto simp: b1 runs_basic runs_bindp tag elim!: runs_mono)
qed

text \<open>A system with a connection that waits to be accepted, or not any more, and what waits in it.\<close>

definition knock_posix :: "(bool \<times> string) posix" where
  "knock_posix = null_posix
     \<lparr>px_poll := (\<lambda>ps t (waits, s). if map fst ps = [3] \<and> waits then ((1, [POLLIN]), (waits, s))
        else if map fst ps = [5, 9] \<and> s \<noteq> [] then ((1, [0, POLLIN]), (waits, s)) else ((0, []), (waits, s))),
      px_getpeername := (\<lambda>_ w. ((0, zero_sockaddr\<lparr>sin_addr := htonl 0x0A000001\<rparr>), w)),
      px_accept := (\<lambda>fd (waits, s). (9, (False, s))),
      px_recvfrom := (\<lambda>fd n peek (waits, s).
        if s = [] then (Recv_Error EAGAIN, (waits, s))
        else (Recv_Data (take n s) None, (waits, if peek then s else drop n s)))\<rparr>"

lemma knock_posix_ok:
  "knocking knock_posix 3 9 (True, s) (False, s)"
  "feeding knock_posix snd (\<lambda>_. 1000) [(5, POLL_FLAGS), (9, POLL_FLAGS)] 1 9 WAIT_MS"
  "px_realloc knock_posix = (\<lambda>_. True)"
  "peer_ip knock_posix 9 0x0A000001"
  by (simp add: knocking_def knock_posix_def)
    (auto simp: feeding_def stream_socket_def peer_ip_def sockaddr_getIP_def knock_posix_def null_posix_def split: if_splits)

lemma knock_bus:
  fixes s :: string
  defines "b \<equiv> sample_bus (True, s)"
  shows "ms_servsock (sb_messenger b) = 3" "ms_world (sb_messenger b) = (True, s)"
    "watched (sb_messenger b) = [(5, POLL_FLAGS)]" "ms_mcsock (sb_messenger b) = 5" "ms_port (sb_messenger b) = 80"
    "registry_ok knock_posix (sb_messenger b)" "stale (sample_cxx True 5) (sb_contacts b) = []"
    "knocking knock_posix (ms_servsock (sb_messenger b)) 9 (ms_world (sb_messenger b)) (False, s)"
    "feeding knock_posix snd (\<lambda>_. 1000) (watched (sb_messenger b) @ [(9, POLL_FLAGS)]) (length (watched (sb_messenger b))) 9 WAIT_MS"
proof -
  show m: "ms_servsock (sb_messenger b) = 3" "ms_world (sb_messenger b) = (True, s)"
    "watched (sb_messenger b) = [(5, POLL_FLAGS)]" "ms_mcsock (sb_messenger b) = 5" "ms_port (sb_messenger b) = 80"
    by (simp_all add: b_def sample_messenger_def watched_def)
  show "registry_ok knock_posix (sb_messenger b)"
    using sample_messenger_ok(1) [of "()"] by (simp add: registry_ok_def knock_posix_ok(3) b_def sample_messenger_def)
  show "stale (sample_cxx True 5) (sb_contacts b) = []"
    by (simp add: b_def stale_def sample_cxx_def sample_contacts_def)
  show "knocking knock_posix (ms_servsock (sb_messenger b)) 9 (ms_world (sb_messenger b)) (False, s)"
    unfolding m by (rule knock_posix_ok)
  show "feeding knock_posix snd (\<lambda>_. 1000) (watched (sb_messenger b) @ [(9, POLL_FLAGS)]) (length (watched (sb_messenger b))) 9 WAIT_MS"
    using knock_posix_ok(2) unfolding m by simp
qed

theorem connection_accepted_witness:
  "runs (bindp (SBus_inRound 1 knock_posix (2 ^ 22)) (\<lambda>_. SBus_recv 1 knock_posix (sample_cxx True 5)))
     (sample_bus (True, frame 9 33 ''hi'')) (\<lambda>(len, tag, peer, body) b'.
       len = 2 \<and> tag = 9 \<and> body = ''hi'' \<and> peer = 2 \<and>
       d_peer (contacts_directory (sb_contacts b')) 1 = Some sample_peer)"
proof -
  let ?b = "sample_bus (True, frame 9 33 ''hi'')"
  have "runs (bindp (SBus_inRound 1 knock_posix (2 ^ 22)) (\<lambda>_. SBus_recv 1 knock_posix (sample_cxx True 5))) ?b
    (\<lambda>(len, tag, peer, body) b'.
      len = int (length ''hi'') \<and> tag = to_short 9 \<and> body = ''hi'' \<and> peer = d_last (contacts_directory (sb_contacts ?b)) + 1 \<and>
      registry_ok knock_posix (sb_messenger b') \<and> watched (sb_messenger b') = watched (sb_messenger ?b) @ [(9, POLL_FLAGS)] \<and>
      (let e = contacts_directory (sb_contacts b') in
        d_sock e 9 = Some peer \<and> d_addr e (0x0A000001, 33) = Some peer \<and>
        d_peer e peer = Some (SPeerInfo_new 0 peer 9 0x0A000001 33 (sb_name ?b)) \<and>
        1 \<noteq> peer \<and> d_peer e 1 = Some sample_peer \<and> d_addr e (0x0A000001, pi_port sample_peer) = Some 1))"
    by (rule connection_accepted [where avail = snd and rest = "[]", OF sample_ready' knock_bus(6) _ knock_bus(7,8) _ _ knock_posix_ok(4) knock_bus(9)])
      (simp_all add: sample_directory to_short_def knock_bus(4,5) del: sample_bus_sel(3), simp_all add: sample_bus_def)
  then show ?thesis
    by (rule runs_mono) (auto simp: sample_directory to_short_def Let_def)
qed

theorem refusal_arrives_witness:
  "runs (bindp (SBus_inRound 1 knock_posix (2 ^ 22)) (\<lambda>_. SBus_recv 1 knock_posix (sample_cxx True 5)))
     (sample_bus (True, frame SBUS_NAMETAKEN 33 ''bob'')) (\<lambda>(len, tag, peer, body) b'.
       tag = SBUS_NAMETAKEN \<and> body = ''bob'' \<and> d_name (contacts_directory (sb_contacts b')) ''bob'' = Some peer)"
proof -
  let ?b = "sample_bus (True, frame SBUS_NAMETAKEN 33 ''bob'')"
  have "runs (bindp (SBus_inRound 1 knock_posix (2 ^ 22)) (\<lambda>_. SBus_recv 1 knock_posix (sample_cxx True 5))) ?b
    (\<lambda>(len, tag, peer, body) b'. tag = SBUS_NAMETAKEN \<and> body = sb_name ?b \<and> sb_name b' = sb_name ?b \<and>
      (let e = contacts_directory (sb_contacts b') in
        d_sock e 9 = Some peer \<and> d_name e (sb_name ?b) = Some peer \<and>
        d_peer e peer = Some (SPeerInfo_new 0 peer 9 0x0A000001 33 (sb_name ?b))))"
    by (rule refusal_arrives [where avail = snd and rest = "[]", OF sample_ready' knock_bus(6) _ knock_bus(7,8) _ _ knock_posix_ok(4) knock_bus(9)])
      (simp_all add: sample_directory knock_bus(4,5) del: sample_bus_sel(3), simp_all add: sample_bus_def)
  then show ?thesis
    by (rule runs_mono) (auto simp: Let_def)
qed

end
