(* ===== verification/Bus_Threads.thy ===== *)
theory Bus_Threads
  imports Bus_Client
begin

text \<open>
  The two threads of a bus: the receiving thread (\<open>inLoop\<close>) and the client's (\<open>recv\<close>,
  \<open>getPending\<close>, the destructor), each a step relation with one rule per access to what they share:
  the mutex, the queue and the flag \<open>alive\<close>. What the messenger's \<open>recv\<close> and \<open>processSMsg\<close> give is
  a label of the step, so every interleaving with every outcome of theirs is covered; that the two
  threads also share the registry of descriptors without a lock is in \<open>Poll_Race\<close>.
  Two histories that the code does not keep record what the messenger gave the receiving thread
  and what \<open>processSMsg\<close> said of each message.
\<close>

section \<open>State\<close>

datatype thread = Receiver | Client

datatype receiver_at =
    R_Call
  | R_Lock smsg
  | R_Push smsg
  | R_Unlock
  | R_While
  | R_Exit

datatype client_at =
    C_Out
  | C_Lock
  | C_Empty
  | C_Unlock_Empty
  | C_Sleep
  | C_Pop
  | C_Unlock smsg
  | C_Process smsg
  | C_Pending
  | C_Delete
  | C_Gone

record threads =
  th_inq :: "smsg list"
  th_alive :: bool
  th_mutex :: "thread option"
  th_receiver :: receiver_at
  th_client :: client_at
  th_got :: "smsg list"
  th_verdicts :: "(smsg \<times> int) list"

definition threads_start :: threads where
  "threads_start = \<lparr>th_inq = [], th_alive = True, th_mutex = None, th_receiver = R_Call,
     th_client = C_Out, th_got = [], th_verdicts = []\<rparr>"

text \<open>
  The labels: what \<open>smessenger->recv\<close> gave, what \<open>processSMsg\<close> gave, the call the client makes,
  and \<open>Tau\<close> for a step that needs none.
\<close>

datatype event = Got "smsg option" | Verdict int | Call_recv | Call_getPending | Call_delete | Tau

section \<open>Steps\<close>

text \<open>
  The receiving thread. Once the object is deleted its steps have no meaning in C++, so they need
  a client that is not \<open>C_Gone\<close>.
\<close>

inductive inLoop_step :: "event \<Rightarrow> threads \<Rightarrow> threads \<Rightarrow> bool" where
  recv_nothing: "th_receiver s = R_Call \<Longrightarrow> th_client s \<noteq> C_Gone \<Longrightarrow>
     inLoop_step (Got None) s (s\<lparr>th_receiver := R_While\<rparr>)"
| recv_message: "th_receiver s = R_Call \<Longrightarrow> th_client s \<noteq> C_Gone \<Longrightarrow>
     inLoop_step (Got (Some m)) s (s\<lparr>th_receiver := R_Lock m, th_got := th_got s @ [m]\<rparr>)"
| push_lock: "th_receiver s = R_Lock m \<Longrightarrow> th_client s \<noteq> C_Gone \<Longrightarrow> th_mutex s = None \<Longrightarrow>
     inLoop_step Tau s (s\<lparr>th_receiver := R_Push m, th_mutex := Some Receiver\<rparr>)"
| push_back: "th_receiver s = R_Push m \<Longrightarrow> th_client s \<noteq> C_Gone \<Longrightarrow>
     inLoop_step Tau s (s\<lparr>th_receiver := R_Unlock, th_inq := th_inq s @ [m]\<rparr>)"
| push_unlock: "th_receiver s = R_Unlock \<Longrightarrow> th_client s \<noteq> C_Gone \<Longrightarrow>
     inLoop_step Tau s (s\<lparr>th_receiver := R_While, th_mutex := None\<rparr>)"
| loop_again: "th_receiver s = R_While \<Longrightarrow> th_client s \<noteq> C_Gone \<Longrightarrow> th_alive s \<Longrightarrow>
     inLoop_step Tau s (s\<lparr>th_receiver := R_Call\<rparr>)"
| loop_end: "th_receiver s = R_While \<Longrightarrow> th_client s \<noteq> C_Gone \<Longrightarrow> \<not> th_alive s \<Longrightarrow>
     inLoop_step Tau s (s\<lparr>th_receiver := R_Exit\<rparr>)"

text \<open>The client in \<open>recv\<close>.\<close>

inductive recv_step :: "event \<Rightarrow> threads \<Rightarrow> threads \<Rightarrow> bool" where
  enter: "th_client s = C_Out \<Longrightarrow> recv_step Call_recv s (s\<lparr>th_client := C_Lock\<rparr>)"
| pop_lock: "th_client s = C_Lock \<Longrightarrow> th_mutex s = None \<Longrightarrow>
     recv_step Tau s (s\<lparr>th_client := C_Empty, th_mutex := Some Client\<rparr>)"
| is_empty: "th_client s = C_Empty \<Longrightarrow> th_inq s = [] \<Longrightarrow>
     recv_step Tau s (s\<lparr>th_client := C_Unlock_Empty\<rparr>)"
| empty_unlock: "th_client s = C_Unlock_Empty \<Longrightarrow>
     recv_step Tau s (s\<lparr>th_client := C_Sleep, th_mutex := None\<rparr>)"
| slept: "th_client s = C_Sleep \<Longrightarrow> recv_step Tau s (s\<lparr>th_client := C_Lock\<rparr>)"
| not_empty: "th_client s = C_Empty \<Longrightarrow> th_inq s \<noteq> [] \<Longrightarrow>
     recv_step Tau s (s\<lparr>th_client := C_Pop\<rparr>)"
| pop_front: "th_client s = C_Pop \<Longrightarrow> th_inq s = m # q \<Longrightarrow>
     recv_step Tau s (s\<lparr>th_client := C_Unlock m, th_inq := q\<rparr>)"
| pop_unlock: "th_client s = C_Unlock m \<Longrightarrow>
     recv_step Tau s (s\<lparr>th_client := C_Process m, th_mutex := None\<rparr>)"
| processed: "th_client s = C_Process m \<Longrightarrow>
     recv_step (Verdict peer) s (s\<lparr>th_client := if 0 \<le> peer then C_Out else C_Lock,
       th_verdicts := th_verdicts s @ [(m, peer)]\<rparr>)"

text \<open>\<open>getPending\<close> reads the queue without the mutex.\<close>

inductive getPending_step :: "event \<Rightarrow> threads \<Rightarrow> threads \<Rightarrow> bool" where
  ask: "th_client s = C_Out \<Longrightarrow> getPending_step Call_getPending s (s\<lparr>th_client := C_Pending\<rparr>)"
| answer: "th_client s = C_Pending \<Longrightarrow> getPending_step Tau s (s\<lparr>th_client := C_Out\<rparr>)"

text \<open>The destructor clears the flag, then the object and its members are gone.\<close>

inductive delete_step :: "event \<Rightarrow> threads \<Rightarrow> threads \<Rightarrow> bool" where
  clear: "th_client s = C_Out \<Longrightarrow>
     delete_step Call_delete s (s\<lparr>th_client := C_Delete, th_alive := False\<rparr>)"
| destroy: "th_client s = C_Delete \<Longrightarrow> delete_step Tau s (s\<lparr>th_client := C_Gone\<rparr>)"

definition client_step :: "event \<Rightarrow> threads \<Rightarrow> threads \<Rightarrow> bool" where
  "client_step e s t \<longleftrightarrow> recv_step e s t \<or> getPending_step e s t \<or> delete_step e s t"

definition threads_step :: "event \<Rightarrow> threads \<Rightarrow> threads \<Rightarrow> bool" where
  "threads_step e s t \<longleftrightarrow> inLoop_step e s t \<or> client_step e s t"

code_pred (modes: i \<Rightarrow> i \<Rightarrow> o \<Rightarrow> bool) inLoop_step .
code_pred (modes: i \<Rightarrow> i \<Rightarrow> o \<Rightarrow> bool) recv_step .
code_pred (modes: i \<Rightarrow> i \<Rightarrow> o \<Rightarrow> bool) getPending_step .
code_pred (modes: i \<Rightarrow> i \<Rightarrow> o \<Rightarrow> bool) delete_step .

inductive path :: "('e \<Rightarrow> 's \<Rightarrow> 's \<Rightarrow> bool) \<Rightarrow> 's \<Rightarrow> 'e list \<Rightarrow> 's \<Rightarrow> bool"
  for step :: "'e \<Rightarrow> 's \<Rightarrow> 's \<Rightarrow> bool" where
  path_stop: "path step s [] s"
| path_go: "step e s t \<Longrightarrow> path step t es u \<Longrightarrow> path step s (e # es) u"

inductive_simps path_Nil [simp]: "path step s [] t"
inductive_simps path_Cons [simp]: "path step s (e # es) t"

section \<open>Runs and their invariants\<close>

lemma path_append: "path step s es t \<Longrightarrow> path step t es' u \<Longrightarrow> path step s (es @ es') u"
  by (induction rule: path.induct) auto

lemma path_mono: "path step s es t \<Longrightarrow> (\<And>e s t. step e s t \<Longrightarrow> step' e s t) \<Longrightarrow> path step' s es t"
  by (induction rule: path.induct) auto

locale machine =
  fixes step :: "'e \<Rightarrow> 's \<Rightarrow> 's \<Rightarrow> bool"
    and start :: 's
    and inv :: "'s \<Rightarrow> bool"
  assumes inv_start: "inv start"
    and inv_step: "inv s \<Longrightarrow> step e s t \<Longrightarrow> inv t"
begin

lemma inv_path: "path step s es t \<Longrightarrow> inv s \<Longrightarrow> inv t"
  by (induction rule: path.induct) (auto dest: inv_step)

lemma inv_reachable: "path step start es t \<Longrightarrow> inv t"
  using inv_path inv_start by blast

end

text \<open>Which messages the threads have in hand, and where they hold the mutex.\<close>

fun receiver_hand :: "receiver_at \<Rightarrow> smsg list" where
  "receiver_hand (R_Lock m) = [m]"
| "receiver_hand (R_Push m) = [m]"
| "receiver_hand _ = []"

fun client_hand :: "client_at \<Rightarrow> smsg list" where
  "client_hand (C_Unlock m) = [m]"
| "client_hand (C_Process m) = [m]"
| "client_hand _ = []"

fun receiver_holds :: "receiver_at \<Rightarrow> bool" where
  "receiver_holds (R_Push m) \<longleftrightarrow> True"
| "receiver_holds R_Unlock \<longleftrightarrow> True"
| "receiver_holds _ \<longleftrightarrow> False"

fun client_holds :: "client_at \<Rightarrow> bool" where
  "client_holds C_Empty \<longleftrightarrow> True"
| "client_holds C_Unlock_Empty \<longleftrightarrow> True"
| "client_holds C_Pop \<longleftrightarrow> True"
| "client_holds (C_Unlock m) \<longleftrightarrow> True"
| "client_holds _ \<longleftrightarrow> False"

definition holder :: "threads \<Rightarrow> thread option" where
  "holder s = (if receiver_holds (th_receiver s) then Some Receiver
     else if client_holds (th_client s) then Some Client else None)"

definition threads_ok :: "threads \<Rightarrow> bool" where
  "threads_ok s \<longleftrightarrow>
     th_mutex s = holder s \<and>
     \<not> (receiver_holds (th_receiver s) \<and> client_holds (th_client s)) \<and>
     (th_client s = C_Pop \<longrightarrow> th_inq s \<noteq> []) \<and>
     (th_alive s \<longleftrightarrow> th_client s \<notin> {C_Delete, C_Gone}) \<and>
     (th_alive s \<longrightarrow> th_receiver s \<noteq> R_Exit) \<and>
     th_got s = map fst (th_verdicts s) @ client_hand (th_client s) @ th_inq s @ receiver_hand (th_receiver s)"

lemma threads_ok_start: "threads_ok threads_start"
  by (simp add: threads_ok_def threads_start_def holder_def)

lemma threads_ok_inLoop: "inLoop_step e s t \<Longrightarrow> threads_ok s \<Longrightarrow> threads_ok t"
  by (induction rule: inLoop_step.induct) (auto simp: threads_ok_def holder_def split: if_splits)

lemma threads_ok_recv: "recv_step e s t \<Longrightarrow> threads_ok s \<Longrightarrow> threads_ok t"
  by (induction rule: recv_step.induct) (auto simp: threads_ok_def holder_def split: if_splits)

lemma threads_ok_getPending: "getPending_step e s t \<Longrightarrow> threads_ok s \<Longrightarrow> threads_ok t"
  by (induction rule: getPending_step.induct) (auto simp: threads_ok_def holder_def split: if_splits)

lemma threads_ok_delete: "delete_step e s t \<Longrightarrow> threads_ok s \<Longrightarrow> threads_ok t"
  by (induction rule: delete_step.induct) (auto simp: threads_ok_def holder_def split: if_splits)

lemma threads_ok_step: "threads_ok s \<Longrightarrow> threads_step e s t \<Longrightarrow> threads_ok t"
  unfolding threads_step_def client_step_def
  by (blast intro: threads_ok_inLoop threads_ok_recv threads_ok_getPending threads_ok_delete)

interpretation bus_threads: machine threads_step threads_start threads_ok
  by unfold_locales (rule threads_ok_start threads_ok_step; assumption)+

section \<open>Progress\<close>

lemma client_stepI:
  "recv_step e s t \<Longrightarrow> client_step e s t" "getPending_step e s t \<Longrightarrow> client_step e s t"
  "delete_step e s t \<Longrightarrow> client_step e s t"
  by (simp_all add: client_step_def)

lemma threads_stepI: "inLoop_step e s t \<Longrightarrow> threads_step e s t" "client_step e s t \<Longrightarrow> threads_step e s t"
  by (simp_all add: threads_step_def)

lemmas path_threads = path_mono [where step' = threads_step, OF _ threads_stepI(1)]
  path_mono [where step' = threads_step, OF _ threads_stepI(2)]

text \<open>What a thread does at each point where it needs no label.\<close>

inductive_simps inLoop_Tau: "inLoop_step Tau s t"
inductive_simps recv_Tau: "recv_step Tau s t"

lemma inLoop_at [simp]:
  "th_receiver s = R_Lock m \<Longrightarrow> inLoop_step Tau s t \<longleftrightarrow>
     th_client s \<noteq> C_Gone \<and> th_mutex s = None \<and> t = s\<lparr>th_receiver := R_Push m, th_mutex := Some Receiver\<rparr>"
  "th_receiver s = R_Push m \<Longrightarrow> inLoop_step Tau s t \<longleftrightarrow>
     th_client s \<noteq> C_Gone \<and> t = s\<lparr>th_receiver := R_Unlock, th_inq := th_inq s @ [m]\<rparr>"
  "th_receiver s = R_Unlock \<Longrightarrow> inLoop_step Tau s t \<longleftrightarrow>
     th_client s \<noteq> C_Gone \<and> t = s\<lparr>th_receiver := R_While, th_mutex := None\<rparr>"
  "th_receiver s = R_While \<Longrightarrow> inLoop_step Tau s t \<longleftrightarrow>
     th_client s \<noteq> C_Gone \<and> t = s\<lparr>th_receiver := if th_alive s then R_Call else R_Exit\<rparr>"
  by (auto simp: inLoop_Tau)

lemma recv_at [simp]:
  "th_client s = C_Lock \<Longrightarrow> recv_step Tau s t \<longleftrightarrow>
     th_mutex s = None \<and> t = s\<lparr>th_client := C_Empty, th_mutex := Some Client\<rparr>"
  "th_client s = C_Empty \<Longrightarrow> recv_step Tau s t \<longleftrightarrow>
     t = s\<lparr>th_client := if th_inq s = [] then C_Unlock_Empty else C_Pop\<rparr>"
  "th_client s = C_Unlock_Empty \<Longrightarrow> recv_step Tau s t \<longleftrightarrow> t = s\<lparr>th_client := C_Sleep, th_mutex := None\<rparr>"
  "th_client s = C_Sleep \<Longrightarrow> recv_step Tau s t \<longleftrightarrow> t = s\<lparr>th_client := C_Lock\<rparr>"
  "th_client s = C_Pop \<Longrightarrow> recv_step Tau s t \<longleftrightarrow>
     (\<exists>m q. th_inq s = m # q \<and> t = s\<lparr>th_client := C_Unlock m, th_inq := q\<rparr>)"
  "th_client s = C_Unlock m \<Longrightarrow> recv_step Tau s t \<longleftrightarrow> t = s\<lparr>th_client := C_Process m, th_mutex := None\<rparr>"
  by (auto simp: recv_Tau)

lemma receiver_steps:
  assumes "threads_ok s" "th_client s \<noteq> C_Gone" "th_receiver s \<noteq> R_Exit"
  shows "(\<exists>e t. inLoop_step e s t) \<or> th_mutex s = Some Client"
proof (cases "th_receiver s = R_Call")
  case True
  then show ?thesis
    using recv_nothing [OF True assms(2)] by blast
next
  case False
  then have "th_mutex s \<noteq> Some Client \<Longrightarrow> \<exists>t. inLoop_step Tau s t"
    using assms by (cases "th_receiver s") (auto simp: threads_ok_def holder_def split: if_splits)
  then show ?thesis
    by blast
qed

lemma client_steps:
  assumes "threads_ok s" "th_client s \<noteq> C_Gone"
  shows "(\<exists>e t. client_step e s t) \<or> th_mutex s = Some Receiver"
proof -
  consider "th_client s = C_Out" | m where "th_client s = C_Process m" | "th_client s = C_Pending" | "th_client s = C_Delete"
    | "th_client s \<in> {C_Lock, C_Empty, C_Unlock_Empty, C_Sleep, C_Pop}" | m where "th_client s = C_Unlock m"
    using assms(2) by (cases "th_client s") auto
  then show ?thesis
  proof cases
    case 5
    then have "th_mutex s \<noteq> Some Receiver \<Longrightarrow> \<exists>t. recv_step Tau s t"
      using assms(1) by (auto simp: threads_ok_def holder_def neq_Nil_conv split: if_splits)
    then show ?thesis
      by (blast intro: client_stepI)
  next
    case 6
    then have "\<exists>t. recv_step Tau s t"
      by simp
    then show ?thesis
      by (blast intro: client_stepI)
  qed (blast intro: client_stepI enter processed answer destroy)+
qed

text \<open>Whoever has the mutex gives it back by steps of its own, and leaves what is queued in place.\<close>

lemma receiver_releases:
  assumes "threads_ok s" "th_client s \<noteq> C_Gone" "th_mutex s = Some Receiver"
  shows "\<exists>es t q. length es \<le> 2 \<and> path inLoop_step s es t \<and> th_mutex t = None \<and>
    th_client t = th_client s \<and> th_inq t = th_inq s @ q"
proof -
  consider m where "th_receiver s = R_Push m" | "th_receiver s = R_Unlock"
    using assms by (cases "th_receiver s") (auto simp: threads_ok_def holder_def split: if_splits)
  then show ?thesis
  proof cases
    case 1
    then show ?thesis
      using assms(2) by (intro exI [of _ "[Tau, Tau]"]) simp
  next
    case 2
    then show ?thesis
      using assms(2) by (intro exI [of _ "[Tau]"]) simp
  qed
qed

lemma client_releases:
  assumes "threads_ok s" "th_mutex s = Some Client"
  shows "\<exists>es t. length es \<le> 3 \<and> path recv_step s es t \<and> th_mutex t = None"
proof -
  consider "th_client s = C_Empty" "th_inq s = []" | m q where "th_client s = C_Empty" "th_inq s = m # q"
    | "th_client s = C_Unlock_Empty" | m q where "th_client s = C_Pop" "th_inq s = m # q" | m where "th_client s = C_Unlock m"
    using assms by (cases "th_client s"; cases "th_inq s") (auto simp: threads_ok_def holder_def split: if_splits)
  then show ?thesis
  proof cases
    case 1
    then show ?thesis
      by (intro exI [of _ "[Tau, Tau]"]) simp
  next
    case 2
    then show ?thesis
      by (intro exI [of _ "[Tau, Tau, Tau]"]) simp
  next
    case 3
    then show ?thesis
      by (intro exI [of _ "[Tau]"]) simp
  next
    case 4
    then show ?thesis
      by (intro exI [of _ "[Tau, Tau]"]) simp
  next
    case 5
    then show ?thesis
      by (intro exI [of _ "[Tau]"]) simp
  qed
qed

lemma recv_takes:
  assumes "th_client s = C_Lock" "th_mutex s = None" "th_inq s = m # q"
  shows "path recv_step s [Tau, Tau, Tau, Tau] (s\<lparr>th_client := C_Process m, th_inq := q\<rparr>)"
  using assms by (cases s) simp

section \<open>The sequential model runs on the threads\<close>

lemma keeps_inq [keeps_rules]:
  "keeps (\<lambda>b. sb_inq b = q) (on_messenger m)" "keeps (\<lambda>b. sb_inq b = q) (on_contacts c)"
  by (auto simp: keeps_def safe_def on_messenger_def on_contacts_def zoom_def split: sum.splits)

lemma keeps_inq_sendTo [keeps_rules]: "keeps (\<lambda>b. sb_inq b = q) (SBus_sendTo P x msgtag peer msg)"
  unfolding SBus_sendTo_def SBus_peer2Socket_def reconnect_def SBus_send_def
  by (intro keeps_rules)

lemma keeps_inq_process: "keeps (\<lambda>b. sb_inq b = q) (SBus_processSMsg P x m)"
  unfolding SBus_processSMsg_def process_data_def peer_of_message_def process_system_def process_error_def Let_def
  by (intro keeps_rules)

lemma process_inq: "SBus_processSMsg P x m b = Inr (peer, b') \<Longrightarrow> sb_inq b' = sb_inq b"
  using keepsD [OF keeps_inq_process refl] by (fastforce dest: safeD)

lemma on_messenger_inq: "on_messenger m b = Inr (a, b') \<Longrightarrow> sb_inq b' = sb_inq b"
  using keepsD [OF keeps_inq(1) refl] by (fastforce dest: safeD)

lemma round_is_path:
  assumes "SBus_inRound fuel P stack b = Inr (u, b')" "th_inq s = sb_inq b" "th_receiver s = R_Call"
    "th_mutex s = None" "th_client s \<noteq> C_Gone"
  shows "\<exists>es ms. path inLoop_step s es (s\<lparr>th_receiver := R_While, th_inq := sb_inq b', th_got := th_got s @ ms\<rparr>) \<and>
    sb_inq b' = sb_inq b @ ms"
proof -
  obtain r b1 where r: "on_messenger (SMessenger_recv fuel P stack WAIT_MS) b = Inr (r, b1)"
    and b': "(case r of None \<Rightarrow> ret () | Some m \<Rightarrow> modp (\<lambda>b. b\<lparr>sb_inq := sb_inq b @ [m]\<rparr>)) b1 = Inr (u, b')"
    using assms(1) by (auto simp: SBus_inRound_def)
  show ?thesis
  proof (cases r)
    case None
    then have "path inLoop_step s [Got None] (s\<lparr>th_receiver := R_While, th_inq := sb_inq b', th_got := th_got s\<rparr>)"
      using b' on_messenger_inq [OF r] assms(2-) recv_nothing [of s] by (cases s) (simp add: ret_def)
    then show ?thesis
      using None b' on_messenger_inq [OF r] by (intro exI [of _ "[Got None]"] exI [of _ "[]"]) simp
  next
    case (Some m)
    let ?t = "s\<lparr>th_receiver := R_Lock m, th_got := th_got s @ [m]\<rparr>"
    have inq: "sb_inq b' = sb_inq b @ [m]"
      using Some b' on_messenger_inq [OF r] by (auto simp: modp_def)
    have "path inLoop_step ?t [Tau, Tau, Tau]
        (s\<lparr>th_receiver := R_While, th_inq := sb_inq b', th_got := th_got s @ [m]\<rparr>)"
      using assms(2-) inq by (cases s) simp
    from path_go [of inLoop_step, OF recv_message [OF assms(3,5)] this] inq show ?thesis
      by blast
  qed
qed

lemma recv_is_path:
  assumes "SBus_recv n P x b = Inr ((len, tag, peer, msg), b')" "th_inq s = sb_inq b" "th_client s = C_Lock"
    "th_mutex s = None"
  shows "\<exists>es vs m. path recv_step s es (s\<lparr>th_client := C_Out, th_inq := sb_inq b',
      th_verdicts := th_verdicts s @ vs @ [(m, peer)]\<rparr>) \<and> (\<forall>v \<in> set vs. snd v < 0) \<and> 0 \<le> peer \<and>
    len = int (length msg) \<and> msg = SMsg_getMsg m \<and> tag = SMsg_getMsgTag m"
  using assms
proof (induction n arbitrary: b s)
  case (Suc n)
  show ?case
  proof (cases "sb_inq b")
    case Nil
    then obtain u b1 where b1: "on_messenger (on_world (modp (px_usleep P SLEEP_uS))) b = Inr (u, b1)"
      "SBus_recv n P x b1 = Inr ((len, tag, peer, msg), b')"
      using Suc.prems(1) by (auto simp: getp_def prog_simps bindp_eq_Inr)
    have "path recv_step s [Tau, Tau, Tau, Tau] s"
      using Nil Suc.prems by (cases s) simp
    with Suc.IH [OF b1(2), of s] on_messenger_inq [OF b1(1)] Suc.prems show ?thesis
      by (metis path_append)
  next
    case (Cons m q)
    obtain p b1 where b1: "SBus_processSMsg P x m (b\<lparr>sb_inq := q\<rparr>) = Inr (p, b1)"
      "(if 0 \<le> p then ret (int (length (SMsg_getMsg m)), SMsg_getMsgTag m, p, SMsg_getMsg m)
        else SBus_recv n P x) b1 = Inr ((len, tag, peer, msg), b')"
      using Suc.prems(1) Cons by (auto simp: getp_def modp_def bindp_eq_Inr)
    have inq: "sb_inq b1 = q"
      using process_inq [OF b1(1)] by simp
    let ?t = "s\<lparr>th_client := C_Process m, th_inq := q\<rparr>"
    let ?u = "s\<lparr>th_client := if 0 \<le> p then C_Out else C_Lock, th_inq := q, th_verdicts := th_verdicts s @ [(m, p)]\<rparr>"
    have "recv_step (Verdict p) ?t ?u"
      using processed [of ?t m p] by (cases s) simp
    then have verdict: "path recv_step ?t [Verdict p] ?u"
      by simp
    have "path recv_step s [Tau, Tau, Tau, Tau] ?t"
      by (rule recv_takes) (use Suc.prems Cons in auto)
    from path_append [OF this verdict] obtain es0 where step: "path recv_step s es0 ?u" ..
    show ?thesis
    proof (cases "0 \<le> p")
      case True
      with b1(2) have "peer = p" "b' = b1" "len = int (length (SMsg_getMsg m))" "msg = SMsg_getMsg m" "tag = SMsg_getMsgTag m"
        by auto
      with step True inq show ?thesis
        by (intro exI [of _ es0] exI [of _ "[]"] exI [of _ m]) simp
    next
      case False
      with Suc.IH [of b1 ?u] b1(2) inq Suc.prems obtain es vs m' where rest:
        "path recv_step ?u es (?u\<lparr>th_client := C_Out, th_inq := sb_inq b',
           th_verdicts := th_verdicts ?u @ vs @ [(m', peer)]\<rparr>)"
        "\<forall>v \<in> set vs. snd v < 0" "0 \<le> peer" "len = int (length msg)" "msg = SMsg_getMsg m'" "tag = SMsg_getMsgTag m'"
        by auto
      from path_append [OF step rest(1)] rest(2-) False show ?thesis
        by (intro exI [of _ "es0 @ es"] exI [of _ "(m, p) # vs"] exI [of _ m']) simp
    qed
  qed
qed (simp add: faultp_def)

section \<open>A sample run\<close>

definition sample_run :: "event list" where
  "sample_run = [Got (Some (sample_msg 9 7 ''hi'')), Tau, Tau, Tau, Call_recv]"

definition sample_threads :: threads where
  "sample_threads = threads_start\<lparr>th_receiver := R_While, th_client := C_Lock,
     th_inq := [sample_msg 9 7 ''hi''], th_got := [sample_msg 9 7 ''hi'']\<rparr>"

lemma sample_threads_sel:
  "th_client sample_threads = C_Lock" "th_mutex sample_threads = None" "th_inq sample_threads = [sample_msg 9 7 ''hi'']"
  by (simp_all add: sample_threads_def threads_start_def)

lemma sample_path: "path threads_step threads_start sample_run sample_threads"
proof -
  let ?s = "threads_start\<lparr>th_receiver := R_While, th_inq := [sample_msg 9 7 ''hi''], th_got := [sample_msg 9 7 ''hi'']\<rparr>"
  let ?r = "threads_start\<lparr>th_receiver := R_Lock (sample_msg 9 7 ''hi''), th_got := [sample_msg 9 7 ''hi'']\<rparr>"
  have "inLoop_step (Got (Some (sample_msg 9 7 ''hi''))) threads_start ?r"
    using recv_message [of threads_start "sample_msg 9 7 ''hi''"] by (simp add: threads_start_def)
  moreover have "path inLoop_step ?r [Tau, Tau, Tau] ?s"
    by (simp add: threads_start_def)
  ultimately have "path inLoop_step threads_start [Got (Some (sample_msg 9 7 ''hi'')), Tau, Tau, Tau] ?s"
    by (rule path_go)
  then have run: "path threads_step threads_start [Got (Some (sample_msg 9 7 ''hi'')), Tau, Tau, Tau] ?s"
    by (rule path_threads(1))
  have "recv_step Call_recv ?s sample_threads"
    using enter [of ?s] by (simp add: sample_threads_def threads_start_def)
  then have "path threads_step ?s [Call_recv] sample_threads"
    by (simp add: threads_stepI client_stepI)
  from path_append [OF run this] show ?thesis
    by (simp only: sample_run_def append.simps)
qed

lemma sample_recv:
  "\<exists>b'. SBus_recv 1 null_posix (sample_cxx True 5)
     ((sample_bus ())\<lparr>sb_inq := [sample_msg 9 7 ''hi'']\<rparr>) = Inr ((2, 9, 1, ''hi''), b')"
proof -
  have "runs (SBus_processSMsg null_posix (sample_cxx True 5) (sample_msg 9 7 ''hi'')) (sample_bus ()) (\<lambda>k b'. k = 1)"
    by (rule runs_mono [OF runs_user_message [OF sample_ready]]) (auto simp: sample_sender to_short_def)
  then obtain b' where "SBus_processSMsg null_posix (sample_cxx True 5) (sample_msg 9 7 ''hi'') (sample_bus ()) = Inr (1, b')"
    by (auto simp: runs_Inr)
  moreover have "(sample_bus ())\<lparr>sb_inq := []\<rparr> = sample_bus ()"
    by (simp add: sample_bus_def)
  ultimately show ?thesis
    by (simp add: bindp_def getp_def modp_def to_short_def)
qed

section \<open>Properties\<close>

text \<open>
  C7: the queue between the threads loses, duplicates and reorders nothing. After any interleaving
  of the receiving thread with the client's calls, the messages the messenger gave are, in order,
  those \<open>recv\<close> has processed, the one it has in hand, those queued and the one about to be
  queued; and no two threads are ever between \<open>lock\<close> and \<open>unlock\<close> at once.
\<close>

theorem threads_fifo:
  assumes "path threads_step threads_start es s"
  shows "th_got s = map fst (th_verdicts s) @ client_hand (th_client s) @ th_inq s @ receiver_hand (th_receiver s) \<and>
    th_mutex s = holder s \<and> \<not> (receiver_holds (th_receiver s) \<and> client_holds (th_client s))"
  using bus_threads.inv_reachable [OF assms] by (simp add: threads_ok_def)

theorem threads_fifo_witness:
  "th_got sample_threads = map fst (th_verdicts sample_threads) @ client_hand (th_client sample_threads) @
      th_inq sample_threads @ receiver_hand (th_receiver sample_threads) \<and>
    th_mutex sample_threads = holder sample_threads \<and>
    \<not> (receiver_holds (th_receiver sample_threads) \<and> client_holds (th_client sample_threads))"
  by (rule threads_fifo [OF sample_path])

text \<open>
  C18: the threads never deadlock. In every state that an interleaving leads to before the bus is
  deleted, each thread can go on or waits for a mutex that the other one has; and the one that has
  it gives it back in at most three steps of its own.
\<close>

theorem threads_no_deadlock:
  assumes "path threads_step threads_start es s" "th_client s \<noteq> C_Gone"
  shows "(th_receiver s = R_Exit \<or> (\<exists>e t. inLoop_step e s t) \<or> th_mutex s = Some Client) \<and>
    ((\<exists>e t. client_step e s t) \<or> th_mutex s = Some Receiver) \<and>
    (th_mutex s = Some Receiver \<longrightarrow> (\<exists>es t. length es \<le> 2 \<and> path inLoop_step s es t \<and> th_mutex t = None)) \<and>
    (th_mutex s = Some Client \<longrightarrow> (\<exists>es t. length es \<le> 3 \<and> path recv_step s es t \<and> th_mutex t = None))"
proof -
  have ok: "threads_ok s"
    by (rule bus_threads.inv_reachable [OF assms(1)])
  show ?thesis
    using receiver_steps [OF ok assms(2)] client_steps [OF ok assms(2)] receiver_releases [OF ok assms(2)]
      client_releases [OF ok] by blast
qed

theorem threads_no_deadlock_witness:
  "(\<exists>e t. inLoop_step e sample_threads t) \<and> (\<exists>e t. client_step e sample_threads t)"
  using threads_no_deadlock [OF sample_path] by (simp add: sample_threads_sel) (simp add: sample_threads_def threads_start_def)

text \<open>
  A queued message is within reach of a client that waits for one: whatever the threads did
  before, at most six steps take the first message of the queue to \<open>processSMsg\<close>.
\<close>

theorem threads_deliver:
  assumes "path threads_step threads_start es s" "th_client s = C_Lock" "th_inq s = m # q"
  shows "\<exists>es t. length es \<le> 6 \<and> path threads_step s es t \<and> th_client t = C_Process m"
proof -
  have ok: "threads_ok s"
    by (rule bus_threads.inv_reachable [OF assms(1)])
  obtain es' t q' where t: "length es' \<le> 2" "path threads_step s es' t" "th_mutex t = None"
    "th_client t = C_Lock" "th_inq t = m # q'"
  proof (cases "th_mutex s")
    case None
    then show thesis
      using that [of "[]" s] assms by auto
  next
    case (Some r)
    then have "th_mutex s = Some Receiver"
      using ok assms(2) by (auto simp: threads_ok_def holder_def split: if_splits)
    with receiver_releases [OF ok] assms(2,3) obtain es' t q' where
      "length es' \<le> 2" "path inLoop_step s es' t" "th_mutex t = None" "th_client t = C_Lock" "th_inq t = m # q @ q'"
      by auto
    then show thesis
      using that [of es' t "q @ q'"] path_threads(1) by simp
  qed
  have "path threads_step t [Tau, Tau, Tau, Tau] (t\<lparr>th_client := C_Process m, th_inq := q'\<rparr>)"
    using path_mono [OF recv_takes [OF t(4,3,5)]] threads_stepI(2) client_stepI(1) by blast
  from path_append [OF t(2) this] show ?thesis
    using t(1) by (intro exI conjI) auto
qed

theorem threads_deliver_witness:
  "\<exists>es t. length es \<le> 6 \<and> path threads_step sample_threads es t \<and> th_client t = C_Process (sample_msg 9 7 ''hi'')"
  by (rule threads_deliver [OF sample_path]) (simp_all add: sample_threads_sel)



text \<open>
  C19: deleting a bus races with its receiving thread. Wherever that thread is, unless it has ended,
  a client outside \<open>recv\<close> can delete the object in two steps that wait for nothing; and the thread
  cannot have ended before, since it runs until the destructor clears \<open>alive\<close>.
\<close>

theorem delete_races:
  assumes "path threads_step threads_start es s" "th_client s = C_Out"
  shows "\<exists>t. path delete_step s [Call_delete, Tau] t \<and> th_client t = C_Gone \<and>
    th_receiver t = th_receiver s \<and> th_receiver t \<noteq> R_Exit"
proof -
  have "th_receiver s \<noteq> R_Exit"
    using bus_threads.inv_reachable [OF assms(1)] assms(2) by (simp add: threads_ok_def)
  moreover have "delete_step Tau (s\<lparr>th_client := C_Delete, th_alive := False\<rparr>) (s\<lparr>th_client := C_Gone, th_alive := False\<rparr>)"
    using destroy [of "s\<lparr>th_client := C_Delete, th_alive := False\<rparr>"] by (cases s) simp
  ultimately show ?thesis
    using clear [OF assms(2)] by (intro exI [of _ "s\<lparr>th_client := C_Gone, th_alive := False\<rparr>"] conjI path_go) auto
qed

theorem delete_races_witness:
  "\<exists>t. path delete_step threads_start [Call_delete, Tau] t \<and> th_client t = C_Gone \<and>
    th_receiver t = th_receiver threads_start \<and> th_receiver t \<noteq> R_Exit"
  by (rule delete_races [OF path_stop]) (simp add: threads_start_def)

text \<open>
  \<open>getPending\<close> reads the queue while the receiving thread changes it: an interleaving leads to
  a state where that thread, with the mutex, is about to append a message and the client, without
  it, is about to read the size.
\<close>

theorem getPending_races:
  "\<exists>s. path threads_step threads_start [Got (Some m), Tau, Call_getPending] s \<and>
    th_receiver s = R_Push m \<and> th_mutex s = Some Receiver \<and> th_client s = C_Pending \<and>
    (\<exists>t. inLoop_step Tau s t \<and> th_inq t \<noteq> th_inq s) \<and> (\<exists>t. getPending_step Tau s t)"
proof -
  let ?r = "threads_start\<lparr>th_receiver := R_Lock m, th_got := th_got threads_start @ [m]\<rparr>"
  let ?p = "?r\<lparr>th_receiver := R_Push m, th_mutex := Some Receiver\<rparr>"
  let ?s = "?p\<lparr>th_client := C_Pending\<rparr>"
  have "threads_step (Got (Some m)) threads_start ?r"
    by (rule threads_stepI(1), rule recv_message) (simp_all add: threads_start_def)
  moreover have "threads_step Tau ?r ?p"
    by (rule threads_stepI(1), rule push_lock) (simp_all add: threads_start_def)
  moreover have "threads_step Call_getPending ?p ?s"
    by (rule threads_stepI(2), rule client_stepI(2), rule ask) (simp add: threads_start_def)
  ultimately have "path threads_step threads_start [Got (Some m), Tau, Call_getPending] ?s"
    unfolding path_Cons path_Nil by blast
  moreover have "inLoop_step Tau ?s (?s\<lparr>th_receiver := R_Unlock, th_inq := th_inq ?s @ [m]\<rparr>)"
    by (rule push_back) (simp_all add: threads_start_def)
  moreover have "getPending_step Tau ?s (?s\<lparr>th_client := C_Out\<rparr>)"
    by (rule answer) simp
  moreover have "th_receiver ?s = R_Push m \<and> th_mutex ?s = Some Receiver \<and> th_client ?s = C_Pending"
    by simp
  moreover have "th_inq (?s\<lparr>th_receiver := R_Unlock, th_inq := th_inq ?s @ [m]\<rparr>) \<noteq> th_inq ?s"
    by simp
  ultimately show ?thesis
    by blast
qed

end
