(* ===== verification/Bus_Types.thy ===== *)
theory Bus_Types
  imports Bus_Threads Bus_Invariant
begin

text \<open>
  The types of what goes through a bus. The messages of its queue, and what it hands to its client,
  keep to the ranges of the C types they are stored in and to the sizes the protocol sets,
  whatever the bytes were that arrived.
\<close>

section \<open>Messages of the right type\<close>

definition typed_msg :: "smsg \<Rightarrow> bool" where
  "typed_msg m \<longleftrightarrow> - (2 ^ 15) \<le> sm_msgtag m \<and> sm_msgtag m < 2 ^ 15 \<and> length (sm_msg m) \<le> 2 ^ 20 \<and>
     (if sm_error m then sm_msgtag m = ERRCODE_PEER_DISCONNECTED \<and> sm_msg m = [] else 0 < sm_socket m)"

definition typed_queue :: "'w sbus \<Rightarrow> bool" where
  "typed_queue b \<longleftrightarrow> (\<forall>m \<in> set (sb_inq b). typed_msg m)"

lemma typed_queue_update [simp]:
  "typed_queue (b\<lparr>sb_messenger := m\<rparr>) = typed_queue b" "typed_queue (b\<lparr>sb_contacts := c\<rparr>) = typed_queue b"
  "typed_queue (b\<lparr>sb_name := t\<rparr>) = typed_queue b"
  by (simp_all add: typed_queue_def)

lemma typed_error: "typed_msg (SMsg_new_error ERRCODE_PEER_DISCONNECTED ip port fd)"
  by (simp add: typed_msg_def SMsg_new_error_def to_short_def)

lemma typed_new: "length msg \<le> 2 ^ 20 \<Longrightarrow> 0 < fd \<Longrightarrow> typed_msg (SMsg_new tag ip port fd msg)"
  using to_short_range [of tag] by (simp add: typed_msg_def SMsg_new_def)

section \<open>Receiving\<close>

text \<open>\<open>gives Q m\<close>: the results of \<open>m\<close>, from any state, satisfy \<open>Q\<close>.\<close>

definition gives :: "('a \<Rightarrow> bool) \<Rightarrow> ('s, 'a) prog \<Rightarrow> bool" where
  "gives Q m \<longleftrightarrow> (\<forall>s. safe m s (\<lambda>r _. Q r))"

named_theorems gives_rules \<open>introduction rules for \<open>gives\<close>\<close>

lemma givesD: "gives Q m \<Longrightarrow> safe m s (\<lambda>r _. Q r)"
  by (simp add: gives_def)

lemma gives_basic [gives_rules]: "Q a \<Longrightarrow> gives Q (ret a)" "gives Q (faultp e)"
  by (simp_all add: gives_def safe_basic)

lemma gives_bindp [gives_rules]: "(\<And>a. gives Q (f a)) \<Longrightarrow> gives Q (bindp m f)"
  by (auto simp: gives_def safe_bindp intro: safeI)

lemma gives_after: "gives R m \<Longrightarrow> (\<And>a. R a \<Longrightarrow> gives Q (f a)) \<Longrightarrow> gives Q (bindp m f)"
  unfolding gives_def safe_bindp by (blast intro: safe_mono)

lemma gives_branches [gives_rules]:
  "(c \<Longrightarrow> gives Q m) \<Longrightarrow> (\<not> c \<Longrightarrow> gives Q m') \<Longrightarrow> gives Q (if c then m else m')"
  "gives Q (f v) \<Longrightarrow> gives Q (let y = v in f y)"
  "(\<And>a b. z = (a, b) \<Longrightarrow> gives Q (k a b)) \<Longrightarrow> gives Q (case z of (a, b) \<Rightarrow> k a b)"
  by (simp_all split: prod.split)

definition typed_result :: "smsg option + nat \<Rightarrow> bool" where
  "typed_result r \<longleftrightarrow> (\<forall>msg. r = Inl (Some msg) \<longrightarrow> typed_msg msg)"

lemma typed_result_simps [simp]:
  "typed_result (Inr k)" "typed_result (Inl None)" "typed_result (Inl (Some msg)) = typed_msg msg"
  by (simp_all add: typed_result_def)

lemma gives_disconnected: "gives typed_result (disconnected P fd)"
  unfolding disconnected_def by (intro gives_rules) (simp add: typed_error)

lemma gives_nextMsg:
  "gives (\<lambda>(res, tag, data, from). 0 < res \<longrightarrow> length data \<le> 2 ^ 20) (on_world (SMessenger_nextMsg P stack fd MAX_DATALEN))"
  unfolding gives_def on_world_def safe_zoom by (auto intro!: safe_mono [OF SMessenger_nextMsg_bounds])

lemma gives_pass: "gives typed_result (recv_pass P fds n i stack)"
proof (induction n arbitrary: i stack)
  case (Suc n)
  show ?case
    unfolding recv_pass.simps
    by (intro gives_rules gives_disconnected Suc.IH gives_after [OF gives_nextMsg]) (simp_all add: typed_new)
qed (simp add: gives_basic)

lemma gives_loop: "gives (\<lambda>r. \<forall>msg. r = Some msg \<longrightarrow> typed_msg msg) (recv_loop fuel P timeout limit stack)"
proof (induction fuel arbitrary: stack)
  case (Suc fuel)
  have pass: "gives typed_result (case fds of None \<Rightarrow> if n = 0 then ret (Inr stack) else faultp Null_Pointer
      | Some xs \<Rightarrow> recv_pass P xs (nat n) 0 stack)" for fds :: "pollfd list option" and n :: int
    by (cases fds) (simp_all add: gives_pass gives_basic)
  have rest: "gives (\<lambda>r. \<forall>msg. r = Some msg \<longrightarrow> typed_msg msg)
      (case r of Inl res \<Rightarrow> ret res | Inr stack' \<Rightarrow> recv_loop fuel P timeout limit stack')" if "typed_result r" for r
    using that Suc.IH by (cases r) (auto simp: typed_result_def intro: gives_basic)
  show ?case
    unfolding recv_loop.simps by (intro gives_rules gives_after [OF pass rest]; simp)
qed (simp add: gives_basic)

lemma gives_recv: "gives (\<lambda>r. \<forall>msg. r = Some msg \<longrightarrow> typed_msg msg) (SMessenger_recv fuel P stack timeout)"
  unfolding SMessenger_recv_def by (intro gives_rules gives_loop) simp

lemma keeps_round_typed: "keeps typed_queue (SBus_inRound fuel P stack)"
proof (rule keepsI)
  fix b :: "'a sbus"
  assume "typed_queue b"
  then show "safe (SBus_inRound fuel P stack) b (\<lambda>_. typed_queue)"
    unfolding SBus_inRound_def safe_bindp on_messenger_def safe_zoom
    by (intro safe_mono [OF givesD [OF gives_recv]]) (auto simp: safe_basic typed_queue_def split: option.split)
qed

section \<open>The client\<close>

lemma keeps_typed_on: "keeps typed_queue (on_messenger m)" "keeps typed_queue (on_contacts c)"
  by (auto simp: keeps_def on_messenger_def on_contacts_def safe_zoom intro: safeI)

text \<open>Whatever leaves the queue alone keeps its type.\<close>

lemma keeps_typed:
  fixes m :: "('w sbus, 'a) prog"
  assumes "\<And>q. keeps (\<lambda>b. sb_inq b = q) m"
  shows "keeps typed_queue m"
  unfolding keeps_def
proof (intro allI impI)
  fix b :: "'w sbus"
  assume "typed_queue b"
  then show "safe m b (\<lambda>_. typed_queue)"
    using safe_mono [OF keepsD [OF assms refl], of b "\<lambda>_. typed_queue"] by (simp add: typed_queue_def)
qed

lemma typed_recv:
  assumes "typed_queue b"
  shows "safe (SBus_recv n P x) b (\<lambda>(len, tag, peer, msg) b'. typed_queue b' \<and> 0 \<le> peer \<and>
    - (2 ^ 15) \<le> tag \<and> tag < 2 ^ 15 \<and> len = int (length msg) \<and> length msg \<le> 2 ^ 20)"
  using assms
proof (induction n arbitrary: b)
  case (Suc n)
  show ?case
  proof (cases "sb_inq b")
    case Nil
    show ?thesis
      unfolding SBus_recv.simps safe_bindp safe_basic Nil list.case
      by (rule safe_mono [OF keepsD [OF keeps_typed_on(1) Suc.prems] Suc.IH])
  next
    case (Cons m q)
    have m: "typed_msg m" "typed_queue (b\<lparr>sb_inq := q\<rparr>)"
      using Suc.prems Cons by (simp_all add: typed_queue_def)
    show ?thesis
      using Cons Suc.IH m(1)
      by (auto simp: safe_bindp safe_basic typed_msg_def SMsg_getMsg_def SMsg_getMsgTag_def
          intro!: safe_mono [OF keepsD [OF keeps_typed [OF keeps_inq_process] m(2)]])
  qed
qed (simp add: safe_basic)

lemma keeps_call_typed: "keeps typed_queue (run_call P x c)"
proof (cases c)
  case (Receive n)
  then show ?thesis
    by (auto simp: keeps_def safe_bindp safe_basic intro!: safe_mono [OF typed_recv])
next
  case (Unicast tag peer msg)
  then show ?thesis
    by (simp, intro keeps_rules keeps_typed keeps_inq_sendTo)
qed (auto simp: SBus_send_def SBus_setName_def SBus_setDefaultSafeName_def intro!: keeps_rules keeps_typed_on keeps_round_typed)

lemma keeps_calls_typed: "keeps typed_queue (run_calls P x cs)"
  by (induction cs) (auto intro: keeps_rules keeps_call_typed)

lemma typed_new_bus:
  assumes "SBus_init P alloc thread device mcip mcport w = Inr b"
  shows "typed_queue b"
  using assms
  by (auto simp: SBus_init_def SBus_setDefaultSafeName_def typed_queue_def bindp_def prog_defs split: sum.splits if_splits)

section \<open>Property\<close>

text \<open>
  C8: what goes through a bus is well typed. After any calls of the client and rounds of the
  receiving thread, whatever arrived, each message of the queue has a tag of 16 bits and a body of
  one megabyte at most, and is either the report of a lost peer, without a body, or comes over a
  valid descriptor; and what \<open>recv\<close> delivers next has such a tag and body, the length of that body
  and a valid peer number.
\<close>

theorem bus_well_typed:
  assumes "SBus_init P alloc thread device mcip mcport w = Inr b"
  shows "safe (run_calls P x calls) b (\<lambda>_ b'. (\<forall>m \<in> set (sb_inq b'). typed_msg m) \<and>
    safe (SBus_recv n P x) b' (\<lambda>(len, tag, peer, msg) _. 0 \<le> peer \<and> - (2 ^ 15) \<le> tag \<and> tag < 2 ^ 15 \<and>
      len = int (length msg) \<and> length msg \<le> 2 ^ 20))"
  by (rule safe_mono [OF keepsD [OF keeps_calls_typed typed_new_bus [OF assms]]])
    (auto simp: typed_queue_def [symmetric] elim!: safe_mono [OF typed_recv])

theorem bus_well_typed_witness:
  "\<exists>b. SBus_init group_posix True True (Some ''lo'') ''224.0.23.130'' 10001 () = Inr b \<and>
    safe (run_calls group_posix (sample_cxx True 5) [Multicast 7 ''hi'', Round 3 100]) b (\<lambda>_ b'.
      (\<forall>m \<in> set (sb_inq b'). typed_msg m) \<and> safe (SBus_recv 4 group_posix (sample_cxx True 5)) b' (\<lambda>(len, tag, peer, msg) _.
        0 \<le> peer \<and> - (2 ^ 15) \<le> tag \<and> tag < 2 ^ 15 \<and> len = int (length msg) \<and> length msg \<le> 2 ^ 20))"
proof -
  obtain b where b: "SBus_init group_posix True True (Some ''lo'') ''224.0.23.130'' 10001 () = Inr b"
    using sample_bus_new by blast
  then show ?thesis
    by (intro exI [of _ b] conjI bus_well_typed [OF b])
qed

end
