(* ===== verification/Poll_Race.thy ===== *)
theory Poll_Race
  imports Bus_Threads
begin

text \<open>
  The registry of descriptors between the two threads of a bus. The receiving thread polls it and
  reads its array, adds a descriptor when it accepts a connection and removes one when it gets an
  error; the client's thread adds one when it connects to a peer. There is no lock. What they
  share is the pointer \<open>fds\<close>, the two counts and the cells of the array, of which only the field
  \<open>fd\<close> is kept. Every write of one of these is a step of its own, apart from the reads the
  value comes from; a test, with what it reads, is a step too. \<open>realloc\<close> does not fail here.
\<close>

section \<open>State\<close>

datatype adder_at =
    A_Out
  | A_Check int
  | A_Grow int
  | A_Realloc int int
  | A_Store int nat int
  | A_Clear int int
  | A_Capacity int int
  | A_Start int
  | A_Scan int int
  | A_Write int int
  | A_Load
  | A_Inc int

datatype remover_at =
    M_Out
  | M_Scan int int
  | M_Found int
  | M_Move int
  | M_Zero int
  | M_Load
  | M_Dec int

datatype poller_at =
    P_Call
  | P_Wait nat int
  | P_Get
  | P_Loop nat int int

text \<open>
  The memory maps the blocks in use to their cells; \<open>rg_wild\<close> says that memory out of use was
  touched, \<open>rg_exit\<close> that an assertion failed and the process ended.
\<close>

record polls =
  rg_memory :: "nat \<rightharpoonup> int list"
  rg_fds :: nat
  rg_size :: int
  rg_capacity :: int
  rg_receiver :: adder_at
  rg_client :: adder_at
  rg_remover :: remover_at
  rg_poller :: poller_at
  rg_wild :: bool
  rg_exit :: bool

text \<open>A registry of the given descriptors, with \<open>k\<close> free cells and no thread inside.\<close>

definition polls_start :: "int list \<Rightarrow> nat \<Rightarrow> polls" where
  "polls_start xs k =
     \<lparr>rg_memory = [0 \<mapsto> xs @ replicate k 0], rg_fds = 0, rg_size = int (length xs),
      rg_capacity = int (length xs + k), rg_receiver = A_Out, rg_client = A_Out, rg_remover = M_Out,
      rg_poller = P_Call, rg_wild = False, rg_exit = False\<rparr>"

fun adder :: "thread \<Rightarrow> polls \<Rightarrow> adder_at" where
  "adder Receiver = rg_receiver"
| "adder Client = rg_client"

fun set_adder :: "thread \<Rightarrow> adder_at \<Rightarrow> polls \<Rightarrow> polls" where
  "set_adder Receiver a s = s\<lparr>rg_receiver := a\<rparr>"
| "set_adder Client a s = s\<lparr>rg_client := a\<rparr>"

section \<open>Steps\<close>

text \<open>Whether the cell \<open>i\<close> of a block can be touched, and what it holds.\<close>

definition usable :: "polls \<Rightarrow> nat \<Rightarrow> int \<Rightarrow> bool" where
  "usable s p i \<longleftrightarrow> (case rg_memory s p of None \<Rightarrow> False | Some xs \<Rightarrow> 0 \<le> i \<and> i < int (length xs))"

definition cell :: "polls \<Rightarrow> nat \<Rightarrow> int \<Rightarrow> int" where
  "cell s p i = (case rg_memory s p of None \<Rightarrow> 0 | Some xs \<Rightarrow> xs ! nat i)"

text \<open>A change of the cells that \<open>fds\<close> points to.\<close>

definition update_cells :: "(int list \<Rightarrow> int list) \<Rightarrow> polls \<Rightarrow> polls" where
  "update_cells f s = s\<lparr>rg_memory := (rg_memory s)(rg_fds s := map_option f (rg_memory s (rg_fds s)))\<rparr>"

definition wild :: "polls \<Rightarrow> polls" where
  "wild s = s\<lparr>rg_wild := True\<rparr>"

definition exited :: "polls \<Rightarrow> polls" where
  "exited s = s\<lparr>rg_exit := True\<rparr>"

text \<open>What every operation asserts of the two counts.\<close>

definition counts_ok :: "polls \<Rightarrow> bool" where
  "counts_ok s \<longleftrightarrow> 0 \<le> rg_size s \<and> rg_size s \<le> rg_capacity s"

text \<open>The new block of \<open>realloc\<close>: the old cells, as many as there is room for, and new ones.\<close>

definition resize :: "int \<Rightarrow> int list \<Rightarrow> int list" where
  "resize n xs = take (nat n) xs @ replicate (nat n - length xs) 0"

text \<open>\<open>bzero\<close> of the cells that \<open>grow\<close> adds, and the \<open>memmove\<close> of \<open>n\<close> cells to cell \<open>i\<close> from the next.\<close>

definition zero_cells :: "int \<Rightarrow> int list \<Rightarrow> int list" where
  "zero_cells c xs = take (nat c) xs @ replicate 5 0 @ drop (nat c + 5) xs"

definition move_cells :: "int \<Rightarrow> int \<Rightarrow> int list \<Rightarrow> int list" where
  "move_cells i n xs = take (nat i) xs @ take (nat n) (drop (nat i + 1) xs) @ drop (nat i + nat n) xs"

text \<open>
  \<open>add\<close> and \<open>grow\<close>, by either thread; the receiving thread adds when it is neither polling nor
  removing. The label says what the step needs to know: the descriptor, or where \<open>realloc\<close> puts the
  new block.
\<close>

datatype touch = Add thread int | Realloc thread nat | Step thread | Remove int | Poll

inductive add_step :: "touch \<Rightarrow> polls \<Rightarrow> polls \<Rightarrow> bool" where
  add_call: "adder th s = A_Out \<Longrightarrow> 0 < fd \<Longrightarrow> th = Receiver \<longrightarrow> rg_poller s = P_Call \<and> rg_remover s = M_Out \<Longrightarrow>
     add_step (Add th fd) s (if counts_ok s then set_adder th (A_Check fd) s else exited s)"
| add_check: "adder th s = A_Check fd \<Longrightarrow>
     add_step (Step th) s (set_adder th (if rg_capacity s \<le> rg_size s then A_Grow fd else A_Start fd) s)"
| grow_call: "adder th s = A_Grow fd \<Longrightarrow>
     add_step (Step th) s (if counts_ok s then set_adder th (A_Realloc fd (rg_capacity s + 5)) s else exited s)"
| grow_realloc: "adder th s = A_Realloc fd n \<Longrightarrow> rg_memory s (rg_fds s) = Some xs \<Longrightarrow>
     q = rg_fds s \<or> rg_memory s q = None \<Longrightarrow>
     add_step (Realloc th q) s (set_adder th (A_Store fd q n)
       (s\<lparr>rg_memory := (rg_memory s)(rg_fds s := None, q \<mapsto> resize n xs)\<rparr>))"
| grow_freed: "adder th s = A_Realloc fd n \<Longrightarrow> rg_memory s (rg_fds s) = None \<Longrightarrow> add_step (Step th) s (wild s)"
| grow_store: "adder th s = A_Store fd q n \<Longrightarrow>
     add_step (Step th) s (set_adder th (A_Clear fd n) (s\<lparr>rg_fds := q\<rparr>))"
| grow_clear: "adder th s = A_Clear fd n \<Longrightarrow>
     add_step (Step th) s
       (if usable s (rg_fds s) (rg_capacity s + 4)
        then set_adder th (A_Capacity fd n) (update_cells (zero_cells (rg_capacity s)) s) else wild s)"
| grow_capacity: "adder th s = A_Capacity fd n \<Longrightarrow>
     add_step (Step th) s (set_adder th (A_Start fd) (s\<lparr>rg_capacity := n\<rparr>))"
| scan_start: "adder th s = A_Start fd \<Longrightarrow> add_step (Step th) s (set_adder th (A_Scan fd (rg_size s)) s)"
| scan_look: "adder th s = A_Scan fd i \<Longrightarrow> i < rg_capacity s \<Longrightarrow> usable s (rg_fds s) i \<Longrightarrow>
     add_step (Step th) s (set_adder th (if cell s (rg_fds s) i = 0 then A_Write fd i else A_Scan fd (i + 1)) s)"
| scan_end: "adder th s = A_Scan fd i \<Longrightarrow> rg_capacity s \<le> i \<Longrightarrow> add_step (Step th) s (set_adder th A_Out s)"
| scan_wild: "adder th s = A_Scan fd i \<Longrightarrow> i < rg_capacity s \<Longrightarrow> \<not> usable s (rg_fds s) i \<Longrightarrow> add_step (Step th) s (wild s)"
| write_cell: "adder th s = A_Write fd i \<Longrightarrow>
     add_step (Step th) s (if usable s (rg_fds s) i then set_adder th A_Load (update_cells (\<lambda>xs. xs[nat i := fd]) s) else wild s)"
| count_read: "adder th s = A_Load \<Longrightarrow> add_step (Step th) s (set_adder th (A_Inc (rg_size s)) s)"
| count_write: "adder th s = A_Inc n \<Longrightarrow> add_step (Step th) s (set_adder th A_Out (s\<lparr>rg_size := n + 1\<rparr>))"

text \<open>
  \<open>remove\<close> and \<open>removeit\<close>. The receiving thread calls \<open>remove\<close> for a descriptor that it reads in the
  array after polling, and then leaves \<open>recv\<close>. The length of the move is computed in the type
  \<open>size_t\<close>, in which a negative number of cells is more than any block has.
\<close>

inductive remove_step :: "touch \<Rightarrow> polls \<Rightarrow> polls \<Rightarrow> bool" where
  rem_call: "rg_poller s = P_Loop p n i \<Longrightarrow> i < n \<Longrightarrow> usable s p i \<Longrightarrow> cell s p i = fd \<Longrightarrow> 0 < fd \<Longrightarrow>
     remove_step (Remove fd) s (if counts_ok s then s\<lparr>rg_poller := P_Call, rg_remover := M_Scan fd 0\<rparr> else exited s)"
| rem_look: "rg_remover s = M_Scan fd i \<Longrightarrow> i < rg_capacity s \<Longrightarrow> usable s (rg_fds s) i \<Longrightarrow>
     remove_step (Step Receiver) s
       (s\<lparr>rg_remover := if cell s (rg_fds s) i = fd then M_Found i else M_Scan fd (i + 1)\<rparr>)"
| rem_end: "rg_remover s = M_Scan fd i \<Longrightarrow> rg_capacity s \<le> i \<Longrightarrow> remove_step (Step Receiver) s (s\<lparr>rg_remover := M_Out\<rparr>)"
| rem_wild: "rg_remover s = M_Scan fd i \<Longrightarrow> i < rg_capacity s \<Longrightarrow> \<not> usable s (rg_fds s) i \<Longrightarrow>
     remove_step (Step Receiver) s (wild s)"
| rem_test: "rg_remover s = M_Found i \<Longrightarrow>
     remove_step (Step Receiver) s
       (if \<not> (counts_ok s \<and> i \<le> rg_capacity s) then exited s
        else if \<not> usable s (rg_fds s) i then wild s
        else s\<lparr>rg_remover := if i + 1 < rg_size s then M_Move i else M_Zero i\<rparr>)"
| rem_move: "rg_remover s = M_Move i \<Longrightarrow>
     remove_step (Step Receiver) s
       (if rg_size s = i then s\<lparr>rg_remover := M_Load\<rparr>
        else if i < rg_size s \<and> usable s (rg_fds s) (rg_size s)
        then (update_cells (move_cells i (rg_size s - i)) s)\<lparr>rg_remover := M_Load\<rparr> else wild s)"
| rem_zero: "rg_remover s = M_Zero i \<Longrightarrow>
     remove_step (Step Receiver) s
       (if usable s (rg_fds s) i then (update_cells (\<lambda>xs. xs[nat i := 0]) s)\<lparr>rg_remover := M_Load\<rparr> else wild s)"
| rem_read: "rg_remover s = M_Load \<Longrightarrow> remove_step (Step Receiver) s (s\<lparr>rg_remover := M_Dec (rg_size s)\<rparr>)"
| rem_write: "rg_remover s = M_Dec n \<Longrightarrow>
     remove_step (Step Receiver) s (s\<lparr>rg_remover := M_Out, rg_size := n - 1\<rparr>)"

text \<open>
  The receiving thread in \<open>recv\<close>. The system call \<open>poll\<close> writes the events to the array it was
  given when it wakes up; then \<open>getpolls\<close> hands out the pointer and the loop reads through it, up
  to its end or to the message it returns.
\<close>

inductive poll_step :: "touch \<Rightarrow> polls \<Rightarrow> polls \<Rightarrow> bool" where
  poll_call: "rg_poller s = P_Call \<Longrightarrow> rg_receiver s = A_Out \<Longrightarrow> rg_remover s = M_Out \<Longrightarrow>
     poll_step Poll s (if counts_ok s then s\<lparr>rg_poller := P_Wait (rg_fds s) (rg_size s)\<rparr> else exited s)"
| poll_wakes: "rg_poller s = P_Wait p n \<Longrightarrow>
     poll_step Poll s (if n \<le> 0 \<or> usable s p (n - 1) then s\<lparr>rg_poller := P_Get\<rparr> else wild s)"
| getpolls: "rg_poller s = P_Get \<Longrightarrow>
     poll_step Poll s (if counts_ok s then s\<lparr>rg_poller := P_Loop (rg_fds s) (rg_size s) 0\<rparr> else exited s)"
| look: "rg_poller s = P_Loop p n i \<Longrightarrow> i < n \<Longrightarrow>
     poll_step Poll s (if usable s p i then s\<lparr>rg_poller := P_Loop p n (i + 1)\<rparr> else wild s)"
| recv_ends: "rg_poller s = P_Loop p n i \<Longrightarrow> poll_step Poll s (s\<lparr>rg_poller := P_Call\<rparr>)"

definition polls_step :: "touch \<Rightarrow> polls \<Rightarrow> polls \<Rightarrow> bool" where
  "polls_step e s t \<longleftrightarrow> add_step e s t \<or> remove_step e s t \<or> poll_step e s t"

inductive_simps add_step_simps: "add_step e s t"
inductive_simps remove_step_simps: "remove_step e s t"
inductive_simps poll_step_simps: "poll_step e s t"

lemmas registry_steps = polls_step_def add_step_simps remove_step_simps poll_step_simps

section \<open>While there is room\<close>

text \<open>
  The invariant of a registry of \<open>c\<close> cells in block 0, the first of which hold \<open>xs\<close>, from which nothing
  is removed and to which at most \<open>n\<close> more calls of \<open>add\<close> are made: with those under way they fit the
  cells left. The number \<open>cnt\<close> counts the calls that have ended; the size can fall short of it,
  because a thread writes back a number that it read before the other's.
\<close>

fun adder_ok :: "int \<Rightarrow> int \<Rightarrow> int \<Rightarrow> adder_at \<Rightarrow> bool" where
  "adder_ok l cnt c A_Out = True"
| "adder_ok l cnt c (A_Check fd) = True"
| "adder_ok l cnt c (A_Start fd) = True"
| "adder_ok l cnt c (A_Scan fd i) = (l \<le> i)"
| "adder_ok l cnt c (A_Write fd i) = (l \<le> i \<and> i < c)"
| "adder_ok l cnt c A_Load = True"
| "adder_ok l cnt c (A_Inc n) = (l \<le> n \<and> n \<le> cnt)"
| "adder_ok l cnt c _ = False"

fun poller_ok :: "int \<Rightarrow> poller_at \<Rightarrow> bool" where
  "poller_ok c (P_Wait p n) = (p = 0 \<and> n \<le> c)"
| "poller_ok c (P_Loop p n i) = (p = 0 \<and> n \<le> c \<and> 0 \<le> i)"
| "poller_ok c _ = True"

definition busy :: "adder_at \<Rightarrow> int" where
  "busy a = (if a = A_Out then 0 else 1)"

lemma busy_simps [simp]:
  "busy A_Out = 0" "busy (A_Check fd) = 1" "busy (A_Start fd) = 1" "busy (A_Scan fd i) = 1" "busy (A_Write fd i) = 1"
  "busy A_Load = 1" "busy (A_Inc n) = 1"
  by (simp_all add: busy_def)

lemma busy_nonneg: "0 \<le> busy a"
  by (simp add: busy_def)

lemma adder_ok_more: "adder_ok l cnt c a \<Longrightarrow> cnt \<le> cnt' \<Longrightarrow> adder_ok l cnt' c a"
  by (cases a) auto

definition holds :: "int list \<Rightarrow> int \<Rightarrow> polls \<Rightarrow> bool" where
  "holds xs c s \<longleftrightarrow> (\<exists>ys. rg_memory s 0 = Some (xs @ ys) \<and> int (length (xs @ ys)) = c)"

definition roomy :: "int list \<Rightarrow> int \<Rightarrow> int \<Rightarrow> int \<Rightarrow> polls \<Rightarrow> bool" where
  "roomy xs c n cnt s \<longleftrightarrow> \<not> rg_wild s \<and> \<not> rg_exit s \<and> rg_fds s = 0 \<and> rg_capacity s = c \<and> 0 \<le> n \<and>
     int (length xs) \<le> rg_size s \<and> rg_size s \<le> cnt \<and> cnt + busy (rg_receiver s) + busy (rg_client s) + n \<le> c \<and>
     holds xs c s \<and> adder_ok (int (length xs)) cnt c (rg_receiver s) \<and> adder_ok (int (length xs)) cnt c (rg_client s) \<and>
     rg_remover s = M_Out \<and> poller_ok c (rg_poller s)"

definition adds :: "touch list \<Rightarrow> int" where
  "adds es = int (length (filter (\<lambda>e. \<exists>th fd. e = Add th fd) es))"

definition removes :: "touch list \<Rightarrow> bool" where
  "removes es \<longleftrightarrow> (\<exists>fd. Remove fd \<in> set es)"

lemma adds_simps [simp]:
  "adds [] = 0" "adds (Add th fd # es) = adds es + 1" "adds (Realloc th q # es) = adds es"
  "adds (Step th # es) = adds es" "adds (Remove fd # es) = adds es" "adds (Poll # es) = adds es" "0 \<le> adds es"
  by (simp_all add: adds_def)

lemma removes_simps [simp]: "\<not> removes []" "removes (e # es) \<longleftrightarrow> (\<exists>fd. e = Remove fd) \<or> removes es"
  by (auto simp: removes_def)

lemma usable_roomy: "holds xs c s \<Longrightarrow> usable s 0 i \<longleftrightarrow> 0 \<le> i \<and> i < c"
  by (auto simp: holds_def usable_def)

lemma holds_sel [simp]:
  "holds xs c (s\<lparr>rg_receiver := a\<rparr>) = holds xs c s" "holds xs c (s\<lparr>rg_client := a\<rparr>) = holds xs c s"
  "holds xs c (s\<lparr>rg_size := n\<rparr>) = holds xs c s" "holds xs c (s\<lparr>rg_poller := q\<rparr>) = holds xs c s"
  by (simp_all add: holds_def)

lemma holds_write:
  assumes "holds xs c s" "int (length xs) \<le> i" "rg_fds s = 0"
  shows "holds xs c (update_cells (\<lambda>xs. xs[nat i := fd]) s)"
proof -
  obtain ys where ys: "rg_memory s 0 = Some (xs @ ys)" "int (length (xs @ ys)) = c"
    using assms(1) by (auto simp: holds_def)
  have "\<not> nat i < length xs"
    using assms(2) by linarith
  then have "(xs @ ys)[nat i := fd] = xs @ ys[nat i - length xs := fd]"
    by (simp add: list_update_append)
  then show ?thesis
    using ys assms(3) by (auto simp: holds_def update_cells_def)
qed

lemma update_cells_sel [simp]:
  "rg_wild (update_cells f s) = rg_wild s" "rg_exit (update_cells f s) = rg_exit s" "rg_fds (update_cells f s) = rg_fds s"
  "rg_capacity (update_cells f s) = rg_capacity s" "rg_size (update_cells f s) = rg_size s"
  "rg_receiver (update_cells f s) = rg_receiver s" "rg_client (update_cells f s) = rg_client s"
  "rg_remover (update_cells f s) = rg_remover s" "rg_poller (update_cells f s) = rg_poller s"
  by (simp_all add: update_cells_def)

lemma roomy_add:
  assumes r: "roomy xs c n cnt s" and "add_step e s t" and n: "0 \<le> n'" "n = adds [e] + n'"
  shows "\<exists>cnt'. roomy xs c n' cnt' t"
  using assms(2)
proof cases
  case (count_write th m)
  then show ?thesis
    using r n by (intro exI [of _ "cnt + 1"]; cases th) (auto simp: roomy_def intro: adder_ok_more)
next
  case (write_cell th fd i)
  then show ?thesis
    using r n usable_roomy [of xs c s i] holds_write [of xs c s i fd]
    by (intro exI [of _ cnt]; cases th) (auto simp: roomy_def)
next
  case (scan_wild th fd i)
  then show ?thesis
    using r n usable_roomy [of xs c s i] by (intro exI [of _ cnt]; cases th) (auto simp: roomy_def)
next
  case (add_check th fd)
  then show ?thesis
    using r n busy_nonneg [of "rg_receiver s"] busy_nonneg [of "rg_client s"]
    by (intro exI [of _ cnt]; cases th) (auto simp: roomy_def)
next
  case (add_call th fd)
  then show ?thesis
    using r n busy_nonneg [of "rg_receiver s"] busy_nonneg [of "rg_client s"]
    by (intro exI [of _ cnt]; cases th) (auto simp: roomy_def counts_ok_def)
next
  case (scan_look th fd i)
  then show ?thesis
    using r n by (intro exI [of _ cnt]; cases th) (auto simp: roomy_def)
next
  case (scan_start th fd)
  then show ?thesis
    using r n by (intro exI [of _ cnt]; cases th) (auto simp: roomy_def)
next
  case (count_read th)
  then show ?thesis
    using r n by (intro exI [of _ cnt]; cases th) (auto simp: roomy_def)
next
  case (scan_end th fd i)
  then show ?thesis
    using r n by (intro exI [of _ cnt]; cases th) (auto simp: roomy_def)
next
  case (grow_call th fd)
  then show ?thesis
    using r by (cases th) (auto simp: roomy_def)
next
  case (grow_realloc th fd m ys q)
  then show ?thesis
    using r by (cases th) (auto simp: roomy_def)
next
  case (grow_freed th fd m)
  then show ?thesis
    using r by (cases th) (auto simp: roomy_def)
next
  case (grow_store th fd q m)
  then show ?thesis
    using r by (cases th) (auto simp: roomy_def)
next
  case (grow_clear th fd m)
  then show ?thesis
    using r by (cases th) (auto simp: roomy_def)
next
  case (grow_capacity th fd m)
  then show ?thesis
    using r by (cases th) (auto simp: roomy_def)
qed

lemma roomy_poll:
  assumes r: "roomy xs c n cnt s" and "poll_step e s t"
  shows "e = Poll \<and> roomy xs c n cnt t"
  using assms(2)
proof cases
  case poll_call
  then show ?thesis
    using r busy_nonneg [of "rg_client s"] by (auto simp: roomy_def counts_ok_def)
next
  case (poll_wakes p m)
  then show ?thesis
    using r usable_roomy [of xs c s "m - 1"] by (auto simp: roomy_def)
next
  case getpolls
  then show ?thesis
    using r busy_nonneg [of "rg_client s"] busy_nonneg [of "rg_receiver s"] by (auto simp: roomy_def counts_ok_def)
next
  case (look p m i)
  then show ?thesis
    using r usable_roomy [of xs c s i] by (auto simp: roomy_def)
qed (use r in \<open>auto simp: roomy_def\<close>)

lemma roomy_remove: "roomy xs c n cnt s \<Longrightarrow> remove_step e s t \<Longrightarrow> removes [e]"
  by (auto simp: roomy_def remove_step_simps)

lemma roomy_path:
  assumes "path polls_step s es t" "roomy xs c (adds es) cnt s" "\<not> removes es"
  shows "\<exists>cnt. roomy xs c 0 cnt t"
  using assms
proof (induction arbitrary: cnt rule: path.induct)
  case (path_go e s t es u)
  have "\<exists>cnt'. roomy xs c (adds es) cnt' t"
    using path_go.hyps(1) unfolding polls_step_def
  proof (elim disjE)
    assume "add_step e s t"
    moreover have "adds (e # es) = adds [e] + adds es"
      by (cases e) simp_all
    ultimately show ?thesis
      using roomy_add [OF path_go.prems(1)] by simp
  next
    assume "remove_step e s t"
    from roomy_remove [OF path_go.prems(1) this] show ?thesis
      using path_go.prems(2) by auto
  next
    assume "poll_step e s t"
    from roomy_poll [OF path_go.prems(1) this] show ?thesis
      by auto
  qed
  then obtain cnt' where "roomy xs c (adds es) cnt' t"
    by blast
  then show ?case
    by (rule path_go.IH) (use path_go.prems(2) in simp)
qed auto

section \<open>Runs\<close>

text \<open>The steps as functions, to follow one interleaving; in the loop, as long as it can go on.\<close>

definition add_next :: "thread \<Rightarrow> polls \<Rightarrow> polls option" where
  "add_next th s =
     (case adder th s of
        A_Check fd \<Rightarrow> Some (set_adder th (if rg_capacity s \<le> rg_size s then A_Grow fd else A_Start fd) s)
      | A_Grow fd \<Rightarrow> Some (if counts_ok s then set_adder th (A_Realloc fd (rg_capacity s + 5)) s else exited s)
      | A_Store fd q n \<Rightarrow> Some (set_adder th (A_Clear fd n) (s\<lparr>rg_fds := q\<rparr>))
      | A_Clear fd n \<Rightarrow>
          Some (if usable s (rg_fds s) (rg_capacity s + 4)
            then set_adder th (A_Capacity fd n) (update_cells (zero_cells (rg_capacity s)) s) else wild s)
      | A_Capacity fd n \<Rightarrow> Some (set_adder th (A_Start fd) (s\<lparr>rg_capacity := n\<rparr>))
      | A_Start fd \<Rightarrow> Some (set_adder th (A_Scan fd (rg_size s)) s)
      | A_Scan fd i \<Rightarrow>
          Some (if rg_capacity s \<le> i then set_adder th A_Out s
            else if usable s (rg_fds s) i
            then set_adder th (if cell s (rg_fds s) i = 0 then A_Write fd i else A_Scan fd (i + 1)) s else wild s)
      | A_Write fd i \<Rightarrow>
          Some (if usable s (rg_fds s) i then set_adder th A_Load (update_cells (\<lambda>xs. xs[nat i := fd]) s) else wild s)
      | A_Load \<Rightarrow> Some (set_adder th (A_Inc (rg_size s)) s)
      | A_Inc n \<Rightarrow> Some (set_adder th A_Out (s\<lparr>rg_size := n + 1\<rparr>))
      | _ \<Rightarrow> None)"

definition remove_next :: "polls \<Rightarrow> polls option" where
  "remove_next s =
     (case rg_remover s of
        M_Scan fd i \<Rightarrow>
          Some (if rg_capacity s \<le> i then s\<lparr>rg_remover := M_Out\<rparr>
            else if usable s (rg_fds s) i
            then s\<lparr>rg_remover := if cell s (rg_fds s) i = fd then M_Found i else M_Scan fd (i + 1)\<rparr> else wild s)
      | M_Found i \<Rightarrow>
          Some (if \<not> (counts_ok s \<and> i \<le> rg_capacity s) then exited s
            else if \<not> usable s (rg_fds s) i then wild s
            else s\<lparr>rg_remover := if i + 1 < rg_size s then M_Move i else M_Zero i\<rparr>)
      | M_Move i \<Rightarrow>
          Some (if rg_size s = i then s\<lparr>rg_remover := M_Load\<rparr>
            else if i < rg_size s \<and> usable s (rg_fds s) (rg_size s)
            then (update_cells (move_cells i (rg_size s - i)) s)\<lparr>rg_remover := M_Load\<rparr> else wild s)
      | M_Zero i \<Rightarrow>
          Some (if usable s (rg_fds s) i then (update_cells (\<lambda>xs. xs[nat i := 0]) s)\<lparr>rg_remover := M_Load\<rparr> else wild s)
      | M_Load \<Rightarrow> Some (s\<lparr>rg_remover := M_Dec (rg_size s)\<rparr>)
      | M_Dec n \<Rightarrow> Some (s\<lparr>rg_remover := M_Out, rg_size := n - 1\<rparr>)
      | M_Out \<Rightarrow> None)"

definition poll_next :: "polls \<Rightarrow> polls option" where
  "poll_next s =
     (case rg_poller s of
        P_Call \<Rightarrow>
          if rg_receiver s = A_Out \<and> rg_remover s = M_Out
          then Some (if counts_ok s then s\<lparr>rg_poller := P_Wait (rg_fds s) (rg_size s)\<rparr> else exited s) else None
      | P_Wait p n \<Rightarrow> Some (if n \<le> 0 \<or> usable s p (n - 1) then s\<lparr>rg_poller := P_Get\<rparr> else wild s)
      | P_Get \<Rightarrow> Some (if counts_ok s then s\<lparr>rg_poller := P_Loop (rg_fds s) (rg_size s) 0\<rparr> else exited s)
      | P_Loop p n i \<Rightarrow>
          Some (if n \<le> i then s\<lparr>rg_poller := P_Call\<rparr>
            else if usable s p i then s\<lparr>rg_poller := P_Loop p n (i + 1)\<rparr> else wild s))"

fun touch_next :: "touch \<Rightarrow> polls \<Rightarrow> polls option" where
  "touch_next (Add th fd) s =
     (if adder th s = A_Out \<and> 0 < fd \<and> (th = Receiver \<longrightarrow> rg_poller s = P_Call \<and> rg_remover s = M_Out)
      then Some (if counts_ok s then set_adder th (A_Check fd) s else exited s) else None)"
| "touch_next (Realloc th q) s =
     (case (adder th s, rg_memory s (rg_fds s)) of
        (A_Realloc fd n, Some xs) \<Rightarrow>
          if q = rg_fds s \<or> rg_memory s q = None
          then Some (set_adder th (A_Store fd q n) (s\<lparr>rg_memory := (rg_memory s)(rg_fds s := None, q \<mapsto> resize n xs)\<rparr>))
          else None
      | _ \<Rightarrow> None)"
| "touch_next (Step th) s = (if th = Receiver \<and> rg_remover s \<noteq> M_Out then remove_next s else add_next th s)"
| "touch_next (Remove fd) s =
     (case rg_poller s of
        P_Loop p n i \<Rightarrow>
          if i < n \<and> usable s p i \<and> cell s p i = fd \<and> 0 < fd
          then Some (if counts_ok s then s\<lparr>rg_poller := P_Call, rg_remover := M_Scan fd 0\<rparr> else exited s) else None
      | _ \<Rightarrow> None)"
| "touch_next Poll s = poll_next s"

lemma add_next_step: "add_next th s = Some t \<Longrightarrow> add_step (Step th) s t"
  unfolding add_next_def by (cases "adder th s") (auto simp: add_step_simps not_le split: if_splits)

lemma remove_next_step: "remove_next s = Some t \<Longrightarrow> remove_step (Step Receiver) s t"
  unfolding remove_next_def by (cases "rg_remover s") (auto simp: remove_step_simps not_le split: if_splits)

lemma poll_next_step: "poll_next s = Some t \<Longrightarrow> poll_step Poll s t"
  unfolding poll_next_def
  by (cases "rg_poller s") (auto simp: poll_step_simps split: if_splits)

lemma touch_next_step:
  assumes "touch_next e s = Some t"
  shows "polls_step e s t"
proof (cases e)
  case (Add th fd)
  then have "add_step e s t"
    using assms add_call [of th s fd] by (simp split: if_split_asm)
  then show ?thesis
    by (simp add: polls_step_def)
next
  case (Realloc th q)
  then have "add_step e s t"
    using assms grow_realloc [of th s _ _ _ q]
    by (auto split: adder_at.split_asm option.split_asm if_split_asm)
  then show ?thesis
    by (simp add: polls_step_def)
next
  case (Step th)
  then show ?thesis
    using assms add_next_step remove_next_step by (auto simp: polls_step_def split: if_split_asm)
next
  case (Remove fd)
  then have "remove_step e s t"
    using assms rem_call [of s _ _ _ fd] by (auto split: poller_at.split_asm if_split_asm)
  then show ?thesis
    by (simp add: polls_step_def)
next
  case Poll
  then show ?thesis
    using assms poll_next_step by (simp add: polls_step_def)
qed

primrec walk :: "touch list \<Rightarrow> polls \<Rightarrow> polls option" where
  "walk [] s = Some s"
| "walk (e # es) s = Option.bind (touch_next e s) (walk es)"

lemma walk_path: "walk es s = Some t \<Longrightarrow> path polls_step s es t"
  by (induction es arbitrary: s) (auto simp: bind_eq_Some_conv intro: touch_next_step)

lemmas walk_simps = add_next_def remove_next_def poll_next_def counts_ok_def usable_def cell_def update_cells_def
  polls_start_def wild_def numeral_nat

section \<open>Properties\<close>

text \<open>
  C9: as long as there is room and nothing is removed, the two threads do no harm. From a registry
  with \<open>k\<close> free cells, every interleaving of polling, accepting and connecting with at most \<open>k\<close>
  additions touches nothing outside the array and fails no assertion; the array stays in its
  place, with the descriptors that were in it.
\<close>

theorem polls_with_room:
  assumes "path polls_step (polls_start xs k) es t" "adds es \<le> int k" "\<not> removes es"
  shows "\<not> rg_wild t \<and> \<not> rg_exit t \<and> rg_fds t = 0 \<and> rg_capacity t = int (length xs + k) \<and>
    (\<exists>ys. rg_memory t 0 = Some (xs @ ys) \<and> length ys = k)"
proof -
  have "roomy xs (int (length xs + k)) (adds es) (int (length xs)) (polls_start xs k)"
    using assms(2) by (auto simp: roomy_def polls_start_def holds_def)
  from roomy_path [OF assms(1) this assms(3)] show ?thesis
    by (auto simp: roomy_def holds_def)
qed

theorem polls_with_room_witness:
  "\<exists>t. path polls_step (polls_start [5] 2) [Add Client 7, Poll, Step Client, Poll] t \<and> \<not> rg_wild t \<and>
    (\<exists>ys. rg_memory t 0 = Some ([5] @ ys) \<and> length ys = 2)"
proof -
  let ?t = "(polls_start [5] 2)\<lparr>rg_client := A_Start 7, rg_poller := P_Get\<rparr>"
  have "path polls_step (polls_start [5] 2) [Add Client 7, Poll, Step Client, Poll] ?t"
    by (rule walk_path) (simp add: walk_simps)
  from polls_with_room [OF this] this show ?thesis
    by (intro exI [of _ ?t]) simp
qed

text \<open>
  C10: without room, or without luck, they do. When the registry is full, a client that connects to a
  peer while the receiving thread waits in \<open>poll\<close> moves the array, and the system writes the events
  to the old one. When two cells are free, a connection accepted and one made at the same time
  take the same cell: the registry counts both and polls only one of them.
\<close>

theorem polls_race:
  assumes "xs \<noteq> []" "0 < fd" "0 < gd" "fd \<noteq> gd" "fd \<notin> set xs"
  shows "(\<exists>es t. path polls_step (polls_start xs 0) es t \<and> adds es = 1 \<and> rg_wild t) \<and>
    (\<exists>es t. path polls_step (polls_start xs (Suc (Suc k))) es t \<and> adds es = 2 \<and>
      rg_receiver t = A_Out \<and> rg_client t = A_Out \<and> rg_size t = int (length xs) + 2 \<and>
      (\<exists>ys. rg_memory t (rg_fds t) = Some ys \<and> gd \<in> set ys \<and> fd \<notin> set ys))"
proof
  let ?es = "[Poll, Add Client fd, Step Client, Step Client, Realloc Client 1, Poll]"
  have "\<exists>t. walk ?es (polls_start xs 0) = Some t \<and> rg_wild t"
    using assms by (simp add: walk_simps)
  then show "\<exists>es t. path polls_step (polls_start xs 0) es t \<and> adds es = 1 \<and> rg_wild t"
    by (elim exE conjE) (intro exI conjI, rule walk_path, assumption, simp_all)
  let ?gs = "[Add Receiver fd, Add Client gd, Step Receiver, Step Client, Step Receiver, Step Client,
      Step Receiver, Step Client, Step Receiver, Step Client, Step Receiver, Step Receiver, Step Client, Step Client]"
  let ?t = "(polls_start xs (Suc (Suc k)))\<lparr>rg_memory := [0 \<mapsto> xs @ gd # replicate (Suc k) 0], rg_size := int (length xs) + 2\<rparr>"
  have "path polls_step (polls_start xs (Suc (Suc k))) ?gs ?t"
    using assms by (intro walk_path) (simp add: walk_simps nth_append)
  moreover have "fd \<noteq> 0"
    using assms(2) by simp
  ultimately show "\<exists>es t. path polls_step (polls_start xs (Suc (Suc k))) es t \<and> adds es = 2 \<and>
      rg_receiver t = A_Out \<and> rg_client t = A_Out \<and> rg_size t = int (length xs) + 2 \<and>
      (\<exists>ys. rg_memory t (rg_fds t) = Some ys \<and> gd \<in> set ys \<and> fd \<notin> set ys)"
    using assms(4,5) by (intro exI [of _ ?gs] exI [of _ ?t]) (simp add: polls_start_def)
qed

theorem polls_race_witness:
  "(\<exists>es t. path polls_step (polls_start [5] 0) es t \<and> adds es = 1 \<and> rg_wild t) \<and>
   (\<exists>es t. path polls_step (polls_start [5] (Suc (Suc 0))) es t \<and> adds es = 2 \<and>
      rg_receiver t = A_Out \<and> rg_client t = A_Out \<and> rg_size t = int (length [5 :: int]) + 2 \<and>
      (\<exists>ys. rg_memory t (rg_fds t) = Some ys \<and> 9 \<in> set ys \<and> 7 \<notin> set ys))"
  by (rule polls_race) simp_all

text \<open>
  C11: a removal is not safe beside an addition, not even with room. When the receiving thread
  removes a descriptor while the client adds one, the new one can come to lie behind the cells
  that are polled, with a hole before it: it is in the array and is never polled. And from the
  registry of a new bus, with nine free cells, the length of the move can become negative, because
  the client writes back a size that it read before the receiving thread added others.
\<close>

theorem polls_removal_race:
  assumes "0 < a" "0 < b" "0 < gd" "distinct [a, b, gd]"
  shows "(\<exists>es t. path polls_step (polls_start [a, b] (Suc k)) es t \<and> adds es = 1 \<and>
      rg_client t = A_Out \<and> rg_remover t = M_Out \<and> rg_size t = 2 \<and>
      rg_memory t (rg_fds t) = Some ([a, 0, gd] @ replicate k 0)) \<and>
    (\<exists>es t. path polls_step (polls_start [a] 9) es t \<and> adds es = 5 \<and> rg_wild t)"
proof
  let ?es = "[Poll, Poll, Poll, Poll, Remove b, Step Receiver, Step Receiver, Step Receiver, Step Receiver,
    Add Client gd, Step Client, Step Client, Step Client, Step Client, Step Client, Step Client, Step Receiver, Step Receiver]"
  let ?t = "(polls_start [a, b] (Suc k))\<lparr>rg_memory := [0 \<mapsto> [a, 0, gd] @ replicate k 0], rg_size := 2\<rparr>"
  have "path polls_step (polls_start [a, b] (Suc k)) ?es ?t"
    using assms by (intro walk_path) (simp add: walk_simps)
  then show "\<exists>es t. path polls_step (polls_start [a, b] (Suc k)) es t \<and> adds es = 1 \<and>
      rg_client t = A_Out \<and> rg_remover t = M_Out \<and> rg_size t = 2 \<and>
      rg_memory t (rg_fds t) = Some ([a, 0, gd] @ replicate k 0)"
    by (intro exI [of _ ?es] exI [of _ ?t]) (simp add: polls_start_def)
  let ?add = "\<lambda>fd. [Add Receiver fd, Step Receiver, Step Receiver, Step Receiver, Step Receiver, Step Receiver, Step Receiver, Step Receiver]"
  let ?gs = "[Add Client (a + 1), Step Client, Step Client, Step Client, Step Client, Step Client] @
    ?add (a + 2) @ ?add (a + 3) @ ?add (a + 4) @ ?add (a + 5) @ [Poll, Poll, Poll, Poll, Poll, Poll, Remove (a + 3)] @
    replicate 5 (Step Receiver) @ [Step Client, Step Receiver]"
  have "\<exists>t. walk ?gs (polls_start [a] 9) = Some t \<and> rg_wild t"
    using assms(1) by (simp add: walk_simps)
  then show "\<exists>es t. path polls_step (polls_start [a] 9) es t \<and> adds es = 5 \<and> rg_wild t"
    by (elim exE conjE) (intro exI conjI, rule walk_path, assumption, simp_all add: numeral_nat)
qed

theorem polls_removal_race_witness:
  "(\<exists>es t. path polls_step (polls_start [5, 7] (Suc 7)) es t \<and> adds es = 1 \<and>
      rg_client t = A_Out \<and> rg_remover t = M_Out \<and> rg_size t = 2 \<and>
      rg_memory t (rg_fds t) = Some ([5, 0, 9] @ replicate 7 0)) \<and>
   (\<exists>es t. path polls_step (polls_start [5] 9) es t \<and> adds es = 5 \<and> rg_wild t)"
  by (rule polls_removal_race) simp_all

end
