(* ===== verification/C_Api.thy ===== *)
theory C_Api
  imports Bus_Threads
begin

text \<open>
  sbus.c: the interface for C. A value of type \<open>SBusType\<close> is a pointer to a structure that points
  to the bus. Buffers are the bytes from the pointer to the end of the object it points into, so
  that an access past their end is a fault; a C string among them ends at its first NUL.
\<close>

section \<open>Handles and buffers\<close>

record 'w SBusTypedef =
  st_sbus :: "'w sbus"

datatype 'w SBusType = Null | Handle "'w SBusTypedef" | Disposed

definition on_handle :: "('w sbus, 'a) prog \<Rightarrow> ('w SBusType, 'a) prog" where
  "on_handle m = (\<lambda>h. case h of
     Null \<Rightarrow> Inl Null_Pointer
   | Disposed \<Rightarrow> Inl Use_After_Free
   | Handle s \<Rightarrow> zoom (\<lambda>_. st_sbus s) (\<lambda>b _. Handle (s\<lparr>st_sbus := b\<rparr>)) m h)"

text \<open>The constructors \<open>string(const char*)\<close> and \<open>string(const char*, size_t)\<close>.\<close>

definition c_string :: "string \<Rightarrow> fault + string" where
  "c_string buf = (if CHR 0x00 \<in> set buf then Inr (takeWhile (\<lambda>c. c \<noteq> CHR 0x00) buf) else Inl Out_Of_Bounds)"

definition sized_string :: "string \<Rightarrow> int \<Rightarrow> fault + string" where
  "sized_string buf bytes =
     (if bytes < 0 then Inl (Uncaught ''basic_string::_M_create'')
      else if int (length buf) < bytes then Inl Out_Of_Bounds
      else Inr (take (nat bytes) buf))"

text \<open>\<open>memcpy\<close> of all of \<open>src\<close> to the start of \<open>dst\<close>.\<close>

definition copy_to :: "string \<Rightarrow> string \<Rightarrow> fault + string" where
  "copy_to dst src = (if length dst < length src then Inl Out_Of_Bounds else Inr (src @ drop (length src) dst))"

section \<open>Operations\<close>

text \<open>
  The constructor throws pointers to strings, and \<open>sbus_create\<close> catches strings, so what the
  constructor throws leaves \<open>sbus_create\<close> too; \<open>new\<close> throws rather than giving \<open>NULL\<close>.
\<close>

definition sbus_create ::
    "'w posix \<Rightarrow> bool \<Rightarrow> bool \<Rightarrow> string option \<Rightarrow> string \<Rightarrow> int \<Rightarrow> 'w \<Rightarrow> fault + 'w SBusType" where
  "sbus_create P alloc thread device mcip mcport w =
     map_sum id (\<lambda>b. Handle \<lparr>st_sbus = b\<rparr>) (SBus_new_at P alloc thread device mcip mcport w)"

text \<open>The macros of sbus.h that fill in arguments of \<open>sbus_create\<close>.\<close>

definition sbus_default :: "'w posix \<Rightarrow> bool \<Rightarrow> bool \<Rightarrow> 'w \<Rightarrow> fault + 'w SBusType" where
  "sbus_default P alloc thread = sbus_create P alloc thread None DEFAULT_MCIP DEFAULT_MCPORT"

definition sbus_atPort :: "'w posix \<Rightarrow> bool \<Rightarrow> bool \<Rightarrow> int \<Rightarrow> 'w \<Rightarrow> fault + 'w SBusType" where
  "sbus_atPort P alloc thread port = sbus_create P alloc thread None DEFAULT_MCIP port"

definition sbus_atDevice :: "'w posix \<Rightarrow> bool \<Rightarrow> bool \<Rightarrow> string option \<Rightarrow> 'w \<Rightarrow> fault + 'w SBusType" where
  "sbus_atDevice P alloc thread device = sbus_create P alloc thread device DEFAULT_MCIP DEFAULT_MCPORT"

definition sbus_atIP :: "'w posix \<Rightarrow> bool \<Rightarrow> bool \<Rightarrow> string option \<Rightarrow> int \<Rightarrow> 'w \<Rightarrow> fault + 'w SBusType" where
  "sbus_atIP P alloc thread device port = sbus_create P alloc thread device DEFAULT_MCIP port"

definition sbus_setName :: "'w posix \<Rightarrow> string \<Rightarrow> ('w SBusType, int) prog" where
  "sbus_setName P name =
     bindp (liftp (c_string name)) (\<lambda>name'. on_handle (SBus_setName P name'))"

definition sbus_getName :: "('w SBusType, string) prog" where
  "sbus_getName = on_handle (getp (\<lambda>b. SBus_getName b @ [CHR 0x00]))"

definition sbus_mcsend :: "'w posix \<Rightarrow> int \<Rightarrow> string \<Rightarrow> int \<Rightarrow> ('w SBusType, int) prog" where
  "sbus_mcsend P msgtag data bytes =
     bindp (liftp (sized_string data bytes)) (\<lambda>data'. on_handle (SBus_send P msgtag data'))"

definition sbus_send :: "'w posix \<Rightarrow> cxx \<Rightarrow> int \<Rightarrow> int \<Rightarrow> string \<Rightarrow> int \<Rightarrow> ('w SBusType, int) prog" where
  "sbus_send P x msgtag peerid data bytes =
     bindp (liftp (sized_string data bytes)) (\<lambda>data'. on_handle (SBus_sendTo P x msgtag peerid data'))"

text \<open>The result, and what it stores through \<open>pmsgtag\<close>, \<open>pch2peer\<close> and \<open>data\<close>.\<close>

definition sbus_recv ::
    "nat \<Rightarrow> 'w posix \<Rightarrow> cxx \<Rightarrow> string \<Rightarrow> int \<Rightarrow> ('w SBusType, int \<times> int \<times> int \<times> string) prog" where
  "sbus_recv n P x data bytes =
     bindp (liftp (sized_string data bytes)) (\<lambda>_.
     bindp (on_handle (SBus_recv n P x)) (\<lambda>(res, msgtag, peer, msg).
     bindp (if 0 < res then liftp (copy_to data msg) else ret data) (\<lambda>data'.
       ret (res, msgtag, peer, data'))))"

definition sbus_setDefaultSafeName :: "('w SBusType, unit) prog" where
  "sbus_setDefaultSafeName = on_handle SBus_setDefaultSafeName"

definition sbus_bin2str :: "string \<Rightarrow> string \<Rightarrow> int \<Rightarrow> fault + string" where
  "sbus_bin2str str bin n =
     (if n < 0 \<or> int (length bin) < n \<or> int (length str) < n then Inl Out_Of_Bounds
      else arr_set (take (nat n) bin @ drop (nat n) str) n (CHR 0x00))"

definition sbus_dispose :: "'w posix \<Rightarrow> ('w SBusType, int) prog" where
  "sbus_dispose P =
     bindp (on_handle (SBus_delete P)) (\<lambda>_. bindp (modp (\<lambda>_. Disposed)) (\<lambda>_. ret 0))"

lemma runs_on_handle:
  "runs (on_handle m) (Handle s) Q \<longleftrightarrow> runs m (st_sbus s) (\<lambda>a b. Q a (Handle (s\<lparr>st_sbus := b\<rparr>)))"
  "safe (on_handle m) (Handle s) Q \<longleftrightarrow> safe m (st_sbus s) (\<lambda>a b. Q a (Handle (s\<lparr>st_sbus := b\<rparr>)))"
  by (simp_all add: on_handle_def runs_def safe_def zoom_def split: sum.splits)

lemma on_handle_bad: "on_handle m Null = Inl Null_Pointer" "on_handle m Disposed = Inl Use_After_Free"
  by (simp_all add: on_handle_def)

lemma liftp_bindp: "bindp (liftp r) f s = (case r of Inl e \<Rightarrow> Inl e | Inr a \<Rightarrow> f a s)"
  by (simp add: bindp_def liftp_def split: sum.splits)

section \<open>Lemmas\<close>

lemma c_string_terminated: "CHR 0x00 \<notin> set t \<Longrightarrow> c_string (t @ CHR 0x00 # rest) = Inr t"
  by (auto simp: c_string_def takeWhile_tail takeWhile_append2)

lemma c_string_clean: "c_string buf = Inr t \<Longrightarrow> CHR 0x00 \<notin> set t"
  by (auto simp: c_string_def dest: set_takeWhileD split: if_splits)

lemma recv_size: "SBus_recv n P x b = Inr ((len, tag, peer, msg), b') \<Longrightarrow> len = int (length msg)"
  using recv_is_path [of n P x b len tag peer msg b' "threads_start\<lparr>th_inq := sb_inq b, th_client := C_Lock\<rparr>"]
  by (simp add: threads_start_def) blast

lemma send_results: "safe (SBus_send P msgtag msg) b (\<lambda>r _. r = 0 \<or> r = -1)"
  by (auto simp: SBus_send_def on_messenger_def SMessenger_send_def Let_def safe_simps split: prod.splits intro: safeI)

lemma sendTo_results: "safe (SBus_sendTo P x msgtag peer msg) b (\<lambda>r _. r = 0 \<or> r = -1)"
proof -
  have "safe (SMessenger_sendTo P msgtag fd msg) m (\<lambda>r _. r = 0 \<or> r = -1)" for fd m
    by (auto simp: SMessenger_sendTo_def Let_def bindp_def ret_def safe_def split: sum.splits)
  then have "safe (if fd < 0 then ret (-1) else on_messenger (SMessenger_sendTo P msgtag fd msg)) b (\<lambda>r _. r = 0 \<or> r = -1)" for fd b
    by (simp add: on_messenger_def safe_zoom safe_basic)
  from safeI [of "SBus_peer2Socket P x peer" b, OF this] show ?thesis
    unfolding SBus_sendTo_def safe_bindp .
qed

lemma setName_runs: "runs (SBus_setName P name) b (\<lambda>_ b'. sb_name b' = name)"
  by (auto simp: SBus_setName_def SBus_send_def on_messenger_def SMessenger_send_def sudp_mcsend_def Let_def
      runs_simps split: prod.splits)

lemma recv_copies:
  assumes "SBus_recv n P x b = Inr ((len, tag, peer, msg), b')" "0 \<le> bytes" "bytes \<le> int (length data)"
  shows "sbus_recv n P x data bytes (Handle \<lparr>st_sbus = b\<rparr>) =
    (if length data < length msg then Inl Out_Of_Bounds
     else Inr ((int (length msg), tag, peer, msg @ drop (length msg) data), Handle \<lparr>st_sbus = b'\<rparr>))"
proof -
  have "on_handle (SBus_recv n P x) (Handle \<lparr>st_sbus = b\<rparr>) = Inr ((len, tag, peer, msg), Handle \<lparr>st_sbus = b'\<rparr>)"
    using assms(1) by (simp add: on_handle_def zoom_def)
  moreover have "(if 0 < len then liftp (copy_to data msg) else ret data) s =
      (if length data < length msg then Inl Out_Of_Bounds else Inr (msg @ drop (length msg) data, s))" for s :: "'a SBusType"
    using recv_size [OF assms(1)] by (auto simp: copy_to_def ret_def)
  ultimately show ?thesis
    using assms(2,3) recv_size [OF assms(1)] by (simp add: sbus_recv_def liftp_bindp sized_string_def bindp_def ret_def)
qed

section \<open>Properties\<close>

text \<open>
  C20: receiving through the C interface. The message is copied whole to the caller's buffer,
  whatever size the caller gave for it: a message longer than the buffer is written past its end.
  A shorter one replaces the start of the buffer, and its length is the result.
\<close>

theorem sbus_recv_result:
  assumes "SBus_recv n P x b = Inr ((len, tag, peer, msg), b')" "0 \<le> bytes" "bytes \<le> int (length data)"
  shows "sbus_recv n P x data bytes (Handle \<lparr>st_sbus = b\<rparr>) =
    (if length data < length msg then Inl Out_Of_Bounds
     else Inr ((int (length msg), tag, peer, msg @ drop (length msg) data), Handle \<lparr>st_sbus = b'\<rparr>))"
  by (rule recv_copies [OF assms])

theorem sbus_recv_result_witness:
  "sbus_recv 1 null_posix (sample_cxx True 5) ''x'' 1
     (Handle \<lparr>st_sbus = (sample_bus ())\<lparr>sb_inq := [sample_msg 9 7 ''hi'']\<rparr>\<rparr>) = Inl Out_Of_Bounds"
proof -
  obtain b' where r: "SBus_recv 1 null_posix (sample_cxx True 5)
     ((sample_bus ())\<lparr>sb_inq := [sample_msg 9 7 ''hi'']\<rparr>) = Inr ((2, 9, 1, ''hi''), b')"
    using sample_recv by blast
  show ?thesis
    by (subst sbus_recv_result [OF r]) simp_all
qed

text \<open>
  Sending through the C interface gives 0 or -1, never a number of bytes. The first \<open>bytes\<close>
  bytes are sent; a negative number of them ends the process with an exception.
\<close>

theorem sbus_send_results:
  "safe (sbus_mcsend P msgtag data bytes) h (\<lambda>r _. r = 0 \<or> r = -1) \<and>
   safe (sbus_send P x msgtag peer data bytes) h (\<lambda>r _. r = 0 \<or> r = -1) \<and>
   (bytes < 0 \<longrightarrow> fails (sbus_mcsend P msgtag data bytes) h (Uncaught ''basic_string::_M_create'') \<and>
      fails (sbus_send P x msgtag peer data bytes) h (Uncaught ''basic_string::_M_create'')) \<and>
   (0 \<le> bytes \<and> bytes \<le> int (length data) \<longrightarrow>
      sbus_mcsend P msgtag data bytes h = on_handle (SBus_send P msgtag (take (nat bytes) data)) h \<and>
      sbus_send P x msgtag peer data bytes h = on_handle (SBus_sendTo P x msgtag peer (take (nat bytes) data)) h)"
proof -
  have handle: "safe (on_handle m) h Q" if "\<And>b. safe m b (\<lambda>a _. \<forall>s. Q a s)" for m :: "('w sbus, int) prog" and Q h
  proof (cases h)
    case (Handle s)
    show ?thesis
      unfolding Handle runs_on_handle by (rule safe_mono [OF that]) simp
  qed (simp_all add: safe_def on_handle_bad)
  have "safe (on_handle (SBus_send P msgtag t)) h (\<lambda>r _. r = 0 \<or> r = -1)"
    "safe (on_handle (SBus_sendTo P x msgtag peer t)) h (\<lambda>r _. r = 0 \<or> r = -1)" for t h
    using send_results sendTo_results by (auto intro!: handle)
  then show ?thesis
    by (auto simp: sbus_mcsend_def sbus_send_def safe_simps fails_def liftp_bindp sized_string_def split: sum.splits)
qed

theorem sbus_send_results_witness:
  "sbus_mcsend null_posix 7 ''hip'' 2 (Handle \<lparr>st_sbus = sample_bus ()\<rparr>) =
      on_handle (SBus_send null_posix 7 ''hi'') (Handle \<lparr>st_sbus = sample_bus ()\<rparr>) \<and>
    fails (sbus_mcsend null_posix 7 ''hip'' (-1)) (Handle \<lparr>st_sbus = sample_bus ()\<rparr>) (Uncaught ''basic_string::_M_create'')"
proof
  show "sbus_mcsend null_posix 7 ''hip'' 2 (Handle \<lparr>st_sbus = sample_bus ()\<rparr>) =
      on_handle (SBus_send null_posix 7 ''hi'') (Handle \<lparr>st_sbus = sample_bus ()\<rparr>)"
    using sbus_send_results [of null_posix 7 "''hip''" 2 "Handle \<lparr>st_sbus = sample_bus ()\<rparr>" "sample_cxx True 5" 1]
    by (simp add: numeral_2_eq_2)
  show "fails (sbus_mcsend null_posix 7 ''hip'' (-1)) (Handle \<lparr>st_sbus = sample_bus ()\<rparr>) (Uncaught ''basic_string::_M_create'')"
    using sbus_send_results [of null_posix 7 "''hip''" "-1" "Handle \<lparr>st_sbus = sample_bus ()\<rparr>" "sample_cxx True 5" 1]
    by simp
qed

text \<open>
  A bus that cannot be made is no \<open>NULL\<close> handle: where no socket can be created, the exception
  of the constructor leaves \<open>sbus_create\<close>, and with it the C program.
\<close>

theorem sbus_create_uncaught:
  assumes "\<And>w. fst (px_socket P SOCK_STREAM w) < 0"
  shows "sbus_create P True thread device mcip mcport w = Inl (Uncaught ''Could not init TCP server'')"
proof -
  obtain fd w' where "px_socket P SOCK_STREAM w = (fd, w')" "fd < 0"
    using assms [of w] by (cases "px_socket P SOCK_STREAM w") simp
  then show ?thesis
    by (simp add: sbus_create_def SBus_new_at_def SBus_init_def SMessenger_new_def SPoll_new_def SMessenger_initServer_def
        stcp_server_def ret_on_error_def on_world_def zoom_def bindp_def prog_simps)
qed

theorem sbus_create_uncaught_witness:
  "sbus_create (null_posix\<lparr>px_socket := \<lambda>_ w. (-1, w)\<rparr>) True True None ''224.0.23.130'' 10001 () =
     Inl (Uncaught ''Could not init TCP server'')"
  by (rule sbus_create_uncaught) simp

text \<open>
  The name of a bus reads back. After \<open>sbus_setName\<close> with a C string, whether or not the name
  could be announced, \<open>sbus_getName\<close> gives a C string with the same characters.
\<close>

theorem sbus_name_roundtrip:
  assumes "c_string buf = Inr name"
  shows "runs (bindp (sbus_setName P buf) (\<lambda>_. sbus_getName)) (Handle s) (\<lambda>r h. c_string r = Inr name)"
  unfolding sbus_setName_def runs_bindp runs_liftp assms sum.case runs_on_handle
  by (rule runs_mono [OF setName_runs])
    (simp add: sbus_getName_def runs_on_handle runs_basic SBus_getName_def c_string_terminated c_string_clean [OF assms])

theorem sbus_name_roundtrip_witness:
  "runs (bindp (sbus_setName null_posix [CHR ''a'', CHR ''b'', CHR 0x00]) (\<lambda>_. sbus_getName))
     (Handle \<lparr>st_sbus = sample_bus ()\<rparr>) (\<lambda>r h. c_string r = Inr ''ab'')"
  by (rule sbus_name_roundtrip) (simp add: c_string_def)

end
