(* ===== verification/Log_Trace.thy ===== *)
theory Log_Trace
  imports Timing Sample_System
begin

text \<open>
  log.c and the macros of log.h: a level and a descriptor kept in static variables, and functions
  that format a line into a buffer of 512 bytes with \<open>vsprintf\<close> and write it. \<open>vsprintf\<close> is
  written out for the conversions the library's formats use; the calls \<open>write\<close> and \<open>fsync\<close> are a
  parameter.
\<close>

section \<open>Levels\<close>

datatype LogLevelType = Debug | Info | Warn | Error

fun level_number :: "LogLevelType \<Rightarrow> nat" where
  "level_number Debug = 0"
| "level_number Info = 1"
| "level_number Warn = 2"
| "level_number Error = 3"

lemma level_number_inj: "level_number l = level_number l' \<Longrightarrow> l = l'"
  by (cases l; cases l') simp_all

instantiation LogLevelType :: linorder
begin

definition less_eq_LogLevelType :: "LogLevelType \<Rightarrow> LogLevelType \<Rightarrow> bool" where
  "less_eq_LogLevelType l l' \<longleftrightarrow> level_number l \<le> level_number l'"

definition less_LogLevelType :: "LogLevelType \<Rightarrow> LogLevelType \<Rightarrow> bool" where
  "less_LogLevelType l l' \<longleftrightarrow> level_number l < level_number l'"

instance
  by intro_classes (auto simp: less_eq_LogLevelType_def less_LogLevelType_def intro: level_number_inj)

end

fun level_name :: "LogLevelType \<Rightarrow> string" where
  "level_name Debug = ''Debug''"
| "level_name Info = ''Info''"
| "level_name Warn = ''Warn''"
| "level_name Error = ''Error''"

section \<open>Formats\<close>

datatype arg = Str string | Number int

fun show_hex :: "nat \<Rightarrow> string" where
  "show_hex n = (if n < 16 then [''0123456789ABCDEF'' ! n] else show_hex (n div 16) @ [''0123456789ABCDEF'' ! (n mod 16)])"

declare show_hex.simps [simp del]

text \<open>
  One conversion: an optional width, with zeros before the number when it starts with \<open>0\<close>, and
  \<open>s\<close>, \<open>d\<close> or \<open>X\<close>. With no argument, or one of another type, the call is undefined: it reads
  arguments that were not passed.
\<close>

definition padded :: "bool \<Rightarrow> nat \<Rightarrow> string \<Rightarrow> string" where
  "padded zeros width text = replicate (width - length text) (if zeros then CHR ''0'' else CHR '' '') @ text"

definition convert :: "bool \<Rightarrow> nat \<Rightarrow> char \<Rightarrow> arg list \<Rightarrow> fault + string \<times> arg list" where
  "convert zeros width k as =
     (case as of
        Str t # as' \<Rightarrow> if k = CHR ''s'' then Inr (padded False width t, as') else Inl Out_Of_Bounds
      | Number n # as' \<Rightarrow>
          if k = CHR ''d'' then Inr (padded zeros width (show_int n), as')
          else if k = CHR ''X'' then Inr (padded zeros width (show_hex (nat (n mod 2 ^ 32))), as')
          else Inl Out_Of_Bounds
      | [] \<Rightarrow> Inl Out_Of_Bounds)"

lemma length_read_digits: "length (snd (read_digits n f)) \<le> length f"
  by (induction n f rule: read_digits.induct) auto

function vsprintf :: "string \<Rightarrow> arg list \<Rightarrow> fault + string" where
  "vsprintf [] as = Inr []"
| "vsprintf (c # f) as =
     (if c \<noteq> CHR ''%'' then map_sum id ((#) c) (vsprintf f as)
      else
        (case snd (read_digits 0 f) of
           [] \<Rightarrow> Inl Out_Of_Bounds
         | k # f' \<Rightarrow>
             (case convert (take 1 f = ''0'') (fst (read_digits 0 f)) k as of
                Inl e \<Rightarrow> Inl e
              | Inr (t, as') \<Rightarrow> map_sum id ((@) t) (vsprintf f' as'))))"
  by pat_completeness auto

termination
proof (relation "measure (\<lambda>(f, as). length f)")
  fix c f as k f' t as'
  assume "snd (read_digits 0 f) = k # f'"
  then show "((f', as'), (c # f, as)) \<in> measure (\<lambda>(f, as). length f)"
    using length_read_digits [of 0 f] by simp
qed simp_all

lemma vsprintf_plain: "c \<noteq> CHR ''%'' \<Longrightarrow> vsprintf (c # f) as = map_sum id ((#) c) (vsprintf f as)"
  by simp

lemma vsprintf_conversions [simp]:
  "vsprintf (CHR ''%'' # CHR ''s'' # f) (Str t # as) = map_sum id ((@) t) (vsprintf f as)"
  "vsprintf (CHR ''%'' # CHR ''d'' # f) (Number n # as) = map_sum id ((@) (show_int n)) (vsprintf f as)"
  by (simp_all add: convert_def padded_def is_digit_def)

declare vsprintf.simps(2) [simp del]
declare vsprintf_plain [simp]

section \<open>State and operations\<close>

record 'w logger =
  lg_level :: LogLevelType
  lg_fd :: int
  lg_world :: 'w

record 'w log_sys =
  ls_write :: "int \<Rightarrow> string \<Rightarrow> 'w \<Rightarrow> int \<times> 'w"
  ls_fsync :: "int \<Rightarrow> 'w \<Rightarrow> int \<times> 'w"

definition log_start :: "'w \<Rightarrow> 'w logger" where
  "log_start w = \<lparr>lg_level = Info, lg_fd = 2, lg_world = w\<rparr>"

definition log_setLevel :: "LogLevelType \<Rightarrow> ('w logger, unit) prog" where
  "log_setLevel level = modp (\<lambda>l. l\<lparr>lg_level := level\<rparr>)"

definition log_getLevel :: "('w logger, LogLevelType) prog" where
  "log_getLevel = getp lg_level"

definition log_setFD :: "int \<Rightarrow> ('w logger, unit) prog" where
  "log_setFD fd = modp (\<lambda>l. l\<lparr>lg_fd := fd\<rparr>)"

abbreviation (input) MAX_LOG_BUF :: nat where "MAX_LOG_BUF \<equiv> 512"

definition log_write :: "'w log_sys \<Rightarrow> string \<Rightarrow> ('w logger, unit) prog" where
  "log_write S t = modp (\<lambda>l. l\<lparr>lg_world := snd (ls_write S (lg_fd l) t (lg_world l))\<rparr>)"

text \<open>The macros TRACE and TRACELN: the text and its NUL go into \<open>buf\<close>; \<open>strlen\<close> stops at a NUL.\<close>

definition TRACE :: "'w log_sys \<Rightarrow> string \<Rightarrow> arg list \<Rightarrow> ('w logger, unit) prog" where
  "TRACE S str args =
     bindp (liftp (vsprintf str args)) (\<lambda>buf.
       if length buf < MAX_LOG_BUF then log_write S (takeWhile (\<lambda>c. c \<noteq> CHR 0x00) buf)
       else faultp Out_Of_Bounds)"

definition TRACELN :: "'w log_sys \<Rightarrow> string \<Rightarrow> arg list \<Rightarrow> ('w logger, unit) prog" where
  "TRACELN S str args = bindp (TRACE S str args) (\<lambda>_. log_write S [CHR 0x0A])"

definition log_trace :: "'w log_sys \<Rightarrow> LogLevelType \<Rightarrow> string \<Rightarrow> arg list \<Rightarrow> ('w logger, unit) prog" where
  "log_trace S thisLevel str args =
     bindp (getp lg_level) (\<lambda>logLevel. if logLevel \<le> thisLevel then TRACE S str args else ret ())"

definition log_error :: "'w log_sys \<Rightarrow> string \<Rightarrow> arg list \<Rightarrow> ('w logger, unit) prog" where
  "log_error S str args =
     bindp (getp lg_level) (\<lambda>logLevel.
       if logLevel \<le> Error then
         bindp (TRACELN S str args) (\<lambda>_.
           modp (\<lambda>l. l\<lparr>lg_world := snd (ls_fsync S (lg_fd l) (lg_world l))\<rparr>))
       else ret ())"

definition log_warn :: "'w log_sys \<Rightarrow> string \<Rightarrow> arg list \<Rightarrow> ('w logger, unit) prog" where
  "log_warn S str args =
     bindp (getp lg_level) (\<lambda>logLevel. if logLevel \<le> Warn then TRACELN S str args else ret ())"

definition log_info :: "'w log_sys \<Rightarrow> string \<Rightarrow> arg list \<Rightarrow> ('w logger, unit) prog" where
  "log_info S str args =
     bindp (getp lg_level) (\<lambda>logLevel. if logLevel \<le> Info then TRACELN S str args else ret ())"

definition log_debug :: "'w log_sys \<Rightarrow> string \<Rightarrow> arg list \<Rightarrow> ('w logger, unit) prog" where
  "log_debug S str args =
     bindp (getp lg_level) (\<lambda>logLevel. if logLevel \<le> Debug then TRACELN S str args else ret ())"

text \<open>
  The macro PREFIX, and the macros of the four levels. The time is asked for even when the level
  is not written.
\<close>

definition PREFIX :: "'w posix \<Rightarrow> (int \<Rightarrow> tm) \<Rightarrow> 'w log_sys \<Rightarrow> LogLevelType \<Rightarrow> ('w logger, unit) prog" where
  "PREFIX P localtime S level =
     bindp (zoom lg_world (\<lambda>w l. l\<lparr>lg_world := w\<rparr>) (timing_time2str P localtime)) (\<lambda>datetxt.
       log_trace S level (''[%s '' @ level_name level @ ''] '') [Str datetxt])"

definition DEBUG :: "'w posix \<Rightarrow> (int \<Rightarrow> tm) \<Rightarrow> 'w log_sys \<Rightarrow> string \<Rightarrow> arg list \<Rightarrow> ('w logger, unit) prog" where
  "DEBUG P localtime S str args = bindp (PREFIX P localtime S Debug) (\<lambda>_. log_debug S str args)"

definition INFO :: "'w posix \<Rightarrow> (int \<Rightarrow> tm) \<Rightarrow> 'w log_sys \<Rightarrow> string \<Rightarrow> arg list \<Rightarrow> ('w logger, unit) prog" where
  "INFO P localtime S str args = bindp (PREFIX P localtime S Info) (\<lambda>_. log_info S str args)"

definition ERROR :: "'w log_sys \<Rightarrow> string \<Rightarrow> arg list \<Rightarrow> ('w logger, unit) prog" where
  "ERROR S str args = log_error S str args"

definition WARN :: "'w log_sys \<Rightarrow> string \<Rightarrow> arg list \<Rightarrow> ('w logger, unit) prog" where
  "WARN S str args = log_warn S str args"

text \<open>The line functions by level, and a sequence of lines.\<close>

fun log_line :: "'w log_sys \<Rightarrow> LogLevelType \<Rightarrow> string \<Rightarrow> arg list \<Rightarrow> ('w logger, unit) prog" where
  "log_line S Debug = log_debug S"
| "log_line S Info = log_info S"
| "log_line S Warn = log_warn S"
| "log_line S Error = log_error S"

fun log_lines :: "'w log_sys \<Rightarrow> (LogLevelType \<times> string \<times> arg list) list \<Rightarrow> ('w logger, unit) prog" where
  "log_lines S [] = ret ()"
| "log_lines S ((level, str, args) # calls) = bindp (log_line S level str args) (\<lambda>_. log_lines S calls)"

section \<open>What a line does\<close>

definition line_effect :: "'w log_sys \<Rightarrow> int \<Rightarrow> LogLevelType \<Rightarrow> string \<Rightarrow> 'w \<Rightarrow> 'w" where
  "line_effect S fd level t w =
     (let w' = snd (ls_write S fd [CHR 0x0A] (snd (ls_write S fd t w)))
      in if level = Error then snd (ls_fsync S fd w') else w')"

definition fits :: "string \<Rightarrow> arg list \<Rightarrow> string \<Rightarrow> bool" where
  "fits str args t \<longleftrightarrow> vsprintf str args = Inr t \<and> length t < 512 \<and> CHR 0x00 \<notin> set t"

lemma takeWhile_all: "c \<notin> set xs \<Longrightarrow> takeWhile (\<lambda>x. x \<noteq> c) xs = xs"
  by (induction xs) auto

lemma runs_TRACELN:
  assumes "fits str args t"
  shows "runs (TRACELN S str args) l Q \<longleftrightarrow>
    Q () (l\<lparr>lg_world := snd (ls_write S (lg_fd l) [CHR 0x0A] (snd (ls_write S (lg_fd l) t (lg_world l))))\<rparr>)"
  using assms by (simp add: TRACELN_def TRACE_def fits_def log_write_def runs_simps takeWhile_all)

lemma runs_log_line:
  assumes "lg_level l \<le> level \<Longrightarrow> fits str args t"
  shows "runs (log_line S level str args) l (\<lambda>_ l'. l' =
    (if lg_level l \<le> level then l\<lparr>lg_world := line_effect S (lg_fd l) level t (lg_world l)\<rparr> else l))"
proof (cases "lg_level l \<le> level")
  case True
  then show ?thesis
    using runs_TRACELN [OF assms [OF True], of S]
    by (cases level)
      (simp_all add: log_debug_def log_info_def log_warn_def log_error_def runs_bindp runs_basic line_effect_def)
next
  case False
  then show ?thesis
    by (cases level) (simp_all add: log_debug_def log_info_def log_warn_def log_error_def runs_bindp runs_basic)
qed

lemma TRACELN_overflow:
  assumes "vsprintf str args = Inr t" "512 \<le> length t"
  shows "TRACELN S str args l = Inl Out_Of_Bounds"
  using assms by (simp add: TRACELN_def TRACE_def bindp_def faultp_def)

section \<open>Properties\<close>

text \<open>
  C21: the level is a filter. A sequence of lines has exactly the effect of writing, in order and on
  the chosen descriptor, those whose level is the logger's or above, each followed by a newline
  and errors by a synchronisation; the others write nothing, whatever their text, and the level
  and descriptor stay. Only the lines written have to fit the buffer.
\<close>

theorem log_lines_filtered:
  assumes "\<forall>(level, str, args) \<in> set calls. lg_level l \<le> level \<longrightarrow> fits str args (shown str args)"
  shows "runs (log_lines S calls) l (\<lambda>_ l'. lg_level l' = lg_level l \<and> lg_fd l' = lg_fd l \<and>
    lg_world l' = fold (\<lambda>(level, str, args). line_effect S (lg_fd l) level (shown str args))
      (filter (\<lambda>(level, _). lg_level l \<le> level) calls) (lg_world l))"
  using assms
proof (induction S calls arbitrary: l rule: log_lines.induct)
  case (2 S level str args calls)
  let ?l = "if lg_level l \<le> level then l\<lparr>lg_world := line_effect S (lg_fd l) level (shown str args) (lg_world l)\<rparr> else l"
  have l: "lg_level ?l = lg_level l" "lg_fd ?l = lg_fd l"
    by simp_all
  have "runs (log_lines S calls) ?l (\<lambda>_ l'. lg_level l' = lg_level ?l \<and> lg_fd l' = lg_fd ?l \<and>
    lg_world l' = fold (\<lambda>(level, str, args). line_effect S (lg_fd ?l) level (shown str args))
      (filter (\<lambda>(level, _). lg_level ?l \<le> level) calls) (lg_world ?l))"
    by (rule 2(1)) (use 2(2) in \<open>auto simp: l\<close>)
  then show ?case
    using 2(2) unfolding log_lines.simps runs_bindp l
    by (intro runs_mono [OF runs_log_line [where t = "shown str args"]]) (auto split: if_splits)
qed (simp add: runs_basic)

text \<open>A system that records what is written.\<close>

definition recorder :: "(int \<times> string) list log_sys" where
  "recorder = \<lparr>ls_write = (\<lambda>fd t w. (int (length t), w @ [(fd, t)])), ls_fsync = (\<lambda>fd w. (0, w))\<rparr>"

theorem log_lines_filtered_witness:
  "runs (log_lines recorder [(Debug, ''x=%s'', []), (Warn, ''low %s'', [Str ''go''])]) (log_start [])
     (\<lambda>_ l'. lg_world l' = [(2, ''low go''), (2, [CHR 0x0A])])"
proof (rule runs_mono [OF log_lines_filtered [where shown = "\<lambda>str args. ''low go''"]])
  show "\<forall>(level, str, args) \<in> set [(Debug, ''x=%s'', []), (Warn, ''low %s'', [Str ''go''])].
      lg_level (log_start []) \<le> level \<longrightarrow> fits str args ''low go''"
    by (simp add: log_start_def less_eq_LogLevelType_def fits_def)
qed (simp add: log_start_def less_eq_LogLevelType_def line_effect_def recorder_def)



end
