(* ===== verification/Pinger.thy ===== *)
theory Pinger
  imports C_Api Log_Trace "HOL-Library.Sublist"
begin

text \<open>
  testc/sbustest.c: the program that exercises the C interface. It makes a bus, gives it a name
  and writes a line to the log for every message it receives. The log has a state of the system of
  its own, apart from that of the bus. The contents that arrays on the stack have before they are
  written are a parameter.
\<close>

section \<open>The program and what it runs on\<close>

record ('w, 'v) pinger =
  pg_active :: bool
  pg_bus :: "'w SBusType"
  pg_log :: "'v logger"

record ('w, 'v) host =
  ho_posix :: "'w posix"
  ho_cxx :: cxx
  ho_fuel :: nat
  ho_clock :: "'v posix"
  ho_localtime :: "int \<Rightarrow> tm"
  ho_log :: "'v log_sys"
  ho_stack :: "nat \<Rightarrow> string"

definition pinger_start :: "'v logger \<Rightarrow> ('w, 'v) pinger" where
  "pinger_start l = \<lparr>pg_active = True, pg_bus = Null, pg_log = l\<rparr>"

definition on_bus :: "('w SBusType, 'a) prog \<Rightarrow> (('w, 'v) pinger, 'a) prog" where
  "on_bus = zoom pg_bus (\<lambda>h s. s\<lparr>pg_bus := h\<rparr>)"

definition on_log :: "('v logger, 'a) prog \<Rightarrow> (('w, 'v) pinger, 'a) prog" where
  "on_log = zoom pg_log (\<lambda>l s. s\<lparr>pg_log := l\<rparr>)"

definition info :: "('w, 'v) host \<Rightarrow> string \<Rightarrow> arg list \<Rightarrow> (('w, 'v) pinger, unit) prog" where
  "info E str args = on_log (INFO (ho_clock E) (ho_localtime E) (ho_log E) str args)"

text \<open>The array of \<open>n\<close> characters on the stack, and the value of a pointer to characters in a line.\<close>

definition local_array :: "('w, 'v) host \<Rightarrow> nat \<Rightarrow> string" where
  "local_array E n = take n (ho_stack E n @ replicate n CHR 0x00)"

definition bus_name :: "(('w, 'v) pinger, string) prog" where
  "bus_name = bindp (on_bus sbus_getName) (\<lambda>name. liftp (c_string name))"

text \<open>Whether \<open>strncmp(a, b, n)\<close> is 0.\<close>

fun strncmp_zero :: "string \<Rightarrow> string \<Rightarrow> nat \<Rightarrow> fault + bool" where
  "strncmp_zero a b 0 = Inr True"
| "strncmp_zero (c # a) (d # b) (Suc n) =
     (if c \<noteq> d then Inr False else if c = CHR 0x00 then Inr True else strncmp_zero a b n)"
| "strncmp_zero a b (Suc n) = Inl Out_Of_Bounds"

section \<open>Handlers\<close>

definition sbustest_gotMaNameIs :: "('w, 'v) host \<Rightarrow> string \<Rightarrow> int \<Rightarrow> (('w, 'v) pinger, unit) prog" where
  "sbustest_gotMaNameIs E msg len =
     bindp (liftp (sbus_bin2str (local_array E (nat (len + 1))) msg len)) (\<lambda>str.
     bindp (on_bus sbus_getName) (\<lambda>name.
     bindp (liftp (strncmp_zero msg name (nat len))) (\<lambda>same.
     bindp (liftp (c_string str)) (\<lambda>text.
       if same then info E ''Someone else wanted to be called %s, but I was quicker!!'' [Str text]
       else info E ''Someone is called %s'' [Str text]))))"

definition sbustest_gotNameTaken :: "('w, 'v) host \<Rightarrow> (('w, 'v) pinger, unit) prog" where
  "sbustest_gotNameTaken E =
     bindp bus_name (\<lambda>name.
     bindp (info E ''%s was already taken, I have to abort now!'' [Str name]) (\<lambda>_.
       modp (\<lambda>s. s\<lparr>pg_active := False\<rparr>)))"

definition sbustest_sendHi :: "('w, 'v) host \<Rightarrow> (('w, 'v) pinger, unit) prog" where
  "sbustest_sendHi E =
     bindp bus_name (\<lambda>name.
     bindp (liftp (vsprintf ''hi this is %s speaking!'' [Str name])) (\<lambda>t.
     bindp (liftp (copy_to (local_array E 100) (t @ [CHR 0x00]))) (\<lambda>hi.
     bindp (liftp (c_string hi)) (\<lambda>s.
     bindp (on_bus (sbus_mcsend (ho_posix E) 1 hi (int (length s)))) (\<lambda>_.
       ret ())))))"

section \<open>The loop\<close>

abbreviation (input) MAX_LINE_SIZE :: nat where "MAX_LINE_SIZE \<equiv> 1024"

text \<open>What one message does, and one turn of the loop: the result that ends it, or the counter.\<close>

definition pinger_message ::
    "('w, 'v) host \<Rightarrow> int \<Rightarrow> int \<Rightarrow> string \<Rightarrow> int \<Rightarrow> (('w, 'v) pinger, unit) prog" where
  "pinger_message E counter msgtag msg recvbytes =
     (if msgtag = SBUS_MANAMEIS then sbustest_gotMaNameIs E msg recvbytes
      else if msgtag = SBUS_NAMETAKEN then sbustest_gotNameTaken E
      else
        bindp (liftp (sbus_bin2str (local_array E (MAX_LINE_SIZE + 1)) msg recvbytes)) (\<lambda>str.
        bindp (liftp (c_string str)) (\<lambda>text.
          info E ''%d |<- %d - %s'' [Number counter, Number msgtag, Str text])))"

definition pinger_turn :: "('w, 'v) host \<Rightarrow> int \<Rightarrow> (('w, 'v) pinger, int + int) prog" where
  "pinger_turn E counter =
     bindp (on_bus (sbus_recv (ho_fuel E) (ho_posix E) (ho_cxx E) (local_array E MAX_LINE_SIZE) (int MAX_LINE_SIZE)))
       (\<lambda>(recvbytes, msgtag, ch2peer, msg).
         if recvbytes < 0 then
           bindp (on_log (ERROR (ho_log E) ''Error receiving'' [])) (\<lambda>_. ret (Inl (-1)))
         else if recvbytes > 0 then
           bindp (pinger_message E counter msgtag msg recvbytes) (\<lambda>_.
           bindp (if counter = 0 then sbustest_sendHi E else ret ()) (\<lambda>_.
             if counter = INT_MAX then faultp Int_Overflow else ret (Inr (counter + 1))))
         else ret (Inr counter))"

fun pinger_loop :: "nat \<Rightarrow> ('w, 'v) host \<Rightarrow> int \<Rightarrow> (('w, 'v) pinger, int) prog" where
  "pinger_loop 0 E counter = faultp No_Fuel"
| "pinger_loop (Suc n) E counter =
     bindp (getp pg_active) (\<lambda>active.
       if active then
         bindp (pinger_turn E counter) (\<lambda>r. case r of Inl res \<Rightarrow> ret res | Inr c \<Rightarrow> pinger_loop n E c)
       else ret 0)"

definition pinger_session :: "nat \<Rightarrow> ('w, 'v) host \<Rightarrow> string \<Rightarrow> string \<Rightarrow> (('w, 'v) pinger, int) prog" where
  "pinger_session n E name name' =
     bindp bus_name (\<lambda>own.
     bindp (info E ''SBUS pinger started (default name is %s)'' [Str own]) (\<lambda>_.
     bindp (on_bus (sbus_setName (ho_posix E) name)) (\<lambda>r.
     if r \<noteq> 0 then
       bindp (info E ''Could not register SBUS with name %s'' [Str name']) (\<lambda>_. ret (-1))
     else
       bindp bus_name (\<lambda>own'.
       bindp (info E ''%s registered'' [Str own']) (\<lambda>_.
         pinger_loop n E 0)))))"

text \<open>
  The call of \<open>sbus_dispose\<close> after the loop is never reached: the loop is left by \<open>return\<close>, and the
  block it stands in ends with one. The arguments \<open>alloc\<close> and \<open>thread\<close> are those of the constructor
  of the bus.
\<close>

definition sbustest_start_pinger ::
    "nat \<Rightarrow> ('w, 'v) host \<Rightarrow> bool \<Rightarrow> bool \<Rightarrow> string \<Rightarrow> string option \<Rightarrow> 'w \<Rightarrow> (('w, 'v) pinger, int) prog" where
  "sbustest_start_pinger n E alloc thread name device w =
     bindp (liftp (c_string name)) (\<lambda>name'.
     bindp (case device of
              Some d \<Rightarrow> info E ''SBus %s at device %s'' [Str name', Str d]
            | None \<Rightarrow> info E ''SBus %s with no device setting'' [Str name']) (\<lambda>_.
     bindp (liftp (sbus_atDevice (ho_posix E) alloc thread device w)) (\<lambda>sbus.
     bindp (modp (\<lambda>s. s\<lparr>pg_bus := sbus\<rparr>)) (\<lambda>_.
     case sbus of
       Null \<Rightarrow> bindp (on_log (ERROR (ho_log E) ''sbus!=0 is FALSE'' [])) (\<lambda>_. ret (-1))
     | _ \<Rightarrow> pinger_session n E name name'))))"

text \<open>\<open>main\<close> takes the arguments as C strings, the name of the program first.\<close>

definition sbustest_main ::
    "nat \<Rightarrow> ('w, 'v) host \<Rightarrow> bool \<Rightarrow> bool \<Rightarrow> string list \<Rightarrow> 'w \<Rightarrow> (('w, 'v) pinger, int) prog" where
  "sbustest_main n E alloc thread argv w =
     (case argv of
        [] \<Rightarrow> faultp Null_Pointer
      | program # args \<Rightarrow>
          bindp (if args = [] then
                   bindp (liftp (c_string program)) (\<lambda>t. info E ''Usage: %s name [device]'' [Str t])
                 else ret ()) (\<lambda>_.
          bindp (case args of
                   [] \<Rightarrow> sbustest_start_pinger n E alloc thread program None w
                 | [name] \<Rightarrow> sbustest_start_pinger n E alloc thread name None w
                 | name # device # _ \<Rightarrow>
                     bindp (liftp (c_string device)) (\<lambda>d.
                       sbustest_start_pinger n E alloc thread name (Some d) w)) (\<lambda>_.
            ret 0)))"

section \<open>Lemmas\<close>

text \<open>A clock whose times of day have two digits, as those of \<open>localtime\<close> do.\<close>

definition clock_ok :: "(int \<Rightarrow> tm) \<Rightarrow> bool" where
  "clock_ok localtime \<longleftrightarrow> (\<forall>t. let d = localtime t in
     (\<forall>n \<in> {tm_hour d, tm_min d, tm_sec d, tm_mday d}. 0 \<le> n \<and> n < 100))"

lemma clock_okD:
  assumes "clock_ok localtime"
  shows "length (two_digits (tm_hour (localtime t))) = 2" "length (two_digits (tm_min (localtime t))) = 2"
    "length (two_digits (tm_sec (localtime t))) = 2" "length (two_digits (tm_mday (localtime t))) = 2"
  using assms by (auto simp: clock_ok_def Let_def intro!: two_digits_shape(1))

lemma length_month: "length (month_abbrev m) \<le> 3"
  by (auto simp: month_abbrev_def month_names_def nth_Cons split: nat.split)

lemma runs_time2str:
  assumes "clock_ok localtime"
  shows "runs (timing_time2str P localtime) w (\<lambda>t w'. length t \<le> 20)"
  unfolding timing_time2str_def timing_current_seconds_def
  by (auto simp: runs_simps Let_def clock_okD [OF assms] intro: order_trans [OF length_month]
      split: option.split prod.split)

text \<open>
  \<open>lined E l t l'\<close>: the log \<open>l'\<close> is \<open>l\<close> after a line of information with the text \<open>t\<close>, which the date
  comes before.
\<close>

definition lined :: "('w, 'v) host \<Rightarrow> 'v logger \<Rightarrow> string \<Rightarrow> 'v logger \<Rightarrow> bool" where
  "lined E l t l' \<longleftrightarrow> (\<exists>date w. l' =
     l\<lparr>lg_world := line_effect (ho_log E) (lg_fd l) Info t (snd (ls_write (ho_log E) (lg_fd l) date w))\<rparr>)"

lemma runs_PREFIX:
  assumes "clock_ok localtime" "lg_level l \<le> level"
  shows "runs (PREFIX P localtime S level) l (\<lambda>_ l'. \<exists>date w. l' = l\<lparr>lg_world := snd (ls_write S (lg_fd l) date w)\<rparr>)"
proof -
  have "runs (log_trace S level (''[%s '' @ level_name level @ ''] '') [Str t]) l1
      (\<lambda>_ l'. \<exists>date w. l' = l1\<lparr>lg_world := snd (ls_write S (lg_fd l1) date w)\<rparr>)"
    if "length t \<le> 20" "lg_level l1 = lg_level l" for t l1
  proof -
    have "vsprintf (''[%s '' @ level_name level @ ''] '') [Str t] = Inr (''['' @ t @ '' '' @ level_name level @ ''] '')"
      by (cases level) simp_all
    moreover have "length (level_name level) \<le> 5"
      by (cases level) simp_all
    ultimately show ?thesis
      using that assms(2) by (auto simp: log_trace_def TRACE_def log_write_def runs_simps)
  qed
  from this [of _ "l\<lparr>lg_world := _\<rparr>"] show ?thesis
    unfolding PREFIX_def runs_bindp runs_zoom
    by (intro runs_mono [OF runs_time2str [OF assms(1)]]) (auto elim!: runs_mono)
qed

lemma runs_info:
  assumes "clock_ok (ho_localtime E)" "lg_level (pg_log s) \<le> Info" "fits str args t"
  shows "runs (info E str args) s (\<lambda>_ s'. \<exists>l. lined E (pg_log s) t l \<and> s' = s\<lparr>pg_log := l\<rparr>)"
  unfolding info_def on_log_def runs_zoom INFO_def runs_bindp
proof (rule runs_mono [OF runs_PREFIX [OF assms(1,2)]])
  fix u l
  assume "\<exists>date w. l = (pg_log s)\<lparr>lg_world := snd (ls_write (ho_log E) (lg_fd (pg_log s)) date w)\<rparr>"
  then obtain date w where l: "l = (pg_log s)\<lparr>lg_world := snd (ls_write (ho_log E) (lg_fd (pg_log s)) date w)\<rparr>"
    by blast
  show "runs (log_info (ho_log E) str args) l (\<lambda>_ l'. \<exists>k. lined E (pg_log s) t k \<and> s\<lparr>pg_log := l'\<rparr> = s\<lparr>pg_log := k\<rparr>)"
    using runs_log_line [of l Info str args t "ho_log E", OF assms(3)] assms(2)
    by (auto simp: l lined_def elim!: runs_mono)
qed

lemma info_overflow:
  assumes "clock_ok (ho_localtime E)" "lg_level (pg_log s) \<le> Info" "vsprintf str args = Inr t" "512 \<le> length t"
  shows "fails (info E str args) s Out_Of_Bounds"
proof -
  have "runs (PREFIX (ho_clock E) (ho_localtime E) (ho_log E) Info) (pg_log s)
      (\<lambda>_ l. fails (log_info (ho_log E) str args) l Out_Of_Bounds)"
    using runs_PREFIX [OF assms(1,2)] by (rule runs_mono)
      (use assms(2) TRACELN_overflow [OF assms(3,4)] in \<open>auto simp: log_info_def fails_def bindp_def getp_def\<close>)
  then have "fails (INFO (ho_clock E) (ho_localtime E) (ho_log E) str args) (pg_log s) Out_Of_Bounds"
    unfolding INFO_def by (rule fails_after)
  then show ?thesis
    by (simp add: info_def on_log_def fails_def zoom_def)
qed

lemma runs_bin2str:
  assumes "CHR 0x00 \<notin> set t" "length t \<le> k"
  shows "runs (liftp (sbus_bin2str (local_array E (Suc k)) (t @ rest) (int (length t)))) s
    (\<lambda>a s'. c_string a = Inr t \<and> s' = s)"
proof -
  have "(t @ u)[length t := CHR 0x00] = t @ CHR 0x00 # drop 1 u" if "u \<noteq> []" for u
    using that by (cases u) (simp_all add: list_update_append)
  moreover have "length (local_array E (Suc k)) = Suc k"
    by (simp add: local_array_def)
  ultimately show ?thesis
    using assms by (simp add: runs_liftp sbus_bin2str_def arr_set_def c_string_terminated)
qed

lemma strncmp_prefix:
  assumes "CHR 0x00 \<notin> set t" "CHR 0x00 \<notin> set name"
  shows "strncmp_zero (t @ rest) (name @ [CHR 0x00]) (length t) = Inr (prefix t name)"
  using assms
proof (induction t arbitrary: name)
  case (Cons c t)
  then show ?case
    by (cases name) auto
qed simp

lemma runs_getName:
  "pg_bus s = Handle h \<Longrightarrow> runs (on_bus sbus_getName) s Q \<longleftrightarrow> Q (sb_name (st_sbus h) @ [CHR 0x00]) s"
  by (cases s) (simp add: on_bus_def sbus_getName_def runs_zoom runs_on_handle runs_basic SBus_getName_def)

lemma on_bus_recv:
  assumes "SBus_recv (ho_fuel E) (ho_posix E) (ho_cxx E) b = Inr ((len, tag, peer, msg), b')"
    and "pg_bus s = Handle \<lparr>st_sbus = b\<rparr>"
  shows "on_bus (sbus_recv (ho_fuel E) (ho_posix E) (ho_cxx E) (local_array E MAX_LINE_SIZE) (int MAX_LINE_SIZE)) s =
    (if MAX_LINE_SIZE < length msg then Inl Out_Of_Bounds
     else Inr ((int (length msg), tag, peer, msg @ drop (length msg) (local_array E MAX_LINE_SIZE)),
       s\<lparr>pg_bus := Handle \<lparr>st_sbus = b'\<rparr>\<rparr>))"
proof -
  have "length (local_array E MAX_LINE_SIZE) = MAX_LINE_SIZE"
    by (simp add: local_array_def)
  then show ?thesis
    using recv_copies [OF assms(1), of "int MAX_LINE_SIZE" "local_array E MAX_LINE_SIZE"] assms(2)
    by (simp add: on_bus_def zoom_def)
qed

text \<open>The line that an announced name \<open>t\<close> makes.\<close>

definition heard :: "bool \<Rightarrow> string \<Rightarrow> string" where
  "heard same t = (if same then ''Someone else wanted to be called '' @ t @ '', but I was quicker!!'' else ''Someone is called '' @ t)"

lemma runs_heard:
  assumes "clock_ok (ho_localtime E)" "lg_level (pg_log s) \<le> Info" "CHR 0x00 \<notin> set t" "length t \<le> 400"
  shows "runs (if same then info E ''Someone else wanted to be called %s, but I was quicker!!'' [Str t]
      else info E ''Someone is called %s'' [Str t]) s (\<lambda>_ s'. \<exists>l. lined E (pg_log s) (heard same t) l \<and> s' = s\<lparr>pg_log := l\<rparr>)"
  using assms by (cases same) (auto intro!: runs_info simp: fits_def heard_def)

lemma runs_gotMaNameIs:
  assumes "pg_bus s = Handle h" "clock_ok (ho_localtime E)" "lg_level (pg_log s) \<le> Info"
    and "CHR 0x00 \<notin> set t" "CHR 0x00 \<notin> set (sb_name (st_sbus h))" "length t \<le> 400"
  shows "runs (sbustest_gotMaNameIs E (t @ rest) (int (length t))) s
    (\<lambda>_ s'. \<exists>l. lined E (pg_log s) (heard (prefix t (sb_name (st_sbus h))) t) l \<and> s' = s\<lparr>pg_log := l\<rparr>)"
proof -
  have "nat (int (length t) + 1) = Suc (length t)"
    by simp
  moreover obtain a where "sbus_bin2str (local_array E (Suc (length t))) (t @ rest) (int (length t)) = Inr a" "c_string a = Inr t"
    using runs_bin2str [OF assms(4) order_refl, of E rest s] by (auto simp: runs_liftp split: sum.splits)
  ultimately show ?thesis
    unfolding sbustest_gotMaNameIs_def runs_bindp
    using runs_heard [OF assms(2,3,4,6)] strncmp_prefix [OF assms(4,5)] runs_getName [OF assms(1)] by (simp add: runs_liftp)
qed

text \<open>The bus stays open, whatever is done with it but to dispose of it.\<close>

definition open_bus :: "('w, 'v) pinger \<Rightarrow> bool" where
  "open_bus s \<longleftrightarrow> (\<exists>h. pg_bus s = Handle h)"

lemma open_bus_update [simp]:
  "open_bus (s\<lparr>pg_log := l\<rparr>) = open_bus s" "open_bus (s\<lparr>pg_active := a\<rparr>) = open_bus s"
  "open_bus (s\<lparr>pg_bus := Handle h\<rparr>)"
  by (simp_all add: open_bus_def)

lemma keeps_handle:
  "keeps (\<lambda>h. \<exists>s. h = Handle s) (on_handle m)" "keeps (\<lambda>h. \<exists>s. h = Handle s) (liftp r)"
  by (auto simp: keeps_def runs_on_handle safe_liftp intro: safeI split: sum.split)

lemma keeps_on_bus:
  assumes "keeps (\<lambda>h. \<exists>s. h = Handle s) m" "\<And>s h. I s \<longleftrightarrow> open_bus s \<and> J (pg_active s)"
  shows "keeps I (on_bus m)"
  unfolding on_bus_def by (rule keeps_zoom [OF assms(1)]) (auto simp: assms(2) open_bus_def)

lemma keeps_bus_calls:
  assumes "\<And>s. I s \<longleftrightarrow> open_bus s \<and> J (pg_active s)"
  shows "keeps I (on_bus sbus_getName)" "keeps I (on_bus (sbus_recv n P x d k))" "keeps I (on_bus (sbus_setName P t))"
    "keeps I (on_bus (sbus_mcsend P g d k))" "keeps I (on_bus (on_handle m))" "keeps I (liftp r)" "keeps I (on_log l)"
    "keeps I (info E f as)" "keeps I bus_name"
proof -
  show "keeps I (on_bus sbus_getName)" "keeps I (on_bus (sbus_recv n P x d k))" "keeps I (on_bus (sbus_setName P t))"
    "keeps I (on_bus (sbus_mcsend P g d k))" "keeps I (on_bus (on_handle m))"
    unfolding sbus_getName_def sbus_recv_def sbus_setName_def sbus_mcsend_def
    by (rule keeps_on_bus [OF _ assms], (intro keeps_rules keeps_handle)?)+
  show lift: "keeps I (liftp q)" for q
    by (auto simp: keeps_def safe_liftp split: sum.split)
  show log: "keeps I (on_log l)" for l
    by (auto simp: keeps_def on_log_def safe_zoom assms intro: safeI)
  show "keeps I (info E f as)"
    unfolding info_def by (rule log)
  show "keeps I bus_name"
    unfolding bus_name_def sbus_getName_def
    by (intro keeps_bindp lift, rule keeps_on_bus [OF _ assms], rule keeps_handle)
qed

lemmas keeps_open = keeps_bus_calls [of open_bus "\<lambda>_. True", simplified]

text \<open>\<open>recv\<close> gives no error, so a turn ends in another one, and the loop when the name is taken.\<close>

lemma safe_recv_size: "safe (SBus_recv n P x) b (\<lambda>(len, tag, peer, msg) _. len = int (length msg))"
  by (auto intro!: safeI dest: recv_size)

lemma safe_on_bus_recv:
  assumes "open_bus s"
  shows "safe (on_bus (sbus_recv n P x d k)) s (\<lambda>(len, _) s'. 0 \<le> len \<and> open_bus s')"
proof -
  obtain h where h: "pg_bus s = Handle h"
    using assms by (auto simp: open_bus_def)
  have "safe (sbus_recv n P x d k) (Handle h) (\<lambda>(len, _) h'. 0 \<le> len \<and> (\<exists>b. h' = Handle b))"
    unfolding sbus_recv_def safe_bindp
    by (auto simp: safe_simps runs_on_handle split: sum.split intro!: safe_mono [OF safe_recv_size])
  then show ?thesis
    unfolding on_bus_def safe_zoom h by (rule safe_mono) auto
qed

lemma safe_pinger_turn:
  assumes "open_bus s"
  shows "safe (pinger_turn E counter) s (\<lambda>r s'. open_bus s' \<and> (\<exists>c. r = Inr c))"
proof -
  have "keeps open_bus (pinger_message E counter t m q)" "keeps open_bus (sbustest_sendHi E)" for t m q
    unfolding pinger_message_def sbustest_gotMaNameIs_def sbustest_gotNameTaken_def sbustest_sendHi_def
    by (intro keeps_rules keeps_open; simp)+
  then show ?thesis
    unfolding pinger_turn_def safe_bindp
    by (intro safe_mono [OF safe_on_bus_recv [OF assms]])
      (auto simp: safe_simps intro!: safe_mono [OF keepsD [of open_bus]])
qed

lemma safe_pinger_loop:
  assumes "open_bus s"
  shows "safe (pinger_loop n E counter) s (\<lambda>r s'. r = 0 \<and> \<not> pg_active s' \<and> open_bus s')"
  using assms
proof (induction n E counter arbitrary: s rule: pinger_loop.induct)
  case (2 n E counter)
  then show ?case
    unfolding pinger_loop.simps safe_bindp safe_basic safe_if
    by (auto intro!: safe_mono [OF safe_pinger_turn])
qed (simp add: safe_basic)

text \<open>What becomes of the program: it could not have its name, or it lost it.\<close>

lemma safe_session:
  assumes "open_bus s"
  shows "safe (pinger_session n E name name') s (\<lambda>r s'. open_bus s' \<and> (r = 0 \<and> \<not> pg_active s' \<or> r = -1))"
proof -
  have stay: "keeps open_bus (info E f as)" "keeps open_bus bus_name" "keeps open_bus (on_bus (sbus_setName P t))" for f as P t
    by (rule keeps_open)+
  have loop: "safe (bindp bus_name (\<lambda>own. bindp (info E f [Str own]) (\<lambda>_. pinger_loop n E 0))) s'
      (\<lambda>r s'. open_bus s' \<and> (r = 0 \<and> \<not> pg_active s' \<or> r = -1))" if "open_bus s'" for f s'
    using that unfolding safe_bindp
    by (blast intro: safe_mono [OF keepsD [OF stay(2)]] safe_mono [OF keepsD [OF stay(1)]] safe_mono [OF safe_pinger_loop])
  have give_up: "safe (bindp (info E f as) (\<lambda>_. ret (-1))) s' (\<lambda>r s'. open_bus s' \<and> (r = 0 \<and> \<not> pg_active s' \<or> r = -1))"
    if "open_bus s'" for f as s'
    using that unfolding safe_bindp safe_basic by (blast intro: safe_mono [OF keepsD [OF stay(1)]])
  have set: "safe (bindp (on_bus (sbus_setName (ho_posix E) name)) (\<lambda>r. if r \<noteq> 0 then
        bindp (info E ''Could not register SBUS with name %s'' [Str name']) (\<lambda>_. ret (-1))
      else bindp bus_name (\<lambda>own. bindp (info E ''%s registered'' [Str own]) (\<lambda>_. pinger_loop n E 0)))) s'
      (\<lambda>r s'. open_bus s' \<and> (r = 0 \<and> \<not> pg_active s' \<or> r = -1))" if "open_bus s'" for s'
    unfolding safe_bindp [of "on_bus _"]
    by (rule safe_mono [OF keepsD [OF stay(3) that]]) (simp add: loop give_up)
  show ?thesis
    unfolding pinger_session_def safe_bindp [of bus_name] safe_bindp [of "info E _ [Str own]" for own]
    by (rule safe_mono [OF keepsD [OF stay(2) assms]], rule safe_mono [OF keepsD [OF stay(1)]], assumption, rule set)
qed

lemma safe_start_pinger:
  "safe (sbustest_start_pinger n E alloc thread name device w) s
    (\<lambda>r s'. open_bus s' \<and> (r = 0 \<and> \<not> pg_active s' \<or> r = -1))"
proof -
  have handle: "\<exists>b. h = Handle b" if "sbus_atDevice (ho_posix E) alloc thread device w = Inr h" for h
    using that by (auto simp: sbus_atDevice_def sbus_create_def map_sum_def split: sum.splits)
  show ?thesis
    unfolding sbustest_start_pinger_def safe_bindp
    by (auto simp: safe_liftp safe_basic safe_session split: sum.split dest!: handle intro!: safeI [of "case _ of None \<Rightarrow> _ | Some x \<Rightarrow> _ x"])
qed

section \<open>Properties\<close>

text \<open>
  C22: what a message of another program does to the pinger. Its line in the log is \<open>counter |<- tag -
  text\<close>. If the line has less than 512 characters, the turn writes it and goes on to the next; from
  512 on, whether it fits the pinger's own buffer of 1024 or not, the message writes past the end
  of an array: it is received, or formatted, into one that is too small.
\<close>

theorem pinger_user_message:
  assumes recv: "SBus_recv (ho_fuel E) (ho_posix E) (ho_cxx E) b = Inr ((len, tag, peer, msg), b')"
    and s: "pg_bus s = Handle \<lparr>st_sbus = b\<rparr>" "lg_level (pg_log s) \<le> Info" "clock_ok (ho_localtime E)"
    and msg: "tag \<noteq> SBUS_MANAMEIS" "tag \<noteq> SBUS_NAMETAKEN" "msg \<noteq> []" "CHR 0x00 \<notin> set msg"
    and counter: "0 < counter" "counter < INT_MAX"
    and line: "line = show_int counter @ '' |<- '' @ show_int tag @ '' - '' @ msg"
  shows "(length line < 512 \<longrightarrow> runs (pinger_turn E counter) s (\<lambda>r s'. r = Inr (counter + 1) \<and>
      (\<exists>l. lined E (pg_log s) line l \<and> s' = s\<lparr>pg_bus := Handle \<lparr>st_sbus = b'\<rparr>, pg_log := l\<rparr>))) \<and>
    (512 \<le> length line \<longrightarrow> fails (pinger_turn E counter) s Out_Of_Bounds)"
proof -
  let ?data = "msg @ drop (length msg) (local_array E MAX_LINE_SIZE)" and ?s = "s\<lparr>pg_bus := Handle \<lparr>st_sbus = b'\<rparr>\<rparr>"
  have format: "vsprintf ''%d |<- %d - %s'' [Number counter, Number tag, Str msg] = Inr line"
    by (simp add: line)
  have message: "pinger_message E counter tag ?data (int (length msg)) =
      bindp (liftp (sbus_bin2str (local_array E (Suc MAX_LINE_SIZE)) ?data (int (length msg)))) (\<lambda>str.
        bindp (liftp (c_string str)) (\<lambda>t. info E ''%d |<- %d - %s'' [Number counter, Number tag, Str t]))"
    using msg by (simp add: pinger_message_def)
  have turn: "pinger_turn E counter s = bindp (pinger_message E counter tag ?data (int (length msg)))
      (\<lambda>_. ret (Inr (counter + 1))) ?s" if "length msg \<le> MAX_LINE_SIZE"
    using that on_bus_recv [OF recv s(1)] msg(3) counter by (simp add: pinger_turn_def bindp_Inr)
  have long: "fails (pinger_turn E counter) s Out_Of_Bounds" if "MAX_LINE_SIZE < length msg"
    using that on_bus_recv [OF recv s(1)] by (simp add: pinger_turn_def fails_def bindp_def)
  show ?thesis
  proof (cases "length msg \<le> MAX_LINE_SIZE")
    case True
    note str = runs_bin2str [OF msg(4) True, of E "drop (length msg) (local_array E MAX_LINE_SIZE)" ?s]
    have "runs (pinger_message E counter tag ?data (int (length msg))) ?s
        (\<lambda>_ s'. \<exists>l. lined E (pg_log s) line l \<and> s' = s\<lparr>pg_bus := Handle \<lparr>st_sbus = b'\<rparr>, pg_log := l\<rparr>)"
      if fit: "length line < 512"
    proof -
      have "CHR 0x00 \<notin> set line"
        using msg(4) by (simp add: line)
      then have "fits ''%d |<- %d - %s'' [Number counter, Number tag, Str msg] line"
        using fit format by (simp add: fits_def)
      from runs_info [OF s(3) _ this, of ?s] show ?thesis
        unfolding message runs_bindp using s(2) by (intro runs_mono [OF str]) (auto simp: runs_liftp)
    qed
    moreover have "fails (pinger_message E counter tag ?data (int (length msg))) ?s Out_Of_Bounds" if "512 \<le> length line"
      unfolding message using info_overflow [OF s(3) _ format that, of ?s] s(2)
      by (intro fails_after runs_mono [OF str]) (auto simp: runs_liftp intro: fails_after)
    ultimately show ?thesis
      unfolding fails_def runs_def turn [OF True] by (auto simp: bindp_def ret_def split: sum.splits)
  next
    case False
    then show ?thesis
      using long by (auto simp: line)
  qed
qed

definition sample_host :: "(unit, (int \<times> string) list) host" where
  "sample_host =
     \<lparr>ho_posix = null_posix, ho_cxx = sample_cxx True 5, ho_fuel = 1, ho_clock = null_posix,
      ho_localtime = (\<lambda>_. \<lparr>tm_year = 104, tm_mon = 0, tm_mday = 1, tm_hour = 0, tm_min = 0, tm_sec = 1\<rparr>),
      ho_log = recorder, ho_stack = (\<lambda>n. replicate n CHR ''?'')\<rparr>"

definition sample_pinger :: "unit sbus \<Rightarrow> (unit, (int \<times> string) list) pinger" where
  "sample_pinger b = \<lparr>pg_active = True, pg_bus = Handle \<lparr>st_sbus = b\<rparr>, pg_log = log_start []\<rparr>"

lemma sample_host_clock: "clock_ok (ho_localtime sample_host)"
  by (simp add: sample_host_def clock_ok_def)

lemma digit_values: "digit_char 1 = CHR ''1''" "digit_char 9 = CHR ''9''"
  by code_simp+

lemma show_digit: "0 \<le> n \<Longrightarrow> n < 10 \<Longrightarrow> show_int n = [digit_char (nat n)]"
  by (simp add: show_int_def show_dec.simps)

lemma lined_recorder:
  assumes "lined sample_host l t l'"
  shows "(lg_fd l, t) \<in> set (lg_world l')"
  using assms by (auto simp: lined_def sample_host_def recorder_def line_effect_def)

theorem pinger_user_message_witness:
  "runs (pinger_turn sample_host 1) (sample_pinger ((sample_bus ())\<lparr>sb_inq := [sample_msg 9 7 ''hi'']\<rparr>)) (\<lambda>r s'.
     r = Inr 2 \<and> (2, ''1 |<- 9 - hi'') \<in> set (lg_world (pg_log s')))"
proof -
  let ?s = "sample_pinger ((sample_bus ())\<lparr>sb_inq := [sample_msg 9 7 ''hi'']\<rparr>)"
  obtain b' where r: "SBus_recv (ho_fuel sample_host) (ho_posix sample_host) (ho_cxx sample_host)
     ((sample_bus ())\<lparr>sb_inq := [sample_msg 9 7 ''hi'']\<rparr>) = Inr ((2, 9, 1, ''hi''), b')"
    using sample_recv by (auto simp: sample_host_def)
  have "runs (pinger_turn sample_host 1) ?s (\<lambda>r s'. r = Inr (1 + 1) \<and>
      (\<exists>l. lined sample_host (pg_log ?s) ''1 |<- 9 - hi'' l \<and> s' = ?s\<lparr>pg_bus := Handle \<lparr>st_sbus = b'\<rparr>, pg_log := l\<rparr>))"
    by (rule pinger_user_message [THEN conjunct1, rule_format, OF r _ _ sample_host_clock])
      (simp_all add: sample_pinger_def log_start_def show_digit digit_values [simplified])
  then show ?thesis
    by (rule runs_mono) (auto dest: lined_recorder simp: sample_pinger_def log_start_def)
qed

end
