(* ===== verification/Pinger_Cpp.thy ===== *)
theory Pinger_Cpp
  imports Pinger Naming
begin

text \<open>
  testcpp/sbustest.cpp: the same program over the class. Its bus is a local object, destroyed when
  the function that made it is left; what it throws are pointers to strings, and so is what the
  constructor of the bus throws. A program that may throw gives the string thrown (\<open>Inl\<close>) or its
  result (\<open>Inr\<close>).
\<close>

section \<open>Handlers\<close>

definition on_sbus :: "('w sbus, 'a) prog \<Rightarrow> (('w, 'v) pinger, 'a) prog" where
  "on_sbus m = on_bus (on_handle m)"

definition c_str :: "string \<Rightarrow> string" where
  "c_str t = takeWhile (\<lambda>c. c \<noteq> CHR 0x00) t"

definition gotMaNameIs_cpp :: "('w, 'v) host \<Rightarrow> string \<Rightarrow> (('w, 'v) pinger, unit) prog" where
  "gotMaNameIs_cpp E msg =
     bindp (on_sbus (getp SBus_getName)) (\<lambda>name.
       if msg = name then info E ''Someone else wanted to be called %s, but I was quicker!!'' [Str (c_str msg)]
       else info E ''Someone is called %s'' [Str (c_str msg)])"

definition gotNameTaken_cpp :: "('w, 'v) host \<Rightarrow> (('w, 'v) pinger, string + unit) prog" where
  "gotNameTaken_cpp E =
     bindp (on_sbus (getp SBus_getName)) (\<lambda>name.
     bindp (info E ''%s was already taken, I have to abort now!'' [Str (c_str name)]) (\<lambda>_.
     bindp (modp (\<lambda>s. s\<lparr>pg_active := False\<rparr>)) (\<lambda>_.
       ret (Inl (''Name taken'' @ [CHR 0x0A])))))"

definition sendHi_cpp :: "('w, 'v) host \<Rightarrow> (('w, 'v) pinger, unit) prog" where
  "sendHi_cpp E =
     bindp (on_sbus (getp SBus_getName)) (\<lambda>name.
     bindp (on_sbus (SBus_send (ho_posix E) 1 (''hi this is '' @ name @ '' speaking!''))) (\<lambda>_.
       ret ()))"

section \<open>The loop\<close>

definition pinger_message_cpp ::
    "('w, 'v) host \<Rightarrow> int \<Rightarrow> int \<Rightarrow> string \<Rightarrow> (('w, 'v) pinger, string + unit) prog" where
  "pinger_message_cpp E counter msgtag msg =
     (if msgtag = SBUS_MANAMEIS then bindp (gotMaNameIs_cpp E msg) (\<lambda>_. ret (Inr ()))
      else if msgtag = SBUS_NAMETAKEN then gotNameTaken_cpp E
      else
        bindp (info E ''%d  |<- %d - %s'' [Number counter, Number msgtag, Str (c_str msg)]) (\<lambda>_. ret (Inr ())))"

definition pinger_turn_cpp :: "('w, 'v) host \<Rightarrow> int \<Rightarrow> (('w, 'v) pinger, string + int + int) prog" where
  "pinger_turn_cpp E counter =
     bindp (on_sbus (SBus_recv (ho_fuel E) (ho_posix E) (ho_cxx E))) (\<lambda>(recvbytes, msgtag, peer, msg).
       if recvbytes < 0 then
         bindp (on_log (ERROR (ho_log E) ''Error receiving'' [])) (\<lambda>_. ret (Inr (Inl (-1))))
       else if recvbytes > 0 then
         bindp (pinger_message_cpp E counter msgtag msg) (\<lambda>r.
         case r of
           Inl t \<Rightarrow> ret (Inl t)
         | Inr _ \<Rightarrow>
             bindp (if counter = 0 then sendHi_cpp E else ret ()) (\<lambda>_.
               if counter = INT_MAX then faultp Int_Overflow else ret (Inr (Inr (counter + 1)))))
       else ret (Inr (Inr counter)))"

fun pinger_loop_cpp :: "nat \<Rightarrow> ('w, 'v) host \<Rightarrow> int \<Rightarrow> (('w, 'v) pinger, string + int) prog" where
  "pinger_loop_cpp 0 E counter = faultp No_Fuel"
| "pinger_loop_cpp (Suc n) E counter =
     bindp (getp pg_active) (\<lambda>active.
       if active then
         bindp (pinger_turn_cpp E counter) (\<lambda>r.
         case r of
           Inl t \<Rightarrow> ret (Inl t)
         | Inr q \<Rightarrow> (case q of Inl res \<Rightarrow> ret (Inr res) | Inr c \<Rightarrow> pinger_loop_cpp n E c))
       else ret (Inr 0))"

definition pinger_body_cpp :: "nat \<Rightarrow> ('w, 'v) host \<Rightarrow> string \<Rightarrow> (('w, 'v) pinger, string + int) prog" where
  "pinger_body_cpp n E name =
     bindp (on_sbus (getp SBus_getName)) (\<lambda>own.
     bindp (info E ''SBUS pinger started (default name is %s)'' [Str (c_str own)]) (\<lambda>_.
     bindp (on_sbus (SBus_setName (ho_posix E) name)) (\<lambda>r.
     if r \<noteq> 0 then
       bindp (info E ''Could not register SBUS with name %s'' [Str (c_str name)]) (\<lambda>_. ret (Inr (-1)))
     else
       bindp (on_sbus (getp SBus_getName)) (\<lambda>own'.
       bindp (info E ''%s registered'' [Str (c_str own')]) (\<lambda>_.
         pinger_loop_cpp n E 0)))))"

definition caught :: "('w, 'v) host \<Rightarrow> string \<Rightarrow> (('w, 'v) pinger, int) prog" where
  "caught E t = bindp (on_log (ERROR (ho_log E) ''Exception %s'' [Str (c_str t)])) (\<lambda>_. ret (-1))"

text \<open>The bus is destroyed before the exception is handled or the result returned.\<close>

definition start_pinger_cpp ::
    "nat \<Rightarrow> ('w, 'v) host \<Rightarrow> bool \<Rightarrow> bool \<Rightarrow> string \<Rightarrow> string option \<Rightarrow> 'w \<Rightarrow> (('w, 'v) pinger, int) prog" where
  "start_pinger_cpp n E alloc thread name device w =
     bindp (case device of
              Some d \<Rightarrow> info E ''SBus %s at device %s'' [Str (c_str name), Str d]
            | None \<Rightarrow> info E ''SBus %s with no device setting'' [Str (c_str name)]) (\<lambda>_.
     case SBus_new_device (ho_posix E) alloc thread device w of
       Inl (Uncaught t) \<Rightarrow> caught E t
     | Inl e \<Rightarrow> faultp e
     | Inr b \<Rightarrow>
         bindp (modp (\<lambda>s. s\<lparr>pg_bus := Handle \<lparr>st_sbus = b\<rparr>\<rparr>)) (\<lambda>_.
         bindp (pinger_body_cpp n E name) (\<lambda>r.
         bindp (on_sbus (SBus_delete (ho_posix E))) (\<lambda>_.
         bindp (modp (\<lambda>s. s\<lparr>pg_bus := Disposed\<rparr>)) (\<lambda>_.
           case r of Inl t \<Rightarrow> caught E t | Inr res \<Rightarrow> ret res)))))"

definition main_cpp ::
    "nat \<Rightarrow> ('w, 'v) host \<Rightarrow> bool \<Rightarrow> bool \<Rightarrow> string list \<Rightarrow> 'w \<Rightarrow> (('w, 'v) pinger, int) prog" where
  "main_cpp n E alloc thread argv w =
     (case argv of
        [] \<Rightarrow> faultp Null_Pointer
      | program # args \<Rightarrow>
          bindp (liftp (c_string (case args of [] \<Rightarrow> program | a # _ \<Rightarrow> a))) (\<lambda>name.
          bindp (if args = [] then
                   bindp (liftp (c_string program)) (\<lambda>t. info E ''Usage: %s name [device]'' [Str t])
                 else ret ()) (\<lambda>_.
          bindp (case args of
                   _ # device # _ \<Rightarrow>
                     bindp (liftp (c_string device)) (\<lambda>d. start_pinger_cpp n E alloc thread name (Some d) w)
                 | _ \<Rightarrow> start_pinger_cpp n E alloc thread name None w) (\<lambda>_.
            ret 0))))"

section \<open>Lemmas\<close>

lemma runs_on_sbus:
  "pg_bus s = Handle h \<Longrightarrow> runs (on_sbus m) s Q \<longleftrightarrow>
    runs m (st_sbus h) (\<lambda>a b. Q a (s\<lparr>pg_bus := Handle (h\<lparr>st_sbus := b\<rparr>)\<rparr>))"
  "pg_bus s = Handle h \<Longrightarrow> safe (on_sbus m) s Q \<longleftrightarrow>
    safe m (st_sbus h) (\<lambda>a b. Q a (s\<lparr>pg_bus := Handle (h\<lparr>st_sbus := b\<rparr>)\<rparr>))"
  by (simp_all add: on_sbus_def on_bus_def runs_zoom safe_zoom runs_on_handle)

lemma runs_sbus_get:
  "pg_bus s = Handle h \<Longrightarrow> runs (on_sbus (getp f)) s Q \<longleftrightarrow> Q (f (st_sbus h)) s"
  by (cases s) (simp add: runs_on_sbus runs_basic)

lemma runs_gotMaNameIs_cpp:
  assumes "pg_bus s = Handle h" "clock_ok (ho_localtime E)" "lg_level (pg_log s) \<le> Info"
    and "CHR 0x00 \<notin> set t" "length t \<le> 400"
  shows "runs (gotMaNameIs_cpp E t) s
    (\<lambda>_ s'. \<exists>l. lined E (pg_log s) (heard (t = sb_name (st_sbus h)) t) l \<and> s' = s\<lparr>pg_log := l\<rparr>)"
proof -
  have t: "c_str t = t"
    using assms(4) by (simp add: c_str_def takeWhile_all)
  show ?thesis
    unfolding gotMaNameIs_cpp_def runs_bindp runs_sbus_get [OF assms(1)] SBus_getName_def t
    by (rule runs_heard [OF assms(2-5)])
qed

text \<open>While the name is not taken the bus is open and the program active.\<close>

definition running :: "('w, 'v) pinger \<Rightarrow> bool" where
  "running s \<longleftrightarrow> open_bus s \<and> pg_active s"

lemma keeps_running:
  "keeps running (on_sbus m)" "keeps running (info E f as)" "keeps open_bus (on_sbus m)" "keeps open_bus (info E f as)"
proof -
  have "\<And>s. running s \<longleftrightarrow> open_bus s \<and> (\<lambda>a. a) (pg_active s)"
    by (simp add: running_def)
  from keeps_bus_calls [OF this] show "keeps running (on_sbus m)" "keeps running (info E f as)"
    by (simp_all add: on_sbus_def)
  show "keeps open_bus (on_sbus m)" "keeps open_bus (info E f as)"
    by (simp_all add: on_sbus_def keeps_open)
qed

definition thrown_or :: "('r \<Rightarrow> ('w, 'v) pinger \<Rightarrow> bool) \<Rightarrow> string + 'r \<Rightarrow> ('w, 'v) pinger \<Rightarrow> bool" where
  "thrown_or Q r s \<longleftrightarrow> (case r of Inl t \<Rightarrow> open_bus s | Inr a \<Rightarrow> Q a s)"

lemma thrown_or_simps [simp]: "thrown_or Q (Inl t) s = open_bus s" "thrown_or Q (Inr a) s = Q a s"
  by (simp_all add: thrown_or_def)

lemma safe_message_cpp:
  assumes "running s"
  shows "safe (pinger_message_cpp E counter tag msg) s (thrown_or (\<lambda>_. running))"
proof -
  have "keeps running (gotMaNameIs_cpp E msg)"
    unfolding gotMaNameIs_cpp_def by (intro keeps_rules keeps_running)
  moreover have "keeps open_bus (gotNameTaken_cpp E)"
    unfolding gotNameTaken_cpp_def by (intro keeps_rules keeps_running) simp
  moreover have "safe (gotNameTaken_cpp E) s (\<lambda>r _. \<exists>t. r = Inl t)"
    by (auto simp: gotNameTaken_cpp_def safe_simps intro!: safeI)
  moreover have "open_bus s"
    using assms by (simp add: running_def)
  ultimately have "safe (gotNameTaken_cpp E) s (thrown_or (\<lambda>_. running))"
    by (auto simp: safe_def keeps_def split: sum.splits)
  then show ?thesis
    using \<open>keeps running (gotMaNameIs_cpp E msg)\<close> assms
    by (auto simp: pinger_message_cpp_def safe_bindp safe_basic
        intro!: safe_mono [OF keepsD [of running]] keeps_running)
qed

lemma safe_turn_cpp:
  fixes s :: "('w, 'v) pinger"
  assumes "running s"
  shows "safe (pinger_turn_cpp E counter) s (thrown_or (\<lambda>q s'. running s' \<and> (\<exists>c. q = Inr c)))"
proof -
  obtain h where h: "pg_bus s = Handle h"
    using assms by (auto simp: running_def open_bus_def)
  have recv: "safe (on_sbus (SBus_recv n P x)) s (\<lambda>(len, _) s'. 0 \<le> len \<and> running s')" for n P x
    unfolding runs_on_sbus(2) [OF h]
    by (rule safe_mono [OF safe_recv_size]) (use assms in \<open>auto simp: running_def\<close>)
  have hi: "keeps running (sendHi_cpp E)"
    unfolding sendHi_cpp_def by (intro keeps_rules keeps_running)
  have after: "safe (bindp (if counter = 0 then sendHi_cpp E else ret ()) (\<lambda>_.
      if counter = INT_MAX then faultp Int_Overflow else ret (Inr (Inr (counter + 1))))) s'
      (thrown_or (\<lambda>q s'. running s' \<and> (\<exists>c. q = Inr c)))" if "running s'" for s'
    using that unfolding safe_bindp [of "if _ then _ else _"] by (auto simp: safe_basic intro!: safe_mono [OF keepsD [OF hi]])
  have message: "safe (bindp (pinger_message_cpp E counter tag msg) (\<lambda>r. case r of Inl t \<Rightarrow> ret (Inl t)
      | Inr _ \<Rightarrow> bindp (if counter = 0 then sendHi_cpp E else ret ()) (\<lambda>_.
          if counter = INT_MAX then faultp Int_Overflow else ret (Inr (Inr (counter + 1)))))) s'
      (thrown_or (\<lambda>q s'. running s' \<and> (\<exists>c. q = Inr c)))" if "running s'" for tag msg s'
    unfolding safe_bindp [of "pinger_message_cpp _ _ _ _"]
  proof (rule safe_mono [OF safe_message_cpp [OF that]])
    fix r and s'' :: "('w, 'v) pinger"
    assume "thrown_or (\<lambda>_. running) r s''"
    then show "safe (case r of Inl t \<Rightarrow> ret (Inl t)
      | Inr _ \<Rightarrow> bindp (if counter = 0 then sendHi_cpp E else ret ()) (\<lambda>_.
          if counter = INT_MAX then faultp Int_Overflow else ret (Inr (Inr (counter + 1))))) s''
      (thrown_or (\<lambda>q s'. running s' \<and> (\<exists>c. q = Inr c)))"
      by (cases r) (simp_all only: sum.case thrown_or_simps safe_basic after)
  qed
  show ?thesis
    unfolding pinger_turn_cpp_def safe_bindp [of "on_sbus _"]
    subgoal
      apply (rule safe_mono [OF recv])
      subgoal for p s'
        using message [of s'] by (cases p) (simp only: prod.case safe_if safe_basic thrown_or_simps, auto)
      done
    done
qed

lemma safe_loop_cpp:
  assumes "running s"
  shows "safe (pinger_loop_cpp n E counter) s (\<lambda>r s'. open_bus s' \<and> (\<exists>t. r = Inl t))"
  using assms
proof (induction n E counter arbitrary: s rule: pinger_loop_cpp.induct)
  case (2 n E counter)
  have "safe (case r of Inl t \<Rightarrow> ret (Inl t) | Inr q \<Rightarrow> (case q of Inl res \<Rightarrow> ret (Inr res) | Inr c \<Rightarrow> pinger_loop_cpp n E c)) s'
      (\<lambda>r s'. open_bus s' \<and> (\<exists>t. r = Inl t))" if "thrown_or (\<lambda>q s'. running s' \<and> (\<exists>c. q = Inr c)) r s'" for r s'
    using that 2 by (cases r) (auto simp: safe_basic running_def)
  moreover have "pg_active s"
    using 2 by (simp add: running_def)
  ultimately show ?case
    unfolding pinger_loop_cpp.simps safe_bindp safe_basic safe_if by (auto intro!: safe_mono [OF safe_turn_cpp [OF 2(2)]])
qed (simp add: safe_basic)

lemma safe_body_cpp:
  assumes "running s"
  shows "safe (pinger_body_cpp n E name) s (\<lambda>r s'. open_bus s' \<and> (\<forall>res. r = Inr res \<longrightarrow> res = -1))"
proof -
  have stay: "safe m s' (\<lambda>_. running)" if "keeps running m" "running s'" for m s'
    by (rule keepsD [OF that])
  have loop: "safe (pinger_loop_cpp n E 0) s' (\<lambda>r s'. open_bus s' \<and> (\<forall>res. r = Inr res \<longrightarrow> res = -1))" if "running s'" for s'
    by (rule safe_mono [OF safe_loop_cpp [OF that]]) auto
  have step: "safe (bindp m f) s' Q" if "keeps running m" "running s'" "\<And>a t. running t \<Longrightarrow> safe (f a) t Q" for m f s' Q
    unfolding safe_bindp by (rule safe_mono [OF stay [OF that(1,2)]]) (rule that(3))
  show ?thesis
    unfolding pinger_body_cpp_def
    by (rule step [OF keeps_running(1) assms] step [OF keeps_running(2)] | assumption)+
      (auto intro!: step [OF keeps_running(1)] step [OF keeps_running(2)] loop simp: safe_basic running_def)
qed

section \<open>Properties\<close>

text \<open>
  How the two programs take an announced name. Both write one line and change nothing else. The
  program over the class takes the name for its own when it is, the one over the C interface
  already when it is the beginning of its own, for it compares with \<open>strncmp\<close> as many characters
  as were received.
\<close>

theorem pingers_on_names:
  assumes "pg_bus s = Handle h" "clock_ok (ho_localtime E)" "lg_level (pg_log s) \<le> Info"
    and "CHR 0x00 \<notin> set t" "CHR 0x00 \<notin> set (sb_name (st_sbus h))" "length t \<le> 400"
  shows "runs (sbustest_gotMaNameIs E (t @ rest) (int (length t))) s
      (\<lambda>_ s'. \<exists>l. lined E (pg_log s) (heard (prefix t (sb_name (st_sbus h))) t) l \<and> s' = s\<lparr>pg_log := l\<rparr>) \<and>
    runs (gotMaNameIs_cpp E t) s
      (\<lambda>_ s'. \<exists>l. lined E (pg_log s) (heard (t = sb_name (st_sbus h)) t) l \<and> s' = s\<lparr>pg_log := l\<rparr>)"
  using runs_gotMaNameIs [OF assms] runs_gotMaNameIs_cpp [OF assms(1-4,6)] by blast

theorem pingers_on_names_witness:
  "runs (sbustest_gotMaNameIs sample_host ''boxes'' 2) (sample_pinger (sample_bus ())) (\<lambda>_ s'.
     (2, ''Someone else wanted to be called bo, but I was quicker!!'') \<in> set (lg_world (pg_log s'))) \<and>
   runs (gotMaNameIs_cpp sample_host ''bo'') (sample_pinger (sample_bus ())) (\<lambda>_ s'.
     (2, ''Someone is called bo'') \<in> set (lg_world (pg_log s')))"
proof -
  note sample = pingers_on_names [of "sample_pinger (sample_bus ())" "\<lparr>st_sbus = sample_bus ()\<rparr>" sample_host "''bo''" "''xes''",
      OF _ sample_host_clock]
  have "runs (sbustest_gotMaNameIs sample_host ''boxes'' 2) (sample_pinger (sample_bus ())) (\<lambda>_ s'. \<exists>l.
      lined sample_host (log_start []) (heard True ''bo'') l \<and> s' = (sample_pinger (sample_bus ()))\<lparr>pg_log := l\<rparr>)"
    "runs (gotMaNameIs_cpp sample_host ''bo'') (sample_pinger (sample_bus ())) (\<lambda>_ s'. \<exists>l.
      lined sample_host (log_start []) (heard False ''bo'') l \<and> s' = (sample_pinger (sample_bus ()))\<lparr>pg_log := l\<rparr>)"
    using sample by (simp_all add: sample_pinger_def log_start_def)
  then show ?thesis
    by (auto elim!: runs_mono dest!: lined_recorder simp: heard_def log_start_def)
qed




lemma sample_taken:
  "\<exists>b'. SBus_recv 1 null_posix (sample_cxx True 5)
     ((sample_bus ())\<lparr>sb_inq := [sample_msg (-2) 7 ''bob'']\<rparr>) = Inr ((3, -2, 1, ''bob''), b') \<and> sb_name b' = ''bob''"
proof -
  have "runs (SBus_processSMsg null_posix (sample_cxx True 5) (sample_msg (-2) 7 ''bob'')) (sample_bus ())
      (\<lambda>k b'. k = 1 \<and> sb_name b' = ''bob'')"
    by (rule runs_mono [OF runs_name_taken [OF sample_ready _ _ _ _ sample_sender(1)]])
      (auto simp: sample_sender sample_directory to_short_def)
  then obtain b' where "SBus_processSMsg null_posix (sample_cxx True 5) (sample_msg (-2) 7 ''bob'') (sample_bus ()) = Inr (1, b')"
    "sb_name b' = ''bob''"
    by (auto simp: runs_Inr)
  moreover have "(sample_bus ())\<lparr>sb_inq := []\<rparr> = sample_bus ()"
    by (simp add: sample_bus_def)
  ultimately show ?thesis
    by (simp add: bindp_def getp_def modp_def to_short_def)
qed


end
