(* ===== verification/Error_Macros.thy ===== *)
theory Error_Macros
  imports Log_Trace Stcp
begin

text \<open>
  errdefs.h: the macros that test a result, write a line and leave the function or the process. A
  function they stand in is a program over its own state and the log; \<open>text\<close> is the expression as
  the preprocessor spells it, which becomes a format. The rest of the library is modelled without
  its log lines; the lemmas here show that for the macros this changes nothing else. The last
  section has the macro THROW of log.h.
\<close>

section \<open>The macros\<close>

definition on_code :: "('s, 'a) prog \<Rightarrow> ('s \<times> 'v logger, 'a) prog" where
  "on_code = zoom fst (\<lambda>s t. (s, snd t))"

definition in_log :: "('v logger, 'a) prog \<Rightarrow> ('s \<times> 'v logger, 'a) prog" where
  "in_log = zoom snd (\<lambda>l t. (fst t, l))"

abbreviation (input) NEWLINE :: string where "NEWLINE \<equiv> [CHR 0x0A]"

definition ASSERT :: "'v log_sys \<Rightarrow> string \<Rightarrow> ('s \<Rightarrow> bool) \<Rightarrow> ('s \<times> 'v logger, unit) prog" where
  "ASSERT S text condition =
     bindp (getp (\<lambda>t. condition (fst t))) (\<lambda>c.
       if \<not> c then
         bindp (in_log (ERROR S (''Check '' @ text @ '' failed'' @ NEWLINE) [])) (\<lambda>_. faultp Exit_Failure)
       else ret ())"

text \<open>\<open>strerror(errno)\<close> is the argument \<open>reason\<close>.\<close>

definition PERROR :: "'v log_sys \<Rightarrow> string \<Rightarrow> string \<Rightarrow> ('v logger, unit) prog" where
  "PERROR S reason str =
     bindp (log_trace S Error (''%s'' @ NEWLINE) [Str reason]) (\<lambda>_. ERROR S str [])"

definition TRY :: "'v log_sys \<Rightarrow> string \<Rightarrow> ('s, int) prog \<Rightarrow> ('s \<times> 'v logger, unit) prog" where
  "TRY S text expression =
     bindp (on_code expression) (\<lambda>r. if r \<noteq> 0 then in_log (ERROR S (text @ '' failed'') []) else ret ())"

definition RET_ON_ERROR ::
    "'v log_sys \<Rightarrow> string \<Rightarrow> ('s, int) prog \<Rightarrow> (int \<Rightarrow> ('s \<times> 'v logger, int) prog) \<Rightarrow> ('s \<times> 'v logger, int) prog" where
  "RET_ON_ERROR S text expression k =
     bindp (on_code expression) (\<lambda>r.
       if r < 0 then bindp (in_log (ERROR S (text @ '' failed'') [])) (\<lambda>_. ret (-1)) else k r)"

definition RET_ON_PERROR ::
    "'v log_sys \<Rightarrow> string \<Rightarrow> string \<Rightarrow> ('s, int) prog \<Rightarrow> (int \<Rightarrow> ('s \<times> 'v logger, int) prog) \<Rightarrow>
     ('s \<times> 'v logger, int) prog" where
  "RET_ON_PERROR S reason text expression k =
     bindp (on_code expression) (\<lambda>r.
       if r < 0 then bindp (in_log (PERROR S reason (text @ '' failed''))) (\<lambda>_. ret (-1)) else k r)"

definition TRY_EXIT :: "'v log_sys \<Rightarrow> string \<Rightarrow> ('s, int) prog \<Rightarrow> ('s \<times> 'v logger, unit) prog" where
  "TRY_EXIT S text expression =
     bindp (on_code expression) (\<lambda>r.
       if r < 0 then bindp (in_log (ERROR S (''Fatal '' @ text @ '' failed'') [])) (\<lambda>_. faultp Exit_Failure)
       else ret ())"

definition TRY_VAL_RET ::
    "'v log_sys \<Rightarrow> string \<Rightarrow> ('s, int) prog \<Rightarrow> int \<Rightarrow> ('s \<times> 'v logger, int) prog \<Rightarrow> ('s \<times> 'v logger, int) prog" where
  "TRY_VAL_RET S text expression val k =
     bindp (on_code expression) (\<lambda>r.
       if r \<noteq> val then bindp (in_log (ERROR S (text @ '' failed'') [])) (\<lambda>_. ret (-1)) else k)"

definition TRY_VAL_EXIT :: "'v log_sys \<Rightarrow> string \<Rightarrow> ('s, int) prog \<Rightarrow> int \<Rightarrow> ('s \<times> 'v logger, unit) prog" where
  "TRY_VAL_EXIT S text expression val =
     bindp (on_code expression) (\<lambda>r.
       if r \<noteq> val then bindp (in_log (ERROR S (''Fatal '' @ text @ '' failed'') [])) (\<lambda>_. faultp Exit_Failure)
       else ret ())"

definition RET_ON_FALSE ::
    "'v log_sys \<Rightarrow> string \<Rightarrow> ('s, bool) prog \<Rightarrow> ('s \<times> 'v logger, int) prog \<Rightarrow> ('s \<times> 'v logger, int) prog" where
  "RET_ON_FALSE S text expression k =
     bindp (on_code expression) (\<lambda>r.
       if \<not> r then bindp (in_log (ERROR S (text @ '' is FALSE'') [])) (\<lambda>_. ret (-1)) else k)"

definition RET_NULL_ON_FALSE ::
    "'v log_sys \<Rightarrow> string \<Rightarrow> ('s, bool) prog \<Rightarrow> ('s \<times> 'v logger, 'a option) prog \<Rightarrow> ('s \<times> 'v logger, 'a option) prog" where
  "RET_NULL_ON_FALSE S text expression k =
     bindp (on_code expression) (\<lambda>r.
       if \<not> r then bindp (in_log (ERROR S (text @ '' is FALSE'') [])) (\<lambda>_. ret None) else k)"

definition RET_NULL_ON_ERROR ::
    "'v log_sys \<Rightarrow> string \<Rightarrow> ('s, int) prog \<Rightarrow> (int \<Rightarrow> ('s \<times> 'v logger, 'a option) prog) \<Rightarrow> ('s \<times> 'v logger, 'a option) prog" where
  "RET_NULL_ON_ERROR S text expression k =
     bindp (on_code expression) (\<lambda>r.
       if r < 0 then bindp (in_log (ERROR S (text @ '' failed'') [])) (\<lambda>_. ret None) else k r)"

section \<open>Without the log\<close>

text \<open>A program over both, seen as one over the state of the function, from the log \<open>l\<close>.\<close>

definition unlogged :: "'v logger \<Rightarrow> ('s \<times> 'v logger, 'a) prog \<Rightarrow> ('s, 'a) prog" where
  "unlogged l m = (\<lambda>s. case m (s, l) of Inl e \<Rightarrow> Inl e | Inr (a, (s', l')) \<Rightarrow> Inr (a, s'))"

text \<open>An expression that is a good format: it fits, with what is put around it, and has no \<open>%\<close> or NUL.\<close>

definition plain_text :: "string \<Rightarrow> bool" where
  "plain_text t \<longleftrightarrow> CHR ''%'' \<notin> set t \<and> CHR 0x00 \<notin> set t \<and> length t \<le> 450"

lemma vsprintf_no_conversion: "CHR ''%'' \<notin> set t \<Longrightarrow> vsprintf t [] = Inr t"
proof (induction t)
  case (Cons a t)
  then show ?case
    using vsprintf_plain [of a t "[]"] by auto
qed simp

lemma ERROR_returns:
  assumes "CHR ''%'' \<notin> set t" "CHR 0x00 \<notin> set t" "length t < 512"
  shows "\<exists>l'. ERROR S t [] l = Inr ((), l')"
proof -
  have "fits t [] t"
    using assms by (simp add: fits_def vsprintf_no_conversion)
  then have "runs (ERROR S t []) l (\<lambda>_ _. True)"
    by (simp add: ERROR_def log_error_def runs_bindp runs_basic runs_TRACELN)
  then show ?thesis
    by (auto simp: runs_Inr)
qed

lemma unlogged_line:
  assumes "CHR ''%'' \<notin> set t" "CHR 0x00 \<notin> set t" "length t < 512"
  shows "\<exists>l'. unlogged l (bindp (in_log (ERROR S t [])) f) = unlogged l' (f ())"
proof -
  obtain l' where "ERROR S t [] l = Inr ((), l')"
    using ERROR_returns [OF assms] by blast
  then have "unlogged l (bindp (in_log (ERROR S t [])) f) = unlogged l' (f ())"
    by (simp add: unlogged_def in_log_def zoom_def bindp_def fun_eq_iff)
  then show ?thesis
    by blast
qed

lemma unlogged_on_code: "unlogged l (bindp (on_code m) f) = bindp m (\<lambda>a. unlogged l (f a))"
  by (auto simp: unlogged_def on_code_def zoom_def bindp_def fun_eq_iff split: sum.split prod.split)

lemma unlogged_simps [simp]:
  "unlogged l (ret a) = ret a" "unlogged l (faultp e) = faultp e"
  "unlogged l (bindp (getp (\<lambda>t. c (fst t))) f) = bindp (getp c) (\<lambda>a. unlogged l (f a))"
  by (auto simp: unlogged_def ret_def faultp_def bindp_def getp_def fun_eq_iff split: sum.split prod.split)

lemma unlogged_if: "unlogged l (if c then m else m') = (if c then unlogged l m else unlogged l m')"
  by simp

lemma plain_lines:
  assumes "plain_text t"
  shows "\<exists>l'. unlogged l (bindp (in_log (ERROR S (t @ '' failed'') [])) f) = unlogged l' (f ())"
    "\<exists>l'. unlogged l (bindp (in_log (ERROR S (t @ '' is FALSE'') [])) f) = unlogged l' (f ())"
    "\<exists>l'. unlogged l (bindp (in_log (ERROR S (''Fatal '' @ t @ '' failed'') [])) f) = unlogged l' (f ())"
    "\<exists>l'. unlogged l (bindp (in_log (ERROR S (''Check '' @ t @ '' failed'' @ NEWLINE) [])) f) = unlogged l' (f ())"
  by (rule unlogged_line; use assms in \<open>simp add: plain_text_def\<close>)+

lemma unlogged_perror:
  assumes "plain_text t" "length reason < 500"
  shows "\<exists>l'. unlogged l (bindp (in_log (PERROR S reason (t @ '' failed''))) f) = unlogged l' (f ())"
proof -
  have "vsprintf (''%s'' @ NEWLINE) [Str reason] = Inr (reason @ NEWLINE)"
    by simp
  then have "runs (log_trace S Error (''%s'' @ NEWLINE) [Str reason]) l (\<lambda>_ _. True)"
    using assms(2) by (simp add: log_trace_def TRACE_def log_write_def runs_simps)
  then obtain l1 where "log_trace S Error (''%s'' @ NEWLINE) [Str reason] l = Inr ((), l1)"
    by (auto simp: runs_Inr)
  moreover obtain l2 where "ERROR S (t @ '' failed'') [] l1 = Inr ((), l2)"
    using ERROR_returns [of "t @ '' failed''" S l1] assms(1) by (auto simp: plain_text_def)
  ultimately have "PERROR S reason (t @ '' failed'') l = Inr ((), l2)"
    by (simp add: PERROR_def bindp_def)
  then have "unlogged l (bindp (in_log (PERROR S reason (t @ '' failed''))) f) = unlogged l2 (f ())"
    by (simp add: unlogged_def in_log_def zoom_def bindp_def fun_eq_iff)
  then show ?thesis
    by blast
qed

lemma unlogged_return:
  assumes "plain_text t" "length reason < 500"
  shows "unlogged l (bindp (in_log (ERROR S (t @ '' failed'') [])) (\<lambda>_. ret a)) = ret a"
    "unlogged l (bindp (in_log (ERROR S (t @ '' is FALSE'') [])) (\<lambda>_. ret a)) = ret a"
    "unlogged l (bindp (in_log (PERROR S reason (t @ '' failed''))) (\<lambda>_. ret a)) = ret a"
  using plain_lines(1,2) [OF assms(1), of l S "\<lambda>_. ret a"] unlogged_perror [OF assms, of l S "\<lambda>_. ret a"] by auto

text \<open>
  The lines that the macros write change nothing but the log: with an expression that is a good
  format, a function with the macros is the one modelled elsewhere without them.
\<close>

theorem macros_without_log:
  assumes "plain_text text" "length reason < 500"
  shows "unlogged l (ASSERT S text c) = assertp c"
    "unlogged l (RET_ON_ERROR S text m k) = ret_on_error m (\<lambda>r. unlogged l (k r))"
    "unlogged l (RET_ON_PERROR S reason text m k) = ret_on_error m (\<lambda>r. unlogged l (k r))"
    "unlogged l (RET_ON_FALSE S text q k') = bindp q (\<lambda>r. if r then unlogged l k' else ret (-1))"
    "unlogged l (RET_NULL_ON_ERROR S text m n) = bindp m (\<lambda>r. if r < 0 then ret None else unlogged l (n r))"
proof -
  note lines = plain_lines [OF assms(1)]
  obtain l1 where l1: "unlogged l (bindp (in_log (ERROR S (''Check '' @ text @ '' failed'' @ NEWLINE) [])) (\<lambda>_. faultp Exit_Failure)) =
      unlogged l1 (faultp Exit_Failure :: ('a \<times> 'b logger, unit) prog)"
    using lines(4) by blast
  have "unlogged l (ASSERT S text c) = bindp (getp c) (\<lambda>b. if \<not> b then faultp Exit_Failure else ret ())"
    unfolding ASSERT_def unlogged_simps(3) unlogged_if l1 unlogged_simps(1,2) ..
  then show "unlogged l (ASSERT S text c) = assertp c"
    by (auto simp: fun_eq_iff bindp_def getp_def assertp_def faultp_def ret_def)
  show "unlogged l (RET_ON_ERROR S text m k) = ret_on_error m (\<lambda>r. unlogged l (k r))"
    "unlogged l (RET_NULL_ON_ERROR S text m n) = bindp m (\<lambda>r. if r < 0 then ret None else unlogged l (n r))"
    "unlogged l (RET_ON_PERROR S reason text m k) = ret_on_error m (\<lambda>r. unlogged l (k r))"
    "unlogged l (RET_ON_FALSE S text q k') = bindp q (\<lambda>r. if r then unlogged l k' else ret (-1))"
    unfolding RET_ON_ERROR_def RET_NULL_ON_ERROR_def RET_ON_PERROR_def RET_ON_FALSE_def ret_on_error_def unlogged_on_code
      unlogged_if unlogged_return [OF assms]
    by (rule refl, rule refl, rule refl, rule arg_cong [of _ _ "bindp q"]) auto
qed

section \<open>Exceptions\<close>

text \<open>
  The macro of log.h that throws, which no file uses: \<open>date\<close> is what \<open>timing_time2str\<close> gives, \<open>file\<close>, \<open>fn\<close>
  and \<open>line\<close> what the preprocessor puts for the place. Both \<open>sprintf\<close> have no bound.
\<close>

definition THROW :: "string \<Rightarrow> string \<Rightarrow> string \<Rightarrow> int \<Rightarrow> string \<Rightarrow> arg list \<Rightarrow> ('s, 'a) prog" where
  "THROW date file fn line MSG args =
     bindp (liftp (vsprintf MSG args)) (\<lambda>msg.
       if length msg < MAX_LOG_BUF then
         bindp (liftp (vsprintf (''[%s %s %s():%d Excep] %s'' @ NEWLINE)
             [Str date, Str file, Str fn, Number line, Str (takeWhile (\<lambda>c. c \<noteq> CHR 0x00) msg)])) (\<lambda>text.
           if length text < 3 * MAX_LOG_BUF then faultp (Uncaught (takeWhile (\<lambda>c. c \<noteq> CHR 0x00) text))
           else faultp Out_Of_Bounds)
       else faultp Out_Of_Bounds)"

text \<open>
  A message of 512 characters or more runs over its array; a shorter one is thrown with the place
  before it, for places with short names.
\<close>

theorem THROW_result:
  fixes s :: 's
  shows "vsprintf MSG args = Inr t \<Longrightarrow> 512 \<le> length t \<Longrightarrow> (THROW date file fn line MSG args :: ('s, 'a) prog) s = Inl Out_Of_Bounds"
  "fits MSG args t \<Longrightarrow> CHR 0x00 \<notin> set (date @ file @ fn) \<Longrightarrow>
     length date + length file + length fn + length (show_int line) \<le> 1000 \<Longrightarrow>
     (THROW date file fn line MSG args :: ('s, 'a) prog) s =
       Inl (Uncaught (''['' @ date @ '' '' @ file @ '' '' @ fn @ ''():'' @ show_int line @ '' Excep] '' @ t @ NEWLINE))"
proof -
  show "(THROW date file fn line MSG args :: ('s, 'a) prog) s = Inl Out_Of_Bounds" if "vsprintf MSG args = Inr t" "512 \<le> length t"
    using that by (simp add: THROW_def bindp_def liftp_def faultp_def)
next
  assume t: "fits MSG args t" and names: "CHR 0x00 \<notin> set (date @ file @ fn)"
    and short: "length date + length file + length fn + length (show_int line) \<le> 1000"
  define whole where "whole = ''['' @ date @ '' '' @ file @ '' '' @ fn @ ''():'' @ show_int line @ '' Excep] '' @ t @ NEWLINE"
  have put: "bindp (liftp (Inr a)) f = f a" for a :: string and f :: "string \<Rightarrow> ('s, 'a) prog"
    by (simp add: bindp_def liftp_def fun_eq_iff)
  have msg: "vsprintf MSG args = Inr t" "length t < MAX_LOG_BUF" "takeWhile (\<lambda>c. c \<noteq> CHR 0x00) t = t"
    using t by (simp_all add: fits_def takeWhile_all)
  have line: "vsprintf (''[%s %s %s():%d Excep] %s'' @ NEWLINE) [Str date, Str file, Str fn, Number line, Str t] = Inr whole"
    by (simp add: whole_def)
  have fit: "length whole < 3 * MAX_LOG_BUF" "takeWhile (\<lambda>c. c \<noteq> CHR 0x00) whole = whole"
    using t names short by (simp_all add: whole_def fits_def takeWhile_all)
  have "THROW date file fn line MSG args = (faultp (Uncaught whole) :: ('s, 'a) prog)"
    unfolding THROW_def msg(1) put if_P [OF msg(2)] msg(3) line if_P [OF fit(1)] fit(2) by (rule refl)
  then show "(THROW date file fn line MSG args :: ('s, 'a) prog) s = Inl (Uncaught whole)"
    by (simp add: faultp_def)
qed

end
