(* ===== verification/Sock_Macros.thy ===== *)
theory Sock_Macros
  imports Log_Trace Sockaddr
begin

text \<open>
  sock.h: the constants for addresses and the macro that prints a hardware address. The address has
  the type \<open>macaddress\<close>, six bytes without sign; where a function has it as \<open>char*\<close> its bytes are
  signed, and \<open>sprintf\<close> is given negative numbers.
\<close>

section \<open>Definitions\<close>

definition LOOPBACK_ADDR :: "32 word" where
  "LOOPBACK_ADDR = 0x0100007F"

definition LOOPBACK_TXT :: string where
  "LOOPBACK_TXT = ''127.0.0.1''"

definition ANY_IP_ADDR :: "32 word" where
  "ANY_IP_ADDR = 0"

abbreviation (input) MAC_ADDR_STR_LENGTH :: nat where "MAC_ADDR_STR_LENGTH \<equiv> 13"

definition VOID_MAC :: string where
  "VOID_MAC = replicate 6 (CHR 0x00)"

text \<open>A byte as \<open>unsigned char\<close> and as \<open>char\<close>.\<close>

definition unsigned_char :: "char \<Rightarrow> int" where
  "unsigned_char c = int (of_char c)"

definition signed_char :: "char \<Rightarrow> int" where
  "signed_char c = (if of_char c < (128 :: nat) then int (of_char c) else int (of_char c) - 256)"

definition MAC2STR :: "int list \<Rightarrow> fault + string" where
  "MAC2STR str =
     (case str of
        [s0, s1, s2, s3, s4, s5] \<Rightarrow>
          vsprintf ''%02X%02X%02X%02X%02X%02X'' [Number s0, Number s1, Number s2, Number s3, Number s4, Number s5]
      | _ \<Rightarrow> Inl Out_Of_Bounds)"

section \<open>Hexadecimal text\<close>

definition hex2 :: "int \<Rightarrow> string" where
  "hex2 n = padded True 2 (show_hex (nat (n mod 2 ^ 32)))"

lemma vsprintf_02X [simp]:
  "vsprintf (CHR ''%'' # CHR ''0'' # CHR ''2'' # CHR ''X'' # f) (Number n # as) = map_sum id ((@) (hex2 n)) (vsprintf f as)"
  by (simp add: vsprintf.simps(2) convert_def is_digit_def hex2_def digit_val_def numeral_2_eq_2)

lemma MAC2STR_concat: "length str = 6 \<Longrightarrow> MAC2STR str = Inr (concat (map hex2 str))"
  by (auto simp: MAC2STR_def length_Suc_conv eval_nat_numeral)

abbreviation (input) hex_digit :: "nat \<Rightarrow> char" where
  "hex_digit n \<equiv> ''0123456789ABCDEF'' ! n"

lemma hex_digit_eq: "i < 16 \<Longrightarrow> j < 16 \<Longrightarrow> hex_digit i = hex_digit j \<longleftrightarrow> i = j"
  by (rule nth_eq_iff_index_eq) simp_all

lemma hex2_byte:
  assumes "n < 256"
  shows "hex2 (int n) = [hex_digit (n div 16), hex_digit (n mod 16)]"
proof (cases "n < 16")
  case True
  then show ?thesis
    by (simp add: hex2_def padded_def show_hex.simps [of n])
next
  case False
  then have "show_hex n = [hex_digit (n div 16), hex_digit (n mod 16)]"
    using assms by (simp add: show_hex.simps [of n] show_hex.simps [of "n div 16"])
  then show ?thesis
    using assms by (simp add: hex2_def padded_def)
qed

lemma length_show_hex: "16 ^ k \<le> n \<Longrightarrow> n < 16 ^ Suc k \<Longrightarrow> length (show_hex n) = Suc k"
proof (induction k arbitrary: n)
  case 0
  then show ?case
    by (simp add: show_hex.simps [of n])
next
  case (Suc k)
  have "(16 :: nat) ^ Suc k \<ge> 16"
    by simp
  then have "\<not> n < 16"
    using Suc.prems(1) by linarith
  moreover have "16 ^ k \<le> n div 16" "n div 16 < 16 ^ Suc k"
    using Suc.prems by (simp_all add: less_eq_div_iff_mult_less_eq less_mult_imp_div_less mult.commute)
  ultimately show ?case
    using Suc.IH [of "n div 16"] by (simp add: show_hex.simps [of n])
qed

lemma length_hex2_char:
  "length (hex2 (signed_char c)) = (if of_char c < (128 :: nat) then 2 else 8)"
proof (cases "of_char c < (128 :: nat)")
  case True
  then show ?thesis
    using hex2_byte [of "of_char c"] by (simp add: signed_char_def)
next
  case False
  have c: "of_char c < (256 :: nat)"
    by simp
  then have "(int (of_char c) - 256) mod 2 ^ 32 = int (of_char c) - 256 + 2 ^ 32"
    using mod_add_self2 [of "int (of_char c) - 256" "2 ^ 32"] by (simp add: mod_pos_pos_trivial del: mod_add_self2)
  then have "nat ((int (of_char c) - 256) mod 2 ^ 32) = of_char c + 4294967040"
    using c by simp
  moreover have "length (show_hex (of_char c + 4294967040)) = 8"
    using length_show_hex [of 7 "of_char c + 4294967040"] c by simp
  ultimately show ?thesis
    using False by (simp add: hex2_def padded_def signed_char_def)
qed

lemma hex2_unsigned: "hex2 (unsigned_char c) = [hex_digit (of_char c div 16), hex_digit (of_char c mod 16)]"
  by (simp add: unsigned_char_def hex2_byte)

lemma hex2_unsigned_inj: "hex2 (unsigned_char c) = hex2 (unsigned_char d) \<longleftrightarrow> c = d"
proof
  assume "hex2 (unsigned_char c) = hex2 (unsigned_char d)"
  then have "of_char c div 16 = (of_char d div 16 :: nat)" "of_char c mod 16 = (of_char d mod 16 :: nat)"
    by (simp_all add: hex2_unsigned hex_digit_eq less_mult_imp_div_less)
  then have "of_char c = (of_char d :: nat)"
    by (metis div_mult_mod_eq)
  then show "c = d"
    by simp
qed simp

section \<open>Properties\<close>

text \<open>
  The text of an address has twelve characters and fits, with its NUL, an array of
  \<open>MAC_ADDR_STR_LENGTH\<close>; different addresses have different texts. Given as \<open>char*\<close>, every byte from
  128 on is printed with eight digits: one such byte runs over the array.
\<close>

theorem MAC2STR_result:
  assumes "length mac = 6"
  shows "\<exists>t. MAC2STR (map unsigned_char mac) = Inr t \<and> length t < MAC_ADDR_STR_LENGTH"
    and "length mac' = 6 \<Longrightarrow> MAC2STR (map unsigned_char mac) = MAC2STR (map unsigned_char mac') \<longleftrightarrow> mac = mac'"
    and "\<exists>t. MAC2STR (map signed_char mac) = Inr t \<and>
      length t = 12 + 6 * length (filter (\<lambda>c. 128 \<le> (of_char c :: nat)) mac)"
proof -
  have two: "length (hex2 (unsigned_char c)) = 2" for c
    by (simp add: hex2_unsigned)
  have "length (concat (map hex2 (map unsigned_char xs))) = 2 * length xs" for xs
    by (induction xs) (simp_all add: two)
  then show "\<exists>t. MAC2STR (map unsigned_char mac) = Inr t \<and> length t < MAC_ADDR_STR_LENGTH"
    using assms by (simp add: MAC2STR_concat)
  have "concat (map hex2 (map unsigned_char xs)) = concat (map hex2 (map unsigned_char ys)) \<longleftrightarrow> xs = ys"
    if "length xs = length ys" for xs ys
    using that by (induction xs ys rule: list_induct2) (simp_all add: append_eq_append_conv two hex2_unsigned_inj)
  then show "MAC2STR (map unsigned_char mac) = MAC2STR (map unsigned_char mac') \<longleftrightarrow> mac = mac'" if "length mac' = 6"
    using assms that by (simp add: MAC2STR_concat)
  have "length (concat (map hex2 (map signed_char xs))) = 2 * length xs + 6 * length (filter (\<lambda>c. 128 \<le> (of_char c :: nat)) xs)" for xs
    by (induction xs) (simp_all add: length_hex2_char)
  then show "\<exists>t. MAC2STR (map signed_char mac) = Inr t \<and>
      length t = 12 + 6 * length (filter (\<lambda>c. 128 \<le> (of_char c :: nat)) mac)"
    using assms by (simp add: MAC2STR_concat)
qed

text \<open>The constants agree: each number is the address in network order that the text stands for.\<close>

theorem sock_addresses:
  "inet_ntoa LOOPBACK_ADDR = LOOPBACK_TXT" "inet_ntoa ANY_IP_ADDR = ''0.0.0.0''"
  "MAC2STR (map unsigned_char VOID_MAC) = Inr ''000000000000''"
proof -
  have bytes: "le_bytes 4 n = [char_of n, char_of (n div 256), char_of (n div 256 div 256), char_of (n div 256 div 256 div 256)]" for n
  proof -
    have "(4 :: nat) = Suc (Suc (Suc (Suc 0)))"
      by simp
    then show ?thesis
      by (simp only: le_bytes.simps)
  qed
  have six: "replicate 6 x = [x, x, x, x, x, x]" for x :: string
    by (simp add: eval_nat_numeral)
  have digits: "show_dec 127 = ''127''" "show_dec 0 = ''0''" "show_dec (Suc 0) = ''1''"
    by (simp_all add: show_dec.simps [of 127] show_dec.simps [of 12] show_dec.simps [of "Suc 0"] show_dec.simps [of 0] digit_char_def
        char_of_eq_iff)
  show "inet_ntoa LOOPBACK_ADDR = LOOPBACK_TXT" "inet_ntoa ANY_IP_ADDR = ''0.0.0.0''"
    by (simp_all add: inet_ntoa_def LOOPBACK_ADDR_def ANY_IP_ADDR_def LOOPBACK_TXT_def mem32_def bytes dotted_def digits)
  show "MAC2STR (map unsigned_char VOID_MAC) = Inr ''000000000000''"
    by (simp add: MAC2STR_concat VOID_MAC_def hex2_unsigned six)
qed

end
