(* ===== verification/Spec2Isabelle.thy ===== *)
theory Spec2Isabelle
  imports First_Contact Bus_Types Poll_Race Pinger_Cpp Error_Macros Sock_Macros
begin

text \<open>
  A model of libsbus (src/libsbus/src), a library with which programs on a local network find
  each other by name over UDP multicast and exchange messages over TCP, and of its two test
  programs.

  The parts of the program, from the bottom, and the theories that model them.

  \<^item> sockaddr.c, stcp.c, sudp.c: addresses and sockets. Theories \<open>Sockaddr\<close>, \<open>Stcp\<close>, \<open>Sudp\<close>. One
    definition per function, with its name. The operating system is a parameter, the record
    \<open>posix\<close> of \<open>Sbus_Posix\<close>: each system call is a function of a state of any type \<open>'w\<close>.
  \<^item> SPoll.cpp and the C module spoll.c it replaced: the registry of polled descriptors. Theory
    \<open>Poller\<close>; its interface, an ordered list with a capacity, is the locale \<open>watch_list\<close> of
    \<open>Watch_List\<close>, interpreted on both implementations.
  \<^item> SMsg.cpp and the header of SMessenger.cpp: messages and their form on the wire. Theories \<open>Smsg\<close>
    and \<open>Framing\<close>; the locale \<open>codec\<close> has what cutting a stream into frames needs.
  \<^item> SPeerInfo.cpp, SContacts.cpp and the hash maps of hashdefs.h: the table of known peers. Theories
    \<open>Peer_Info\<close>, \<open>Hash_Index\<close> (locale \<open>hash_index\<close>), \<open>Contacts\<close> (the operations, over an explicit heap of
    peer objects), \<open>Contacts_Laws\<close> (the invariant and what each operation does to it),
    \<open>Peer_Registry\<close> (the abstract directory and the locale \<open>registry\<close>) and \<open>Contact_Book\<close> (the
    refinement).
  \<^item> timing.c: theory \<open>Timing\<close>.
  \<^item> SMessenger.cpp: messages over the multicast socket and the connections. Theories \<open>Messenger\<close>
    (the operations), \<open>Messenger_Laws\<close> (sending, and the extraction of one message) and
    \<open>Messenger_Recv\<close> (the receive loop).
  \<^item> SBus.cpp: the bus. It owns a messenger, the contacts and the queue between its receiving thread
    and its client. Theory \<open>Bus\<close> has every operation as a program of one thread; \<open>Bus_Laws\<close> what they
    do to the contacts; \<open>Bus_Messages\<close> the effect of each kind of message, \<open>Bus_Client\<close> of \<open>send\<close> and
    \<open>recv\<close>; \<open>Bus_Invariant\<close> the invariant of every history of calls. Theory \<open>Bus_Threads\<close> has the two
    threads, the mutex and the queue as step relations (\<open>inLoop_step\<close>, \<open>recv_step\<close>, \<open>getPending_step\<close>,
    \<open>delete_step\<close>), with invariants of every interleaving through the locale \<open>machine\<close>, and shows that
    the programs of \<open>Bus\<close> are runs of them.
    Theory \<open>Poll_Race\<close> has what the two threads share besides: the array of the registry and its
    counts, as step relations of one access each (\<open>add_step\<close>, \<open>remove_step\<close>, \<open>poll_step\<close>).
    Theory \<open>Naming\<close> puts two buses together, from \<open>setName\<close> on one to the contacts of the other, and
    the answer to a bus that takes a name in use; \<open>Connections\<close> does so for a sequence of messages to one
    peer, from \<open>sendTo\<close> on one bus to \<open>recv\<close> on the other. \<open>First_Contact\<close> begins with a connection that
    waits to be accepted, and ends with its first message, or with the answer that a name is taken,
    at the client. \<open>Bus_Types\<close> shows that in every history the values in
    the queue and those that are delivered are in the ranges of their C types.
  \<^item> sbus.c: the interface for C. Theory \<open>C_Api\<close>, over handles and caller's buffers.
  \<^item> log.c and log.h: theory \<open>Log_Trace\<close>. The macros of errdefs.h and THROW: theory \<open>Error_Macros\<close>;
    those of sock.h: \<open>Sock_Macros\<close>.
  \<^item> testc/sbustest.c and testcpp/sbustest.cpp, a program that takes a name and writes a line for each
    message it gets, once over the C interface and once over the classes. Theories \<open>Pinger\<close> and
    \<open>Pinger_Cpp\<close>: one definition per function, with how the sessions of both end and where they differ.

  A message goes down from \<open>SBus_sendTo\<close> through \<open>SBus_peer2Socket\<close> (contacts) and \<open>SMessenger_sendTo\<close> to
  \<open>stcp_send\<close>, and up from \<open>SPoll_doPoll\<close> through \<open>SMessenger_recv\<close> to the queue (\<open>SBus_inRound\<close>), from
  which \<open>SBus_recv\<close> takes it, to \<open>SBus_processSMsg\<close>, which files the sender in the contacts and answers
  messages of the naming protocol.

  Programs. A C function with effects is a \<open>prog\<close>: from a state it gives a result and a new state,
  or a \<open>fault\<close>, which stands for the end of the process through an assertion, for an access out of
  bounds, a null pointer, the use of freed memory, an overflow of the stack or of an \<open>int\<close>, an
  exception. \<open>runs m s Q\<close> says that \<open>m\<close> returns with \<open>Q\<close>, \<open>safe m s Q\<close> the same unless there is a
  fault, \<open>fails m s f\<close> that it ends in \<open>f\<close>; their rules are the collections \<open>runs_simps\<close> and
  \<open>safe_simps\<close>.

  Integers. \<open>int\<close> values are Isabelle's \<open>int\<close>, brought back into range where the code stores them in
  a narrower type (\<open>to_short\<close>, \<open>to_int\<close>), or checked where they overflow (\<open>int_minus\<close>); addresses, ports
  and flags are words; memory is little endian, so \<open>htons\<close> and \<open>htonl\<close> turn the bytes round.

  Fuel. Three loops have no bound of their own. That of \<open>SMessenger_recv\<close> runs on fuel, and
  \<open>SMessenger_recv_ends\<close> shows that one unit for every megabyte of stack, and one more, is enough,
  because every round that does not return takes a megabyte with \<open>alloca\<close>. The loop of \<open>SBus_recv\<close>
  waits for the other thread: \<open>SBus_recv_returns\<close> shows that it returns with one unit more than the
  queue has messages of the bus itself before one for the client, and \<open>SBus_recv_blocks\<close> that without
  such a message no fuel is enough. \<open>SBus_inLoop\<close> runs until the destructor clears \<open>alive\<close>.

  What the C++ runtime does where the code has no defined meaning is a parameter of the contacts, the
  record \<open>cxx\<close>: what a read of a deleted object gives, whether an erased iterator can be advanced,
  whether the end iterator can be erased. The theorems say which answer they assume.

  Not modelled: qbus.h and SObj.h declare what is nowhere implemented, as do a few prototypes of the
  other headers (\<open>SBus::find\<close>, \<open>sockaddr_getMACStr\<close>); LONG_PREFIX is an empty macro; those of
  memdefs.h are \<open>calloc\<close> and \<open>free\<close>, part of the functions that use them. Log
  lines are left out of the components below the test programs, but the calls made for their arguments
  are not; \<open>macros_without_log\<close> shows for the macros of errdefs.h that leaving them out changes only the
  log. In the test programs the log has a system state of its own, apart from that of the bus.

  The interleavings. Those of \<open>Bus_Threads\<close> are of the queue, the mutex and the flag \<open>alive\<close>; what the
  messenger and \<open>processSMsg\<close> give is any value there. The two threads also share the messenger and
  its registry without a lock. \<open>Poll_Race\<close> has the steps of adding, removing and polling on the
  registry, with every write of the pointer, the counts and the cells a step of its own, and
  shows when the sharing does no harm and when it does; there the memory never runs out. \<open>bus_any_history\<close> takes
  the rounds of the receiving thread as atomic.
\<close>

end
